(* ===== verification/Prelude.thy ===== *)
theory Prelude
  imports Main "HOL-Library.Sublist"
begin

text \<open>
  Vocabulary shared by every component: the three-way outcome of a Rust call
  (a value, an error value, or a panic), the combinators that stand for the
  \<open>?\<close> operator, \<open>ok_or\<close>, \<open>map_err\<close> and \<open>.ok()\<close>, and a few generic facts on
  lists and options.  The collections \<open>res_simps\<close> and \<open>res_elims\<close> carry the
  rules that unfold a chain of fallible calls.
\<close>

named_theorems res_simps "rules that evaluate a chain of fallible calls"
named_theorems res_elims "rules that take a successful chain of fallible calls apart"

section \<open>Outcomes of fallible code\<close>

datatype ('e, 'a) res = Ok 'a | Err 'e | Panic

fun is_ok :: "('e, 'a) res \<Rightarrow> bool" where
  "is_ok (Ok _) = True"
| "is_ok (Err _) = False"
| "is_ok Panic = False"

fun is_err :: "('e, 'a) res \<Rightarrow> bool" where
  "is_err (Err _) = True"
| "is_err (Ok _) = False"
| "is_err Panic = False"

definition the_ok :: "('e, 'a) res \<Rightarrow> 'a" where
  "the_ok r = (case r of Ok x \<Rightarrow> x)"

text \<open>\<open>attempt m k\<close> is \<open>let x = m?; k(x)\<close>.\<close>

fun attempt :: "('e, 'a) res \<Rightarrow> ('a \<Rightarrow> ('e, 'b) res) \<Rightarrow> ('e, 'b) res" where
  "attempt (Ok x) k = k x"
| "attempt (Err e) k = Err e"
| "attempt Panic k = Panic"

text \<open>\<open>ok_or e v\<close> is \<open>v.ok_or(e)\<close>.\<close>

fun ok_or :: "'e \<Rightarrow> 'a option \<Rightarrow> ('e, 'a) res" where
  "ok_or e (Some x) = Ok x"
| "ok_or e None = Err e"

text \<open>\<open>ensure c e\<close> is the early return \<open>if !c { return Err(e) }\<close>.\<close>

definition ensure :: "bool \<Rightarrow> 'e \<Rightarrow> ('e, unit) res" where
  "ensure c e = (if c then Ok () else Err e)"

fun map_err :: "('e \<Rightarrow> 'f) \<Rightarrow> ('e, 'a) res \<Rightarrow> ('f, 'a) res" where
  "map_err f (Ok x) = Ok x"
| "map_err f (Err e) = Err (f e)"
| "map_err f Panic = Panic"

text \<open>\<open>ok_opt r\<close> is \<open>r.ok()\<close>: the error is dropped, a panic still unwinds.\<close>

fun ok_opt :: "('e, 'a) res \<Rightarrow> ('f, 'a option) res" where
  "ok_opt (Ok x) = Ok (Some x)"
| "ok_opt (Err e) = Ok None"
| "ok_opt Panic = Panic"

text \<open>Iterating a fallible step over a list, stopping at the first failure.\<close>

fun fold_res :: "('a \<Rightarrow> 's \<Rightarrow> ('e, 's) res) \<Rightarrow> 'a list \<Rightarrow> 's \<Rightarrow> ('e, 's) res" where
  "fold_res f [] s = Ok s"
| "fold_res f (x # xs) s = attempt (f x s) (fold_res f xs)"

fun map_res :: "('a \<Rightarrow> ('e, 'b) res) \<Rightarrow> 'a list \<Rightarrow> ('e, 'b list) res" where
  "map_res f [] = Ok []"
| "map_res f (x # xs) = attempt (f x) (\<lambda>y. attempt (map_res f xs) (\<lambda>ys. Ok (y # ys)))"

text \<open>\<open>Iterator::find_map\<close>: the first element on which the function answers.\<close>

fun find_map :: "('a \<Rightarrow> 'b option) \<Rightarrow> 'a list \<Rightarrow> 'b option" where
  "find_map f [] = None"
| "find_map f (x # xs) = (case f x of Some y \<Rightarrow> Some y | None \<Rightarrow> find_map f xs)"

text \<open>\<open>opt.map(f).transpose()?\<close>: an absent value is fine, a present one must convert.\<close>

fun transpose_opt :: "('a \<Rightarrow> ('e, 'b) res) \<Rightarrow> 'a option \<Rightarrow> ('e, 'b option) res" where
  "transpose_opt f None = Ok None"
| "transpose_opt f (Some x) = attempt (f x) (\<lambda>y. Ok (Some y))"

lemma find_map_SomeD: "find_map f xs = Some y \<Longrightarrow> \<exists>x \<in> set xs. f x = Some y"
  by (induction xs) (auto split: option.splits)

lemma find_map_None_iff: "find_map f xs = None \<longleftrightarrow> (\<forall>x \<in> set xs. f x = None)"
  by (induction xs) (auto split: option.splits)

lemma is_ok_the_ok: "is_ok r \<Longrightarrow> r = Ok (the_ok r)"
  by (cases r) (auto simp: the_ok_def)

lemma attempt_eq_Ok [res_simps]:
  "attempt m k = Ok y \<longleftrightarrow> (\<exists>x. m = Ok x \<and> k x = Ok y)"
  by (cases m) auto

lemma attempt_eq_Err:
  "attempt m k = Err e \<longleftrightarrow> m = Err e \<or> (\<exists>x. m = Ok x \<and> k x = Err e)"
  by (cases m) auto

lemma attempt_eq_Panic:
  "attempt m k = Panic \<longleftrightarrow> m = Panic \<or> (\<exists>x. m = Ok x \<and> k x = Panic)"
  by (cases m) auto

lemma ok_or_eq_Ok [res_simps]: "ok_or e v = Ok x \<longleftrightarrow> v = Some x"
  by (cases v) auto

lemma ok_or_eq_Err [res_simps]: "ok_or e v = Err e' \<longleftrightarrow> v = None \<and> e = e'"
  by (cases v) auto

lemma ok_or_not_Panic [simp]: "ok_or e v \<noteq> Panic"
  by (cases v) auto

lemma ensure_eq_Ok [res_simps]: "ensure c e = Ok u \<longleftrightarrow> c"
  by (simp add: ensure_def)

lemma ensure_eq_Err [res_simps]: "ensure c e = Err e' \<longleftrightarrow> \<not> c \<and> e = e'"
  by (auto simp: ensure_def)

lemma ensure_not_Panic [simp]: "ensure c e \<noteq> Panic"
  by (simp add: ensure_def)

lemma ensure_True [simp]: "ensure True e = Ok ()"
  by (simp add: ensure_def)

lemma ensure_False [simp]: "ensure False e = Err e"
  by (simp add: ensure_def)

lemma map_err_eq_Ok [res_simps]: "map_err f r = Ok x \<longleftrightarrow> r = Ok x"
  by (cases r) auto

lemma map_err_eq_Err: "map_err f r = Err y \<longleftrightarrow> (\<exists>e. r = Err e \<and> y = f e)"
  by (cases r) auto

lemma map_err_eq_Panic [simp]: "map_err f r = Panic \<longleftrightarrow> r = Panic"
  by (cases r) auto

lemma ok_opt_eq_Some [res_simps]: "ok_opt r = Ok (Some x) \<longleftrightarrow> r = Ok x"
  by (cases r) auto

lemma ok_opt_eq_None [res_simps]: "ok_opt r = Ok None \<longleftrightarrow> is_err r"
  by (cases r) auto

lemma ok_opt_not_Err [simp]: "ok_opt r \<noteq> Err e"
  by (cases r) auto

lemma ok_opt_eq_Panic [simp]: "ok_opt r = Panic \<longleftrightarrow> r = Panic"
  by (cases r) auto

lemma attempt_OkE [res_elims]:
  assumes "attempt m k = Ok y"
  obtains x where "m = Ok x" "k x = Ok y"
  using assms by (auto simp: attempt_eq_Ok)

lemma attempt_assoc: "attempt (attempt m f) g = attempt m (\<lambda>x. attempt (f x) g)"
  by (cases m) auto

lemma fold_res_append: "fold_res f (xs @ ys) s = attempt (fold_res f xs s) (fold_res f ys)"
  by (induction xs arbitrary: s) (auto simp: attempt_assoc intro!: arg_cong[where f = "attempt _"] ext)

lemma fold_res_invariant:
  assumes "fold_res f xs s = Ok s'" "P s"
    and "\<And>x s s'. \<lbrakk>x \<in> set xs; P s; f x s = Ok s'\<rbrakk> \<Longrightarrow> P s'"
  shows "P s'"
  using assms
proof (induction xs arbitrary: s)
  case (Cons x xs)
  from Cons.prems(1) obtain s1 where "f x s = Ok s1" "fold_res f xs s1 = Ok s'"
    by (auto simp: attempt_eq_Ok)
  then show ?case using Cons by (meson list.set_intros)
qed simp

lemma map_res_eq_Ok:
  "map_res f xs = Ok ys \<longleftrightarrow> list_all2 (\<lambda>x y. f x = Ok y) xs ys"
  by (induction xs arbitrary: ys)
    (auto simp: attempt_eq_Ok list_all2_Cons1)

lemma map_res_length: "map_res f xs = Ok ys \<Longrightarrow> length ys = length xs"
  by (auto simp: map_res_eq_Ok dest: list_all2_lengthD)

section \<open>Lists\<close>

text \<open>\<open>Vec::dedup_by\<close>: an element that the predicate identifies with the last one kept
  is dropped.\<close>

fun dedup_by :: "('a \<Rightarrow> 'a \<Rightarrow> bool) \<Rightarrow> 'a list \<Rightarrow> 'a list" where
  "dedup_by eq [] = []"
| "dedup_by eq [x] = [x]"
| "dedup_by eq (x # y # zs) = (if eq y x then dedup_by eq (x # zs) else x # dedup_by eq (y # zs))"

lemma dedup_by_subseq: "subseq (dedup_by eq xs) xs"
proof (induction eq xs rule: dedup_by.induct)
  case (3 eq x y zs)
  show ?case
  proof (cases "eq y x")
    case True
    have "subseq (x # zs) (x # y # zs)" by (simp add: list_emb_Cons)
    from subseq_order.trans[OF 3(1)[OF True] this] True show ?thesis by simp
  next
    case False
    with 3(2) show ?thesis by simp
  qed
qed simp_all

lemma set_dedup_by: "set (dedup_by eq xs) \<subseteq> set xs"
  by (induction eq xs rule: dedup_by.induct) auto

lemma dedup_by_id:
  assumes "\<forall>x \<in> set xs. \<forall>y \<in> set xs. eq x y \<longrightarrow> x = y" "distinct xs"
  shows "dedup_by eq xs = xs"
  using assms
proof (induction eq xs rule: dedup_by.induct)
  case (3 eq x y zs)
  from 3(3,4) have ne: "\<not> eq y x" by (metis distinct_length_2_or_more list.set_intros)
  have "dedup_by eq (y # zs) = y # zs"
  proof (rule 3(2)[OF ne])
    show "\<forall>a \<in> set (y # zs). \<forall>b \<in> set (y # zs). eq a b \<longrightarrow> a = b" using 3(3) by (meson list.set_intros(2))
  qed (use 3(4) in simp)
  with ne show ?case by simp
qed simp_all

lemma sorted_wrt_adjacent_nth:
  assumes "sorted_wrt P xs" "i < j" "j < length xs"
  shows "P (xs ! i) (xs ! j)"
  using assms by (simp add: sorted_wrt_nth_less)

lemma sum_list_filter_le_nat:
  "sum_list (map f (filter P xs)) \<le> (sum_list (map f xs) :: nat)"
  by (induction xs) auto

lemma takeWhile_dropWhile_sum:
  "sum_list (map f (takeWhile P xs)) + sum_list (map f (dropWhile P xs)) = (sum_list (map f xs) :: nat)"
  by (induction xs) auto

end
