(* ===== verification/Machine_Int.thy ===== *)
theory Machine_Int
  imports Prelude "HOL-Library.Word" "HOL-Library.Code_Target_Nat"
begin

text \<open>
  Rust's unsigned integers as machine words, with the checked and the
  saturating operations the sources call.  Every operation is characterised
  over the natural number a word denotes (\<open>unat\<close>): a checked operation returns
  exactly when the exact result fits, and a saturating one is the exact result
  clipped to the width.  The collection \<open>int_simps\<close> holds these rules.
\<close>

named_theorems int_simps "checked and saturating operations, read as natural numbers"

type_synonym u8 = "8 word"
type_synonym u32 = "32 word"
type_synonym i32 = "32 word"
type_synonym u64 = "64 word"
type_synonym u128 = "128 word"
type_synonym U256 = "256 word"

section \<open>Operations\<close>

definition uMAX :: "'a::len word" where
  "uMAX = - 1"

definition checked_add :: "'a::len word \<Rightarrow> 'a word \<Rightarrow> 'a word option" where
  "checked_add a b = (if unat a + unat b < 2 ^ LENGTH('a) then Some (a + b) else None)"

definition checked_sub :: "'a::len word \<Rightarrow> 'a word \<Rightarrow> 'a word option" where
  "checked_sub a b = (if b \<le> a then Some (a - b) else None)"

definition checked_mul :: "'a::len word \<Rightarrow> 'a word \<Rightarrow> 'a word option" where
  "checked_mul a b = (if unat a * unat b < 2 ^ LENGTH('a) then Some (a * b) else None)"

definition saturating_add :: "'a::len word \<Rightarrow> 'a word \<Rightarrow> 'a word" where
  "saturating_add a b = (case checked_add a b of Some c \<Rightarrow> c | None \<Rightarrow> uMAX)"

definition saturating_sub :: "'a::len word \<Rightarrow> 'a word \<Rightarrow> 'a word" where
  "saturating_sub a b = (if b \<le> a then a - b else 0)"

definition saturating_mul :: "'a::len word \<Rightarrow> 'a word \<Rightarrow> 'a word" where
  "saturating_mul a b = (case checked_mul a b of Some c \<Rightarrow> c | None \<Rightarrow> uMAX)"

text \<open>The plain operators \<open>+\<close>, \<open>-\<close>, \<open>*\<close> and \<open>/\<close>: an overflow or a division by zero
  panics (the arithmetic checks of the development profile).\<close>

definition add_or_panic :: "'a::len word \<Rightarrow> 'a word \<Rightarrow> ('e, 'a word) res" where
  "add_or_panic a b = (case checked_add a b of Some c \<Rightarrow> Ok c | None \<Rightarrow> Panic)"

definition sub_or_panic :: "'a::len word \<Rightarrow> 'a word \<Rightarrow> ('e, 'a word) res" where
  "sub_or_panic a b = (case checked_sub a b of Some c \<Rightarrow> Ok c | None \<Rightarrow> Panic)"

definition div_or_panic :: "'a::len word \<Rightarrow> 'a word \<Rightarrow> ('e, 'a word) res" where
  "div_or_panic a b = (if b = 0 then Panic else Ok (a div b))"

text \<open>\<open>T::try_from\<close> between unsigned widths.\<close>

definition try_narrow :: "'a::len word \<Rightarrow> 'b::len word option" where
  "try_narrow a = (if unat a < 2 ^ LENGTH('b) then Some (ucast a) else None)"

text \<open>A natural number read into a width, when it fits.\<close>

definition word_of_nat_checked :: "nat \<Rightarrow> 'a::len word option" where
  "word_of_nat_checked n = (if n < 2 ^ LENGTH('a) then Some (word_of_nat n) else None)"

section \<open>Characterisations\<close>

lemma unat_lt_width: "unat (a :: 'a::len word) < 2 ^ LENGTH('a)"
  by (rule unsigned_less)

lemma unat_le_max: "unat (a :: 'a::len word) \<le> 2 ^ LENGTH('a) - Suc 0"
  using unat_lt_width[of a] by linarith

lemma unat_of_nat_fits: "n < 2 ^ LENGTH('a) \<Longrightarrow> unat (word_of_nat n :: 'a::len word) = n"
  by (simp add: unat_of_nat)

lemma word_of_nat_eqI: "unat w = n \<Longrightarrow> w = word_of_nat n"
  by (auto simp: word_unat_eq_iff unat_of_nat_fits unat_lt_width)

lemma unat_uMAX [int_simps]: "unat (uMAX :: 'a::len word) = 2 ^ LENGTH('a) - 1"
  by (simp add: uMAX_def unsigned_minus_1_eq_mask mask_eq_exp_minus_1)

lemma word_eq_iff_unat: "a = b \<longleftrightarrow> unat a = unat b"
  by (simp add: word_unat_eq_iff)

lemma unat_plus_fits:
  "unat a + unat b < 2 ^ LENGTH('a) \<Longrightarrow> unat (a + b :: 'a::len word) = unat a + unat b"
  by (simp add: unat_word_ariths)

lemma unat_times_fits:
  "unat a * unat b < 2 ^ LENGTH('a) \<Longrightarrow> unat (a * b :: 'a::len word) = unat a * unat b"
  by (simp add: unat_word_ariths)

lemma unat_minus_le: "b \<le> a \<Longrightarrow> unat (a - b :: 'a::len word) = unat a - unat b"
  by (simp add: unat_sub)

lemma checked_add_eq_Some [int_simps]:
  "checked_add a b = Some c \<longleftrightarrow> unat a + unat b = unat c"
proof -
  have "unat c < 2 ^ LENGTH('a)" by (rule unat_lt_width)
  then show ?thesis
    by (auto simp: checked_add_def word_eq_iff_unat unat_plus_fits)
qed

lemma checked_add_eq_None [int_simps]:
  "checked_add a (b :: 'a::len word) = None \<longleftrightarrow> 2 ^ LENGTH('a) \<le> unat a + unat b"
  by (auto simp: checked_add_def)

lemma checked_sub_eq_Some [int_simps]:
  "checked_sub a b = Some c \<longleftrightarrow> unat b + unat c = unat a"
  by (auto simp: checked_sub_def word_eq_iff_unat unat_minus_le word_le_nat_alt split: if_splits)

lemma checked_sub_eq_None [int_simps]: "checked_sub a b = None \<longleftrightarrow> a < b"
  by (auto simp: checked_sub_def)

lemma checked_mul_eq_Some [int_simps]:
  "checked_mul a b = Some c \<longleftrightarrow> unat a * unat b = unat c"
proof -
  have "unat c < 2 ^ LENGTH('a)" by (rule unat_lt_width)
  then show ?thesis
    by (auto simp: checked_mul_def word_eq_iff_unat unat_times_fits)
qed

lemma checked_mul_eq_None [int_simps]:
  "checked_mul a (b :: 'a::len word) = None \<longleftrightarrow> 2 ^ LENGTH('a) \<le> unat a * unat b"
  by (auto simp: checked_mul_def)

lemma unat_saturating_add [int_simps]:
  "unat (saturating_add a b :: 'a::len word) = min (unat a + unat b) (2 ^ LENGTH('a) - 1)"
  by (auto simp: saturating_add_def checked_add_def unat_plus_fits unat_uMAX)

lemma unat_saturating_sub [int_simps]: "unat (saturating_sub a b) = unat a - unat b"
  by (auto simp: saturating_sub_def unat_minus_le word_le_nat_alt)

lemma unat_saturating_mul [int_simps]:
  "unat (saturating_mul a b :: 'a::len word) = min (unat a * unat b) (2 ^ LENGTH('a) - 1)"
  by (auto simp: saturating_mul_def checked_mul_def unat_times_fits unat_uMAX)

lemma add_or_panic_eq_Ok [int_simps]: "add_or_panic a b = Ok c \<longleftrightarrow> unat a + unat b = unat c"
  by (auto simp: add_or_panic_def checked_add_eq_Some[symmetric] split: option.splits)

lemma sub_or_panic_eq_Ok [int_simps]: "sub_or_panic a b = Ok c \<longleftrightarrow> unat b + unat c = unat a"
  by (auto simp: sub_or_panic_def checked_sub_eq_Some[symmetric] split: option.splits)

lemma div_or_panic_eq_Ok [int_simps]: "div_or_panic a b = Ok c \<longleftrightarrow> b \<noteq> 0 \<and> c = a div b"
  by (auto simp: div_or_panic_def)

lemma or_panic_not_Err [simp]:
  "add_or_panic a b \<noteq> Err e" "sub_or_panic a b \<noteq> Err e" "div_or_panic a b \<noteq> Err e"
  by (auto simp: add_or_panic_def sub_or_panic_def div_or_panic_def split: option.splits)

lemma sub_or_panic_eq_Panic [simp]: "sub_or_panic a b = Panic \<longleftrightarrow> a < b"
  by (auto simp: sub_or_panic_def checked_sub_def split: option.splits if_splits)

lemma div_or_panic_eq_Panic [simp]: "div_or_panic a b = Panic \<longleftrightarrow> b = 0"
  by (auto simp: div_or_panic_def)

lemma try_narrow_eq_Some [int_simps]:
  "try_narrow (a :: 'a::len word) = Some (b :: 'b::len word) \<longleftrightarrow> unat a = unat b"
proof -
  have "unat b < 2 ^ LENGTH('b)" by (rule unat_lt_width)
  moreover have "unat a < 2 ^ LENGTH('b) \<Longrightarrow> unat (ucast a :: 'b word) = unat a"
    by (simp add: unsigned_ucast_eq take_bit_nat_eq_self_iff)
  ultimately show ?thesis
    by (auto simp: try_narrow_def word_eq_iff_unat)
qed

lemma try_narrow_eq_None [int_simps]:
  "(try_narrow a :: 'b::len word option) = None \<longleftrightarrow> 2 ^ LENGTH('b) \<le> unat a"
  by (auto simp: try_narrow_def)

lemma word_of_nat_checked_eq_Some [int_simps]:
  "word_of_nat_checked n = Some w \<longleftrightarrow> unat w = n"
proof -
  have "unat w < 2 ^ LENGTH('a)" by (rule unat_lt_width)
  then show ?thesis
    by (auto simp: word_of_nat_checked_def word_eq_iff_unat unat_of_nat_fits)
qed

lemma word_of_nat_checked_unat [simp]: "word_of_nat_checked (unat w) = Some w"
  by (simp add: word_of_nat_checked_eq_Some)

lemma unat_ucast_up:
  assumes "LENGTH('a) \<le> LENGTH('b)"
  shows "unat (ucast (a :: 'a::len word) :: 'b::len word) = unat a"
proof -
  have "unat a < 2 ^ LENGTH('b)"
    using assms by (intro less_le_trans[OF unat_lt_width[of a]]) simp
  then show ?thesis by (simp add: unsigned_ucast_eq take_bit_nat_eq_self)
qed

lemma unat_ucast_widen [simp]:
  "unat (ucast (x :: 8 word) :: 128 word) = unat x"
  "unat (ucast (x32 :: 32 word) :: 64 word) = unat x32"
  "unat (ucast (x32 :: 32 word) :: 128 word) = unat x32"
  "unat (ucast (x32 :: 32 word) :: 256 word) = unat x32"
  "unat (ucast (x64 :: 64 word) :: 128 word) = unat x64"
  "unat (ucast (x64 :: 64 word) :: 256 word) = unat x64"
  "unat (ucast (x128 :: 128 word) :: 256 word) = unat x128"
  by (simp_all add: unat_ucast_up)

lemma unat_ucast_fits:
  assumes "unat a < 2 ^ LENGTH('b)"
  shows "unat (ucast a :: 'b::len word) = unat a"
  using assms by (simp add: unsigned_ucast_eq take_bit_nat_eq_self)

lemma unat_div_word [int_simps]: "unat (a div b :: 'a::len word) = unat a div unat b"
  by (rule unat_div_distrib)

lemma unat_mod_word [int_simps]: "unat (a mod b :: 'a::len word) = unat a mod unat b"
  by (rule unat_mod_distrib)

lemma unat_min_word [int_simps]: "unat (min a b :: 'a::len word) = min (unat a) (unat b)"
  by (simp add: min_def word_le_nat_alt)

lemma unat_max_word [int_simps]: "unat (max a b :: 'a::len word) = max (unat a) (unat b)"
  by (simp add: max_def word_le_nat_alt)

lemma unat_clamp_u32 [int_simps]:
  "unat (ucast (min (a :: 128 word) (ucast (uMAX :: 32 word))) :: 32 word) = min (unat a) (2 ^ 32 - 1)"
proof -
  have "unat (min a (ucast (uMAX :: 32 word))) = min (unat a) (2 ^ 32 - 1)"
    by (simp add: unat_min_word unat_uMAX)
  then show ?thesis by (subst unat_ucast_fits) simp_all
qed

lemma word_pos_iff_unat: "0 < (a :: 'a::len word) \<longleftrightarrow> 0 < unat a"
  by (simp add: word_less_nat_alt)

lemma word_zero_iff_unat: "a = 0 \<longleftrightarrow> unat (a :: 'a::len word) = 0"
  by (simp add: unat_eq_zero)

lemmas word_order_unat = word_le_nat_alt word_less_nat_alt word_zero_iff_unat

section \<open>Evaluation on numerals\<close>

lemma uMAX_numeral:
  "(uMAX :: 8 word) = 255"
  "(uMAX :: 32 word) = 4294967295"
  "(uMAX :: 64 word) = 18446744073709551615"
  "(uMAX :: 128 word) = 340282366920938463463374607431768211455"
  by (simp_all add: word_eq_iff_unat unat_uMAX)

lemmas word_eval = checked_add_def checked_sub_def checked_mul_def
  saturating_add_def saturating_sub_def saturating_mul_def
  add_or_panic_def sub_or_panic_def div_or_panic_def try_narrow_def
  word_le_nat_alt word_less_nat_alt min_def max_def uMAX_numeral

section \<open>Order facts used by the components\<close>

lemma saturating_add_ge1: "a \<le> saturating_add a b"
  by (simp add: word_le_nat_alt unat_saturating_add unat_le_max)

lemma saturating_add_0 [simp]: "saturating_add a 0 = a"
  by (simp add: word_eq_iff_unat unat_saturating_add unat_le_max)

lemma saturating_sub_le: "saturating_sub a b \<le> a"
  by (simp add: word_le_nat_alt unat_saturating_sub)

lemma checked_add_mono_fits:
  assumes "checked_add a b = Some c" "a' \<le> a"
  obtains c' where "checked_add a' b = Some c'" "c' \<le> c"
proof -
  have le: "unat a' + unat b \<le> unat c"
    using assms by (simp add: checked_add_eq_Some word_le_nat_alt)
  then have fits: "unat a' + unat b < 2 ^ LENGTH('a)"
    using unat_lt_width[of c] by linarith
  show thesis
  proof (rule that)
    show "checked_add a' b = Some (a' + b)" using fits by (simp add: checked_add_def)
    show "a' + b \<le> c" using fits le by (simp add: word_le_nat_alt unat_plus_fits)
  qed
qed

end
