(* ===== verification/Rust_Strings.thy ===== *)
theory Rust_Strings
  imports Machine_Int
begin

text \<open>
  The parts of Rust's \<open>str\<close> API the sources use, over strings taken as their
  UTF-8 bytes: ASCII case folding, \<open>trim\<close>, \<open>strip_prefix\<close>, \<open>split\<close>, and the
  decimal and radix text of unsigned integers.  The main facts are that
  trimming is idempotent, that case folding and trimming commute, and that
  printing then parsing an integer gives it back.
\<close>

section \<open>ASCII case\<close>

definition lower_char :: "char \<Rightarrow> char" where
  "lower_char c = (let n = of_char c :: nat in if 65 \<le> n \<and> n \<le> 90 then char_of (n + 32) else c)"

definition to_ascii_lowercase :: "string \<Rightarrow> string" where
  "to_ascii_lowercase s = map lower_char s"

definition eq_ignore_ascii_case :: "string \<Rightarrow> string \<Rightarrow> bool" where
  "eq_ignore_ascii_case a b = (to_ascii_lowercase a = to_ascii_lowercase b)"

section \<open>Prefixes and white space\<close>

definition strip_prefix :: "string \<Rightarrow> string \<Rightarrow> string option" where
  "strip_prefix p s = (if take (length p) s = p then Some (drop (length p) s) else None)"

text \<open>The UTF-8 encodings of the characters with the Unicode \<open>White_Space\<close> property.\<close>

definition white_space :: "string list" where
  "white_space =
    [[CHR 0x09], [CHR 0x0A], [CHR 0x0B], [CHR 0x0C], [CHR 0x0D], [CHR 0x20],
     [CHR 0xC2, CHR 0x85], [CHR 0xC2, CHR 0xA0], [CHR 0xE1, CHR 0x9A, CHR 0x80],
     [CHR 0xE2, CHR 0x80, CHR 0x80], [CHR 0xE2, CHR 0x80, CHR 0x81],
     [CHR 0xE2, CHR 0x80, CHR 0x82], [CHR 0xE2, CHR 0x80, CHR 0x83],
     [CHR 0xE2, CHR 0x80, CHR 0x84], [CHR 0xE2, CHR 0x80, CHR 0x85],
     [CHR 0xE2, CHR 0x80, CHR 0x86], [CHR 0xE2, CHR 0x80, CHR 0x87],
     [CHR 0xE2, CHR 0x80, CHR 0x88], [CHR 0xE2, CHR 0x80, CHR 0x89],
     [CHR 0xE2, CHR 0x80, CHR 0x8A], [CHR 0xE2, CHR 0x80, CHR 0xA8],
     [CHR 0xE2, CHR 0x80, CHR 0xA9], [CHR 0xE2, CHR 0x80, CHR 0xAF],
     [CHR 0xE2, CHR 0x81, CHR 0x9F], [CHR 0xE3, CHR 0x80, CHR 0x80]]"

definition strip_any :: "string list \<Rightarrow> string \<Rightarrow> string option" where
  "strip_any ws s =
    (case find (\<lambda>w. w \<noteq> [] \<and> take (length w) s = w) ws of
       None \<Rightarrow> None | Some w \<Rightarrow> Some (drop (length w) s))"

lemma strip_any_shorter: "strip_any ws s = Some r \<Longrightarrow> length r < length s"
  by (auto simp: strip_any_def find_Some_iff split: option.splits)
    (metis length_greater_0_conv less_imp_diff_less diff_less take_Nil list.size(3) linorder_neqE_nat not_less_zero)

function strip_all :: "string list \<Rightarrow> string \<Rightarrow> string" where
  "strip_all ws s = (case strip_any ws s of None \<Rightarrow> s | Some r \<Rightarrow> strip_all ws r)"
  by pat_completeness auto

termination strip_all
  by (relation "measure (length \<circ> snd)") (auto dest: strip_any_shorter)

declare strip_all.simps [simp del]

definition trim_start :: "string \<Rightarrow> string" where
  "trim_start s = strip_all white_space s"

definition trim_end :: "string \<Rightarrow> string" where
  "trim_end s = rev (strip_all (map rev white_space) (rev s))"

definition trim :: "string \<Rightarrow> string" where
  "trim s = trim_end (trim_start s)"

text \<open>\<open>str::split\<close> on one ASCII character.\<close>

fun split_on :: "char \<Rightarrow> string \<Rightarrow> string list" where
  "split_on d [] = [[]]"
| "split_on d (c # cs) =
    (if c = d then [] # split_on d cs
     else case split_on d cs of [] \<Rightarrow> [[c]] | w # ws \<Rightarrow> (c # w) # ws)"

section \<open>Integers as text\<close>

definition digit_char :: "nat \<Rightarrow> char" where
  "digit_char d = (if d < 10 then char_of (48 + d) else char_of (87 + d))"

text \<open>\<open>char::to_digit(radix)\<close>.\<close>

definition digit_val :: "nat \<Rightarrow> char \<Rightarrow> nat option" where
  "digit_val radix c =
    (let n = of_char c :: nat;
         v = (if 48 \<le> n \<and> n \<le> 57 then n - 48
              else if 97 \<le> n \<and> n \<le> 122 then n - 87
              else if 65 \<le> n \<and> n \<le> 90 then n - 55 else radix)
     in if v < radix then Some v else None)"

fun digits_val :: "nat \<Rightarrow> nat \<Rightarrow> string \<Rightarrow> nat option" where
  "digits_val radix acc [] = Some acc"
| "digits_val radix acc (c # cs) =
    (case digit_val radix c of None \<Rightarrow> None | Some d \<Rightarrow> digits_val radix (acc * radix + d) cs)"

text \<open>\<open>uN::from_str_radix\<close>: one leading plus sign is accepted, a lone sign or
  an empty string is not, and a value that does not fit is an error.\<close>

definition from_str_radix :: "nat \<Rightarrow> string \<Rightarrow> 'a::len word option" where
  "from_str_radix radix s =
    (if s = [] then None
     else let ds = (if hd s = CHR ''+'' then tl s else s) in
       if ds = [] then None
       else Option.bind (digits_val radix 0 ds) word_of_nat_checked)"

abbreviation parse_uint :: "string \<Rightarrow> 'a::len word option" where
  "parse_uint \<equiv> from_str_radix 10"

fun show_nat :: "nat \<Rightarrow> string" where
  "show_nat n = (if n < 10 then [digit_char n] else show_nat (n div 10) @ [digit_char (n mod 10)])"

declare show_nat.simps [simp del]

definition show_uint :: "'a::len word \<Rightarrow> string" where
  "show_uint w = show_nat (unat w)"

section \<open>Case folding\<close>

lemma of_char_lower_char:
  "(of_char (lower_char c) :: nat) =
    (if 65 \<le> (of_char c :: nat) \<and> of_char c \<le> (90 :: nat) then of_char c + 32 else of_char c)"
  by (auto simp: lower_char_def Let_def)

lemma lower_char_idem [simp]: "lower_char (lower_char c) = lower_char c"
  using of_char_lower_char[of c]
  by (auto simp: lower_char_def[of "lower_char c"] Let_def split: if_splits)

lemma to_ascii_lowercase_idem [simp]:
  "to_ascii_lowercase (to_ascii_lowercase s) = to_ascii_lowercase s"
  by (simp add: to_ascii_lowercase_def)

lemma to_ascii_lowercase_append [simp]:
  "to_ascii_lowercase (s @ t) = to_ascii_lowercase s @ to_ascii_lowercase t"
  by (simp add: to_ascii_lowercase_def)

lemma length_to_ascii_lowercase [simp]: "length (to_ascii_lowercase s) = length s"
  by (simp add: to_ascii_lowercase_def)

lemma to_ascii_lowercase_Nil [simp]: "to_ascii_lowercase [] = []"
  by (simp add: to_ascii_lowercase_def)

lemma eq_ignore_ascii_case_refl [simp]: "eq_ignore_ascii_case s s"
  by (simp add: eq_ignore_ascii_case_def)

lemma eq_ignore_ascii_case_sym: "eq_ignore_ascii_case s t = eq_ignore_ascii_case t s"
  by (auto simp: eq_ignore_ascii_case_def)

lemma eq_ignore_ascii_case_trans:
  "eq_ignore_ascii_case s t \<Longrightarrow> eq_ignore_ascii_case t u \<Longrightarrow> eq_ignore_ascii_case s u"
  by (simp add: eq_ignore_ascii_case_def)

section \<open>Trimming\<close>

lemma strip_any_strip_all [simp]: "strip_any ws (strip_all ws s) = None"
  by (induction ws s rule: strip_all.induct) (subst strip_all.simps, auto split: option.splits)

lemma strip_all_id: "strip_any ws s = None \<Longrightarrow> strip_all ws s = s"
  by (subst strip_all.simps) simp

lemma strip_all_idem [simp]: "strip_all ws (strip_all ws s) = strip_all ws s"
  by (simp add: strip_all_id)

lemma strip_any_None_iff:
  "strip_any ws s = None \<longleftrightarrow> (\<forall>w \<in> set ws. w \<noteq> [] \<longrightarrow> take (length w) s \<noteq> w)"
  by (auto simp: strip_any_def find_None_iff find_Some_iff split: option.splits)

lemma strip_all_suffix: "suffix (strip_all ws s) s"
proof (induction ws s rule: strip_all.induct)
  case (1 ws s)
  show ?case
  proof (cases "strip_any ws s")
    case (Some r)
    then have "suffix r s" by (auto simp: strip_any_def suffix_drop split: option.splits)
    with 1[OF Some] Some show ?thesis
      by (subst strip_all.simps) (auto intro: suffix_order.trans)
  qed (simp add: strip_all_id)
qed

text \<open>A string whose first and last bytes do not occur in an encoding of white
  space is left alone by \<open>trim\<close>.\<close>

definition ws_byte :: "char \<Rightarrow> bool" where
  "ws_byte c = (c \<in> set (concat white_space))"

lemma strip_any_hd:
  assumes "s \<noteq> []" "\<And>w. w \<in> set ws \<Longrightarrow> hd s \<notin> set w"
  shows "strip_any ws s = None"
  using assms by (auto simp: strip_any_None_iff)
    (metis hd_in_set hd_take length_greater_0_conv)

lemma trim_id:
  assumes "s = [] \<or> \<not> ws_byte (hd s) \<and> \<not> ws_byte (last s)"
  shows "trim s = s"
proof (cases "s = []")
  case True
  then show ?thesis by (simp add: trim_def trim_start_def trim_end_def strip_all_id strip_any_None_iff)
next
  case False
  with assms have "strip_any white_space s = None"
    by (intro strip_any_hd) (auto simp: ws_byte_def)
  moreover from False assms have "strip_any (map rev white_space) (rev s) = None"
    by (intro strip_any_hd) (auto simp: ws_byte_def hd_rev)
  ultimately show ?thesis
    by (simp add: trim_def trim_start_def trim_end_def strip_all_id)
qed

lemma trim_Nil [simp]: "trim [] = []"
  by (simp add: trim_id)

section \<open>Round trips of integer text\<close>

lemma digit_val_digit_char: "d < 10 \<Longrightarrow> digit_val 10 (digit_char d) = Some d"
  by (simp add: digit_val_def digit_char_def Let_def)

lemma digits_val_append:
  "digits_val r acc (xs @ ys) = Option.bind (digits_val r acc xs) (\<lambda>a. digits_val r a ys)"
  by (induction r acc xs rule: digits_val.induct) (auto split: option.splits)

lemma digits_val_show_nat: "digits_val 10 0 (show_nat n) = Some n"
proof (induction n rule: show_nat.induct)
  case (1 n)
  show ?case
  proof (cases "n < 10")
    case True
    then show ?thesis by (simp add: show_nat.simps[of n] digit_val_digit_char)
  next
    case False
    with 1 have "digits_val 10 0 (show_nat (n div 10)) = Some (n div 10)" by simp
    with False show ?thesis
      by (simp add: show_nat.simps[of n] digits_val_append digit_val_digit_char)
  qed
qed

lemma show_nat_not_Nil [simp]: "show_nat n \<noteq> []"
  by (subst show_nat.simps) simp

lemma show_nat_chars: "c \<in> set (show_nat n) \<Longrightarrow> \<exists>d < 10. c = digit_char d"
proof (induction n rule: show_nat.induct)
  case (1 n)
  then show ?case
    by (cases "n < 10") (auto simp: show_nat.simps[of n] intro: exI[of _ "n mod 10"])
qed

lemma digit_char_eq_iff:
  "d < 10 \<Longrightarrow> n < 256 \<Longrightarrow> digit_char d = char_of n \<longleftrightarrow> 48 + d = (n :: nat)"
  by (auto simp: digit_char_def char_of_eq_iff take_bit_nat_eq_self) 

lemma show_nat_digit_only: "c \<in> set (show_nat n) \<Longrightarrow> 48 \<le> (of_char c :: nat) \<and> of_char c \<le> (57 :: nat)"
  using show_nat_chars[of c n] by (auto simp: digit_char_def)

lemma parse_show_uint: "parse_uint (show_uint w) = Some w"
proof -
  have "hd (show_nat (unat w)) \<noteq> CHR ''+''"
    using show_nat_digit_only[of "hd (show_nat (unat w))" "unat w"] by auto
  then show ?thesis
    by (simp add: from_str_radix_def show_uint_def digits_val_show_nat Let_def)
qed

lemma show_uint_inj [simp]: "show_uint v = show_uint w \<longleftrightarrow> v = w"
  by (metis parse_show_uint option.inject)

lemma from_str_radix_Nil [simp]: "from_str_radix r [] = None"
  by (simp add: from_str_radix_def)

end
