(* ===== verification/Types.thy ===== *)
theory Types
  imports Rust_Strings
begin

text \<open>
  The shared data of the workspace (\<open>src/crates/types\<close>): the observed chain
  events produced by ingest, the decision records, and the execution records.
  Every struct is a record with the source's fields in the source's order, each
  field prefixed by a short tag of its struct; every enum is a datatype.  An
  \<open>i32\<close> is a 32-bit word read with \<open>sint\<close>; \<open>usize\<close> is 64 bits wide.
\<close>

type_synonym ChainId = u64
type_synonym BlockNumber = u64
type_synonym UnixTimestampMillis = u64
type_synonym Amount = u128
type_synonym TxHash = string
type_synonym BlockHash = string
type_synonym Address = string
type_synonym Topic = string
type_synonym Selector = string
type_synonym usize = u64

section \<open>Ingest\<close>

datatype BlockContext = Pending | Block_At BlockNumber "BlockHash option"

datatype Channel = Ipc | Ws | FlashblocksWs

datatype DecodeStatus = Decoded | Partial | Unsupported | Failed

datatype Protocol =
  Protocol_Unknown | UniswapV2 | UniswapV3 | UniswapV4 | Protocol_Aerodrome | Protocol_Virtuals

datatype Exchange =
  Exchange_Unknown | PancakeSwap | BaseSwap | AlienBase | Exchange_Aerodrome | Exchange_Virtuals

datatype StreamStatus =
  Idle | Connecting | Subscribing | Running | Backoff | Reconnecting | Stopped

datatype RawMessageType =
  Raw_Transaction | Raw_Log | Raw_Block | Raw_Flashblock | Raw_Heartbeat | Raw_Status | Raw_Unknown

record RawPayloadSummary =
  raw_message_type :: RawMessageType
  raw_payload_size_bytes :: usize
  raw_fingerprint :: "string option"
  raw_subscription :: "string option"

record Metadata =
  md_block_context :: BlockContext
  md_channel :: Channel
  md_observed_at_ms :: UnixTimestampMillis
  md_chain_id :: ChainId
  md_tx_hash :: "TxHash option"
  md_decode_status :: DecodeStatus
  md_raw :: RawPayloadSummary

record DecodedSwap =
  ds_pool :: "Address option"
  ds_router :: "Address option"
  ds_token_in :: "Address option"
  ds_token_out :: "Address option"
  ds_amount_in :: "Amount option"
  ds_amount_out :: "Amount option"
  ds_amount_in_maximum :: "Amount option"
  ds_amount_out_minimum :: "Amount option"
  ds_exact_input :: "bool option"
  ds_recipient :: "Address option"
  ds_protocol :: "Protocol option"
  ds_exchange :: "Exchange option"

datatype DecodedLogKind = V2Swap | V2Sync | V2Mint | V2Burn | V3Swap | V3Mint | V3Burn

record DecodedLogEvent =
  de_kind :: DecodedLogKind
  de_pool :: "Address option"
  de_sender :: "Address option"
  de_recipient :: "Address option"
  de_owner :: "Address option"
  de_reserve0 :: "Amount option"
  de_reserve1 :: "Amount option"
  de_amount0_in :: "Amount option"
  de_amount1_in :: "Amount option"
  de_amount0_out :: "Amount option"
  de_amount1_out :: "Amount option"
  de_amount0 :: "string option"
  de_amount1 :: "string option"
  de_liquidity :: "Amount option"
  de_sqrt_price_x96 :: "string option"
  de_tick :: "i32 option"
  de_tick_lower :: "i32 option"
  de_tick_upper :: "i32 option"
  de_protocol :: "Protocol option"
  de_exchange :: "Exchange option"

record Transaction =
  tx_metadata :: Metadata
  tx_from :: "Address option"
  tx_to :: "Address option"
  tx_value :: "string option"
  tx_input :: "string option"
  tx_selector :: "Selector option"
  tx_decoded_swap :: "DecodedSwap option"
  tx_protocol :: "Protocol option"
  tx_exchange :: "Exchange option"

record Log =
  log_metadata :: Metadata
  log_address :: "Address option"
  log_topics :: "Topic list"
  log_data :: "string option"
  log_event_signature :: "string option"
  log_decoded_event :: "DecodedLogEvent option"
  log_protocol :: "Protocol option"
  log_exchange :: "Exchange option"
  log_log_index :: "u64 option"
  log_removed :: "bool option"

record Block =
  blk_metadata :: Metadata
  blk_block_hash :: "BlockHash option"
  blk_parent_hash :: "BlockHash option"
  blk_timestamp_secs :: "u64 option"

record Flashblock =
  fb_metadata :: Metadata
  fb_payload_id :: "string option"
  fb_index :: u64
  fb_parent_block_number :: "BlockNumber option"
  fb_parent_hash :: "BlockHash option"
  fb_block_hash :: "BlockHash option"
  fb_state_root :: "string option"
  fb_gas_used :: "u64 option"
  fb_tx_hashes :: "TxHash list"
  fb_log_count :: usize

record Heartbeat =
  hb_block_context :: BlockContext
  hb_channel :: Channel
  hb_observed_at_ms :: UnixTimestampMillis
  hb_chain_id :: ChainId
  hb_message :: "string option"

record StreamStatusEvent =
  ss_block_context :: BlockContext
  ss_channel :: Channel
  ss_observed_at_ms :: UnixTimestampMillis
  ss_chain_id :: ChainId
  ss_previous :: "StreamStatus option"
  ss_current :: StreamStatus
  ss_reason :: "string option"

datatype Event =
  Event_Transaction Transaction | Event_Log Log | Event_Block Block | Event_Flashblock Flashblock

datatype RuntimeEvent =
  Runtime_Heartbeat Heartbeat | Runtime_StreamStatus StreamStatusEvent

section \<open>Decision\<close>

datatype OpportunityKind = TwoLegLoop | Triangle | Backrun | JitLiquidity

record RouteLeg =
  leg_venue :: "Exchange option"
  leg_protocol :: "Protocol option"
  leg_target :: Address
  leg_pool_address :: "Address option"
  leg_token_in :: Address
  leg_token_out :: Address
  leg_amount_in :: "Amount option"
  leg_min_amount_out :: "Amount option"

record Opportunity =
  op_id :: string
  op_kind :: OpportunityKind
  op_block_context :: BlockContext
  op_settlement_token :: Address
  op_input_amount :: Amount
  op_expected_output_amount :: Amount
  op_expected_net_profit :: Amount
  op_route :: "RouteLeg list"
  op_trigger_tx_hash :: "string option"

record SimulationResult =
  sim_opportunity_id :: string
  sim_accepted :: bool
  sim_expected_gross_profit :: Amount
  sim_expected_net_profit :: Amount
  sim_gas_estimate :: u64
  sim_gas_cost_wei :: Amount
  sim_l1_data_fee :: Amount
  sim_notes :: "string list"

record RiskDecision =
  rd_opportunity_id :: string
  rd_accepted :: bool
  rd_reason :: "string option"
  rd_risk_hash :: string
  rd_min_surplus :: Amount

section \<open>Execution\<close>

datatype ExecutionStatus =
  Built | Submitted | Included | Reverted | Dropped | Replaced | ProfitRealized

record ExecutionStep =
  st_venue :: "Exchange option"
  st_protocol :: "Protocol option"
  st_target :: Address
  st_token_in :: Address
  st_token_out :: Address
  st_pool_fee :: "u32 option"
  st_amount_in :: "Amount option"
  st_min_amount_out :: Amount
  st_calldata_hint :: "string option"
  st_aux_address :: "Address option"

record ExecutionRequest =
  rq_opportunity_id :: string
  rq_steps :: "ExecutionStep list"
  rq_min_repay :: Amount
  rq_min_surplus :: Amount
  rq_flashloan_asset :: "Address option"
  rq_flashloan_amount :: "Amount option"
  rq_risk_hash :: string

record ExecutionAttempt =
  at_request_id :: string
  at_tx_hash :: "string option"
  at_status :: ExecutionStatus
  at_execution_mode :: string
  at_submission_allowed :: bool
  at_blocked_reason :: "string option"
  at_requested_notional :: Amount
  at_gas_limit :: "u64 option"
  at_max_fee_per_gas :: "Amount option"
  at_max_priority_fee_per_gas :: "Amount option"

record ExecutionReceipt =
  rc_request_id :: string
  rc_tx_hash :: string
  rc_block_number :: "BlockNumber option"
  rc_success :: bool
  rc_gas_used :: "u64 option"
  rc_effective_gas_price :: "Amount option"
  rc_l1_fee_paid :: "Amount option"
  rc_revert_reason :: "string option"

record ExecutionOutcome =
  oc_request_id :: string
  oc_final_status :: ExecutionStatus
  oc_tx_hash :: string
  oc_block_number :: "BlockNumber option"
  oc_total_fee_paid :: "Amount option"
  oc_realized_surplus :: "Amount option"
  oc_reason :: "string option"

end
