(* ===== verification/Market_Types.thy ===== *)
theory Market_Types
  imports Types
begin

text \<open>
  Data and helpers shared by the two pool families (\<open>src/crates/markets/src/lib.rs\<close>):
  quotes, event outcomes, the error type, and the interface \<open>quoting_pool\<close> that
  both families implement.
\<close>

definition BPS_DENOMINATOR :: u128 where
  "BPS_DENOMINATOR = 10000"

datatype PoolKind = ConstantProduct | ConcentratedLiquidity

record PoolQuote =
  pq_pool_address :: Address
  pq_token_in :: Address
  pq_token_out :: Address
  pq_amount_in :: Amount
  pq_amount_out :: Amount
  pq_fee_bps :: u32
  pq_price_impact_bps :: u32

datatype MarketEventOutcome = Applied | Ignored | Outcome_Reverted

datatype MarketError =
    InvalidPool string
  | UnknownToken Address Address
  | InsufficientInput
  | InsufficientLiquidity
  | ArithmeticOverflow
  | MissingDecodedField string
  | MissingLogIdentity
  | MissingRevertSnapshot TxHash u64

fun block_number :: "BlockContext \<Rightarrow> BlockNumber option" where
  "block_number Pending = None"
| "block_number (Block_At number _) = Some number"

section \<open>The contract of a pool\<close>

text \<open>What the book and the decision layer rely on, whatever the family: a
  validated pool quotes without panicking, a quote echoes its request and pays
  out a positive amount of the other token, applying a log keeps a pool valid,
  and an ignored log changes nothing.\<close>

locale quoting_pool =
  fixes valid :: "'p \<Rightarrow> bool"
    and quote :: "'p \<Rightarrow> string \<Rightarrow> Amount \<Rightarrow> (MarketError, PoolQuote) res"
    and apply_event :: "Log \<Rightarrow> 'p \<Rightarrow> (MarketError, MarketEventOutcome \<times> 'p) res"
    and other :: "'p \<Rightarrow> string \<Rightarrow> string option"
  assumes quote_no_panic: "valid p \<Longrightarrow> quote p t a \<noteq> Panic"
    and quote_echo: "quote p t a = Ok q \<Longrightarrow>
          pq_token_in q = t \<and> pq_amount_in q = a \<and> 0 < a \<and> 0 < pq_amount_out q"
    and quote_other: "quote p t a = Ok q \<Longrightarrow> other p t = Some (pq_token_out q)"
    and apply_valid: "valid p \<Longrightarrow> apply_event l p = Ok (oc, p') \<Longrightarrow> valid p'"
    and apply_ignored: "apply_event l p = Ok (Ignored, p') \<Longrightarrow> p' = p"
    and apply_no_panic: "apply_event l p \<noteq> Panic"
begin

text \<open>A pool followed through a sequence of logs.\<close>

definition run :: "Log list \<Rightarrow> 'p \<Rightarrow> (MarketError, 'p) res" where
  "run ls p = fold_res (\<lambda>l s. attempt (apply_event l s) (\<lambda>r. Ok (snd r))) ls p"

lemma run_valid:
  assumes "valid p" "run ls p = Ok p'"
  shows "valid p'"
  using assms(2,1) unfolding run_def
  by (rule fold_res_invariant) (auto simp: attempt_eq_Ok intro: apply_valid)

lemma run_no_panic: "run ls p \<noteq> Panic"
  unfolding run_def
  by (induction ls arbitrary: p) (auto simp: attempt_eq_Panic apply_no_panic)

lemma run_quote_no_panic: "valid p \<Longrightarrow> run ls p = Ok p' \<Longrightarrow> quote p' t a \<noteq> Panic"
  by (simp add: run_valid quote_no_panic)

lemma quote_zero: "quote p t 0 \<noteq> Ok q"
  using quote_echo[of p t 0 q] by auto

end

end
