(* ===== verification/Market_V2.thy ===== *)
theory Market_V2
  imports Market_Types
begin

text \<open>
  Constant-product pools (\<open>V2PoolState\<close> of \<open>src/crates/markets/src/lib.rs\<close>).
  The quote is compared with the exact rational formula over the natural
  numbers; a swap never drains the pool, never lowers the product of the
  reserves, and swapping back never returns more than was put in.
\<close>

record V2PoolState =
  v2_address :: Address
  v2_protocol :: Protocol
  v2_exchange :: "Exchange option"
  v2_token0 :: Address
  v2_token1 :: Address
  v2_reserve0 :: Amount
  v2_reserve1 :: Amount
  v2_fee_bps :: u32
  v2_last_updated_block :: "BlockNumber option"

record V2SyncSnapshot =
  sn_reserve0 :: Amount
  sn_reserve1 :: Amount
  sn_last_updated_block :: "BlockNumber option"

definition v2_validate :: "V2PoolState \<Rightarrow> (MarketError, unit) res" where
  "v2_validate p =
    (if v2_token0 p = v2_token1 p
     then Err (InvalidPool ''pool tokens must be distinct addresses'')
     else if v2_reserve0 p = 0 \<or> v2_reserve1 p = 0
     then Err (InvalidPool ''pool reserves must be greater than zero'')
     else if BPS_DENOMINATOR \<le> ucast (v2_fee_bps p)
     then Err (InvalidPool ''fee_bps must be lower than 10_000'')
     else Ok ())"

definition v2_new ::
  "Address \<Rightarrow> Protocol \<Rightarrow> Exchange option \<Rightarrow> Address \<Rightarrow> Address \<Rightarrow> Amount \<Rightarrow> Amount \<Rightarrow> u32
    \<Rightarrow> (MarketError, V2PoolState) res" where
  "v2_new address protocol exchange token0 token1 reserve0 reserve1 fee_bps =
    (let state = \<lparr>v2_address = address, v2_protocol = protocol, v2_exchange = exchange,
                  v2_token0 = token0, v2_token1 = token1, v2_reserve0 = reserve0,
                  v2_reserve1 = reserve1, v2_fee_bps = fee_bps, v2_last_updated_block = None\<rparr>
     in attempt (v2_validate state) (\<lambda>_. Ok state))"

definition v2_apply_sync ::
  "Amount \<Rightarrow> Amount \<Rightarrow> BlockNumber option \<Rightarrow> V2PoolState \<Rightarrow> (MarketError, V2PoolState) res" where
  "v2_apply_sync reserve0 reserve1 bn p =
    (if reserve0 = 0 \<or> reserve1 = 0
     then Err (InvalidPool ''sync reserves must be greater than zero'')
     else Ok (p\<lparr>v2_reserve0 := reserve0, v2_reserve1 := reserve1, v2_last_updated_block := bn\<rparr>))"

definition estimate_price_impact_bps ::
  "Amount \<Rightarrow> Amount \<Rightarrow> Amount \<Rightarrow> Amount \<Rightarrow> (MarketError, u32) res" where
  "estimate_price_impact_bps reserve_in reserve_out amount_in amount_out =
    attempt (ok_or ArithmeticOverflow (checked_mul reserve_out BPS_DENOMINATOR)) (\<lambda>quoted_price_numerator.
    attempt (div_or_panic quoted_price_numerator reserve_in) (\<lambda>quoted_price.
    attempt (ok_or ArithmeticOverflow (checked_mul amount_out BPS_DENOMINATOR)) (\<lambda>realized_price_numerator.
    attempt (div_or_panic realized_price_numerator (max amount_in 1)) (\<lambda>realized_price.
    if quoted_price = 0 \<or> quoted_price \<le> realized_price then Ok 0
    else
      attempt (sub_or_panic quoted_price realized_price) (\<lambda>delta.
      attempt (ok_or ArithmeticOverflow (checked_mul delta BPS_DENOMINATOR)) (\<lambda>scaled.
      attempt (div_or_panic scaled quoted_price) (\<lambda>impact.
      Ok (ucast (min impact (ucast (uMAX :: u32)))))))))))"

definition v2_quote_exact_in :: "V2PoolState \<Rightarrow> string \<Rightarrow> Amount \<Rightarrow> (MarketError, PoolQuote) res" where
  "v2_quote_exact_in p token_in amount_in =
    (if amount_in = 0 then Err InsufficientInput
     else
       attempt
         (if eq_ignore_ascii_case token_in (v2_token0 p)
          then Ok (v2_reserve0 p, v2_reserve1 p, v2_token1 p)
          else if eq_ignore_ascii_case token_in (v2_token1 p)
          then Ok (v2_reserve1 p, v2_reserve0 p, v2_token0 p)
          else Err (UnknownToken (v2_address p) token_in)) (\<lambda>(reserve_in, reserve_out, token_out).
       attempt (ok_or ArithmeticOverflow (checked_sub BPS_DENOMINATOR (ucast (v2_fee_bps p)))) (\<lambda>fee_multiplier.
       attempt (ok_or ArithmeticOverflow (checked_mul amount_in fee_multiplier)) (\<lambda>amount_in_with_fee.
       attempt (ok_or ArithmeticOverflow (checked_mul amount_in_with_fee reserve_out)) (\<lambda>numerator.
       attempt (ok_or ArithmeticOverflow
         (Option.bind (checked_mul reserve_in BPS_DENOMINATOR) (\<lambda>value. checked_add value amount_in_with_fee)))
         (\<lambda>denominator.
       attempt (div_or_panic numerator denominator) (\<lambda>amount_out.
       if amount_out = 0 then Err InsufficientLiquidity
       else
         attempt (estimate_price_impact_bps reserve_in reserve_out amount_in amount_out) (\<lambda>price_impact_bps.
         Ok \<lparr>pq_pool_address = v2_address p, pq_token_in = token_in, pq_token_out = token_out,
             pq_amount_in = amount_in, pq_amount_out = amount_out, pq_fee_bps = v2_fee_bps p,
             pq_price_impact_bps = price_impact_bps\<rparr>))))))))"

definition v2_contains_token :: "V2PoolState \<Rightarrow> string \<Rightarrow> bool" where
  "v2_contains_token p token =
    (eq_ignore_ascii_case (v2_token0 p) token \<or> eq_ignore_ascii_case (v2_token1 p) token)"

definition v2_other_token :: "V2PoolState \<Rightarrow> string \<Rightarrow> string option" where
  "v2_other_token p token =
    (if eq_ignore_ascii_case (v2_token0 p) token then Some (v2_token1 p)
     else if eq_ignore_ascii_case (v2_token1 p) token then Some (v2_token0 p)
     else None)"

definition v2_apply_log :: "Log \<Rightarrow> V2PoolState \<Rightarrow> (MarketError, MarketEventOutcome \<times> V2PoolState) res" where
  "v2_apply_log l p =
    (case log_address l of
       None \<Rightarrow> Ok (Ignored, p)
     | Some address \<Rightarrow>
         if \<not> eq_ignore_ascii_case address (v2_address p) then Ok (Ignored, p)
         else
           case log_decoded_event l of
             None \<Rightarrow> Ok (Ignored, p)
           | Some decoded \<Rightarrow>
               if de_kind decoded = V2Sync then
                 attempt (ok_or (MissingDecodedField ''reserve0'') (de_reserve0 decoded)) (\<lambda>reserve0.
                 attempt (ok_or (MissingDecodedField ''reserve1'') (de_reserve1 decoded)) (\<lambda>reserve1.
                 attempt (v2_apply_sync reserve0 reserve1
                   (block_number (md_block_context (log_metadata l))) p) (\<lambda>p'.
                 Ok (Applied, p'))))
               else Ok (Ignored, p))"

definition v2_snapshot :: "V2PoolState \<Rightarrow> V2SyncSnapshot" where
  "v2_snapshot p =
    \<lparr>sn_reserve0 = v2_reserve0 p, sn_reserve1 = v2_reserve1 p,
     sn_last_updated_block = v2_last_updated_block p\<rparr>"

definition v2_restore :: "V2SyncSnapshot \<Rightarrow> V2PoolState \<Rightarrow> V2PoolState" where
  "v2_restore s p =
    p\<lparr>v2_reserve0 := sn_reserve0 s, v2_reserve1 := sn_reserve1 s,
      v2_last_updated_block := sn_last_updated_block s\<rparr>"

section \<open>The exact formula\<close>

text \<open>The output of a constant-product swap over the natural numbers: reserves
  \<open>rin\<close> and \<open>rout\<close>, fee in basis points, input \<open>a\<close>.\<close>

definition v2_out :: "nat \<Rightarrow> nat \<Rightarrow> nat \<Rightarrow> nat \<Rightarrow> nat" where
  "v2_out rin rout fee a = (a * (10000 - fee) * rout) div (rin * 10000 + a * (10000 - fee))"

definition v2_impact :: "nat \<Rightarrow> nat \<Rightarrow> nat \<Rightarrow> nat \<Rightarrow> nat" where
  "v2_impact rin rout a out =
    (let quoted = rout * 10000 div rin; realized = out * 10000 div a
     in (quoted - realized) * 10000 div quoted)"

text \<open>The reserves as the swap of a given token sees them, and the token paid out.\<close>

definition v2_side :: "V2PoolState \<Rightarrow> string \<Rightarrow> (Amount \<times> Amount \<times> Address) option" where
  "v2_side p token =
    (if eq_ignore_ascii_case token (v2_token0 p) then Some (v2_reserve0 p, v2_reserve1 p, v2_token1 p)
     else if eq_ignore_ascii_case token (v2_token1 p) then Some (v2_reserve1 p, v2_reserve0 p, v2_token0 p)
     else None)"

definition fits128 :: "nat \<Rightarrow> bool" where
  "fits128 n = (n < 2 ^ 128)"

text \<open>The quote as unbounded arithmetic with the 128-bit limits written out:
  the amount paid out and the price impact, or the error of the branch taken.\<close>

definition v2_quote_spec :: "V2PoolState \<Rightarrow> string \<Rightarrow> Amount \<Rightarrow> (MarketError, nat \<times> nat) res" where
  "v2_quote_spec p token_in a =
    (if a = 0 then Err InsufficientInput
     else case v2_side p token_in of
       None \<Rightarrow> Err (UnknownToken (v2_address p) token_in)
     | Some (reserve_in, reserve_out, _) \<Rightarrow>
         let rin = unat reserve_in; rout = unat reserve_out; x = unat a * (10000 - unat (v2_fee_bps p));
             out = v2_out rin rout (unat (v2_fee_bps p)) (unat a);
             drop = rout * 10000 div rin - out * 10000 div unat a
         in if \<not> fits128 (x * rout) \<or> \<not> fits128 (rin * 10000 + x) then Err ArithmeticOverflow
            else if out = 0 then Err InsufficientLiquidity
            else if \<not> fits128 (rout * 10000) \<or> \<not> fits128 (drop * 10000) then Err ArithmeticOverflow
            else Ok (out, v2_impact rin rout (unat a) out))"

fun quote_numbers :: "(MarketError, PoolQuote) res \<Rightarrow> (MarketError, nat \<times> nat) res" where
  "quote_numbers (Ok q) = Ok (unat (pq_amount_out q), unat (pq_price_impact_bps q))"
| "quote_numbers (Err e) = Err e"
| "quote_numbers Panic = Panic"

section \<open>Arithmetic of a swap\<close>

lemma v2_out_mult_le:
  "v2_out rin rout fee a * (rin * 10000 + a * (10000 - fee)) \<le> a * (10000 - fee) * rout"
  unfolding v2_out_def by (rule div_times_less_eq_dividend)

lemma v2_out_less:
  assumes "0 < rin" "0 < rout"
  shows "v2_out rin rout fee a < rout"
proof -
  have "a * (10000 - fee) * rout < rout * (rin * 10000 + a * (10000 - fee))"
    using assms by (simp add: algebra_simps)
  then show ?thesis
    unfolding v2_out_def using assms by (intro less_mult_imp_div_less) simp
qed

text \<open>The fee only lowers the output, so the fee-free bound holds.\<close>

lemma v2_out_fee_free:
  assumes "0 < rin"
  shows "v2_out rin rout fee a * (rin + a) \<le> a * rout"
proof -
  define m where "m = 10000 - fee"
  define y where "y = v2_out rin rout fee a"
  have m: "m \<le> 10000" by (simp add: m_def)
  have "y * (rin * 10000 + a * m) \<le> a * m * rout"
    using v2_out_mult_le[of rin rout fee a] by (simp add: y_def m_def)
  moreover have "y * (rin * m + a * m) \<le> y * (rin * 10000 + a * m)"
    using m by (intro mult_le_mono2 add_le_mono1) simp
  ultimately have "y * (rin * m + a * m) \<le> a * m * rout" by (rule le_trans[rotated])
  then have *: "(y * (rin + a)) * m \<le> (a * rout) * m"
    by (simp add: algebra_simps)
  show ?thesis
  proof (cases "m = 0")
    case True
    then have "y = 0" by (simp add: y_def v2_out_def m_def)
    then show ?thesis by (simp add: y_def)
  next
    case False
    with * show ?thesis by (simp add: y_def)
  qed
qed

lemma v2_out_mono:
  assumes "0 < rin" "a \<le> b"
  shows "v2_out rin rout fee a \<le> v2_out rin rout fee b"
proof -
  define m where "m = 10000 - fee"
  define y where "y = v2_out rin rout fee a"
  have pos: "0 < rin * 10000 + b * m" using assms by simp
  have y: "y * (rin * 10000 + a * m) \<le> a * m * rout"
    using v2_out_mult_le[of rin rout fee a] by (simp add: y_def m_def)
  have "y \<le> rout"
  proof (cases "rout = 0")
    case False
    then show ?thesis using v2_out_less[OF assms(1), of rout fee a] by (simp add: y_def)
  qed (simp add: y_def v2_out_def)
  then have "y * ((b - a) * m) \<le> (b - a) * m * rout" by (simp add: mult.commute)
  with y have "y * (rin * 10000 + a * m) + y * ((b - a) * m) \<le> a * m * rout + (b - a) * m * rout"
    by (rule add_mono)
  moreover have "a * m + (b - a) * m = b * m"
    using assms(2) by (simp flip: add_mult_distrib)
  ultimately have "y * (rin * 10000 + b * m) \<le> b * m * rout"
    by (metis add.assoc add_mult_distrib add_mult_distrib2)
  then show ?thesis
    unfolding y_def[symmetric] v2_out_def[of _ _ _ b] m_def[symmetric]
    using pos by (simp add: less_eq_div_iff_mult_less_eq)
qed

lemma v2_impact_le: "v2_impact rin rout a out \<le> 10000"
  unfolding v2_impact_def Let_def
  by (cases "rout * 10000 div rin = 0")
    (auto intro!: div_le_dividend order.trans[OF div_le_mono[OF mult_le_mono1[OF diff_le_self]]])

section \<open>The quote\<close>

lemma unat_BPS [simp]: "unat BPS_DENOMINATOR = 10000"
  by (simp add: BPS_DENOMINATOR_def)

lemma v2_validate_Ok_iff:
  "v2_validate p = Ok () \<longleftrightarrow>
    v2_token0 p \<noteq> v2_token1 p \<and> 0 < v2_reserve0 p \<and> 0 < v2_reserve1 p \<and> unat (v2_fee_bps p) < 10000"
  by (auto simp: v2_validate_def word_le_nat_alt word_gt_0)

lemma v2_side_reserves_pos:
  "v2_validate p = Ok () \<Longrightarrow> v2_side p t = Some (rin, rout, tout) \<Longrightarrow> 0 < rin \<and> 0 < rout"
  by (auto simp: v2_validate_Ok_iff v2_side_def split: if_splits)

lemma relative_drop_le: "(q - r) * 10000 div q \<le> (10000 :: nat)"
  by (cases "q = 0") (auto intro: order.trans[OF div_le_mono[OF mult_le_mono1[OF diff_le_self]]])

lemma impact_tail:
  fixes q r :: u128
  shows "(if q = 0 \<or> q \<le> r then Ok 0
      else attempt (sub_or_panic q r) (\<lambda>delta.
        attempt (ok_or ArithmeticOverflow (checked_mul delta BPS_DENOMINATOR)) (\<lambda>scaled.
        attempt (div_or_panic scaled q) (\<lambda>impact. Ok (ucast (min impact (ucast (uMAX :: u32))))))))
    = (if fits128 ((unat q - unat r) * 10000)
       then Ok (word_of_nat ((unat q - unat r) * 10000 div unat q) :: u32)
       else Err ArithmeticOverflow)"
proof (cases "q = 0 \<or> q \<le> r")
  case True
  then have "unat q - unat r = 0" by (auto simp: word_le_nat_alt)
  with True show ?thesis by (simp add: fits128_def)
next
  case False
  then have d: "checked_sub q r = Some (q - r)" "unat (q - r) = unat q - unat r"
    by (auto simp: checked_sub_def unat_minus_le)
  show ?thesis
  proof (cases "checked_mul (q - r) BPS_DENOMINATOR")
    case None
    then have "\<not> fits128 ((unat q - unat r) * 10000)"
      by (simp add: checked_mul_eq_None fits128_def d)
    with None False d(1) show ?thesis by (simp add: sub_or_panic_def)
  next
    case (Some sc)
    then have sc: "unat sc = (unat q - unat r) * 10000" by (simp add: checked_mul_eq_Some d)
    have "ucast (min (sc div q) (ucast (uMAX :: u32))) =
        (word_of_nat ((unat q - unat r) * 10000 div unat q) :: u32)"
      using relative_drop_le[of "unat q" "unat r"]
      by (simp add: word_eq_iff_unat unat_clamp_u32 unat_div_word sc unat_of_nat_fits)
    moreover have "fits128 ((unat q - unat r) * 10000)"
      using unat_lt_width[of sc] by (simp add: fits128_def sc del: unsigned_less)
    ultimately show ?thesis using False Some d
      by (simp add: div_or_panic_def sub_or_panic_def)
  qed
qed

lemma estimate_price_impact_bps_exact:
  assumes "0 < rin" "0 < a" "out \<le> rout"
  shows "estimate_price_impact_bps rin rout a out =
    (if \<not> fits128 (unat rout * 10000)
        \<or> \<not> fits128 ((unat rout * 10000 div unat rin - unat out * 10000 div unat a) * 10000)
     then Err ArithmeticOverflow
     else Ok (word_of_nat (v2_impact (unat rin) (unat rout) (unat a) (unat out))))"
proof (cases "fits128 (unat rout * 10000)")
  case False
  then have "checked_mul rout BPS_DENOMINATOR = None"
    by (simp add: checked_mul_eq_None fits128_def)
  with False show ?thesis by (simp add: estimate_price_impact_bps_def)
next
  case True
  obtain qn where qn: "checked_mul rout BPS_DENOMINATOR = Some qn" "unat qn = unat rout * 10000"
    using True by (auto simp: checked_mul_def fits128_def unat_times_fits)
  have "unat out * 10000 \<le> unat rout * 10000" using assms by (simp add: word_le_nat_alt)
  then obtain rn where rn: "checked_mul out BPS_DENOMINATOR = Some rn" "unat rn = unat out * 10000"
    using True by (auto simp: checked_mul_def fits128_def unat_times_fits)
  have amax: "max a 1 = a"
    using assms(2) by (simp add: word_eq_iff_unat unat_max_word word_less_nat_alt)
  show ?thesis using assms True
    by (simp add: estimate_price_impact_bps_def qn rn amax div_or_panic_def impact_tail
        v2_impact_def unat_div_word Let_def word_gt_0)
qed

lemma v2_side_selects:
  assumes "v2_side p t = Some (rin, rout, tout)"
  shows "(if eq_ignore_ascii_case t (v2_token0 p) then Ok (v2_reserve0 p, v2_reserve1 p, v2_token1 p)
      else if eq_ignore_ascii_case t (v2_token1 p) then Ok (v2_reserve1 p, v2_reserve0 p, v2_token0 p)
      else Err e) = Ok (rin, rout, tout)"
  using assms by (auto simp: v2_side_def split: if_splits)

text \<open>The checked products of the quote either all fit, and then the division
  is the exact output, or one of them reports the overflow.\<close>

lemma v2_quote_products:
  fixes rin rout a :: u128 and fee :: u32
  assumes "unat fee < 10000" "0 < rin" "0 < rout"
  defines "x \<equiv> unat a * (10000 - unat fee)"
  shows "attempt (ok_or e (checked_sub BPS_DENOMINATOR (ucast fee))) (\<lambda>fm.
      attempt (ok_or e (checked_mul a fm)) (\<lambda>x.
      attempt (ok_or e (checked_mul x rout)) (\<lambda>n.
      attempt (ok_or e (Option.bind (checked_mul rin BPS_DENOMINATOR) (\<lambda>v. checked_add v x))) (\<lambda>d.
      attempt (div_or_panic n d) k))))
    = (if fits128 (x * unat rout) \<and> fits128 (unat rin * 10000 + x)
       then k (word_of_nat (v2_out (unat rin) (unat rout) (unat fee) (unat a)))
       else Err e)"
proof -
  have rpos: "0 < unat rin" "0 < unat rout" using assms by (simp_all add: word_gt_0 unat_gt_0)
  obtain fm where fm: "checked_sub BPS_DENOMINATOR (ucast fee) = Some fm" "unat fm = 10000 - unat fee"
    using assms by (auto simp: checked_sub_def word_le_nat_alt unat_minus_le)
  show ?thesis
  proof (cases "checked_mul a fm")
    case None
    then have "2 ^ 128 \<le> x" by (simp add: checked_mul_eq_None fm x_def)
    then have "\<not> fits128 (unat rin * 10000 + x)" by (simp add: fits128_def)
    with None show ?thesis by (simp add: fm)
  next
    case (Some xw)
    then have xw: "unat xw = x" by (simp add: checked_mul_eq_Some fm x_def)
    show ?thesis
    proof (cases "fits128 (x * unat rout) \<and> fits128 (unat rin * 10000 + x)")
      case True
      then obtain n where n: "checked_mul xw rout = Some n" "unat n = x * unat rout"
        by (auto simp: checked_mul_def fits128_def xw unat_times_fits)
      from True obtain v where v: "checked_mul rin BPS_DENOMINATOR = Some v" "unat v = unat rin * 10000"
        by (auto simp: checked_mul_def fits128_def unat_times_fits)
      from True obtain d where d: "checked_add v xw = Some d" "unat d = unat rin * 10000 + x"
        by (auto simp: checked_add_def fits128_def v xw unat_plus_fits)
      have "d \<noteq> 0" using d rpos by auto
      moreover have "unat (n div d) = v2_out (unat rin) (unat rout) (unat fee) (unat a)"
        by (simp add: unat_div_word n d v2_out_def x_def)
      then have "n div d = word_of_nat (v2_out (unat rin) (unat rout) (unat fee) (unat a))"
        by (rule word_of_nat_eqI)
      ultimately show ?thesis using True Some n v d by (simp add: fm div_or_panic_def)
    next
      case False
      then have "checked_mul xw rout = None
          \<or> Option.bind (checked_mul rin BPS_DENOMINATOR) (\<lambda>v. checked_add v xw) = None"
        by (auto simp: checked_mul_def checked_add_def fits128_def xw unat_times_fits split: if_splits)
      with False Some show ?thesis by (cases "checked_mul xw rout") (auto simp: fm)
    qed
  qed
qed

text \<open>The word-level routine is the exact formula with the 128-bit limits.\<close>

lemma v2_quote_unfold:
  assumes "v2_validate p = Ok ()" "v2_side p t = Some (rin, rout, tout)" "a \<noteq> 0"
  defines "x \<equiv> unat a * (10000 - unat (v2_fee_bps p))"
    and "out \<equiv> v2_out (unat rin) (unat rout) (unat (v2_fee_bps p)) (unat a)"
  shows "v2_quote_exact_in p t a =
    (if \<not> (fits128 (x * unat rout) \<and> fits128 (unat rin * 10000 + x)) then Err ArithmeticOverflow
     else if out = 0 then Err InsufficientLiquidity
     else attempt (estimate_price_impact_bps rin rout a (word_of_nat out)) (\<lambda>impact.
       Ok \<lparr>pq_pool_address = v2_address p, pq_token_in = t, pq_token_out = tout,
           pq_amount_in = a, pq_amount_out = word_of_nat out, pq_fee_bps = v2_fee_bps p,
           pq_price_impact_bps = impact\<rparr>))"
proof -
  have fee: "unat (v2_fee_bps p) < 10000" using assms(1) by (simp add: v2_validate_Ok_iff)
  have pos: "0 < rin" "0 < rout" using v2_side_reserves_pos[OF assms(1,2)] by auto
  have "out < unat rout"
    unfolding out_def using pos by (intro v2_out_less) (simp_all add: word_less_nat_alt)
  then have "out < 2 ^ LENGTH(128)" using unat_lt_width[of rout] by linarith
  then have "(word_of_nat out :: u128) = 0 \<longleftrightarrow> out = 0"
    by (simp add: word_eq_iff_unat unat_of_nat_fits)
  with assms(3) show ?thesis
    unfolding v2_quote_exact_in_def v2_side_selects[OF assms(2)]
    by (simp add: v2_quote_products[OF fee pos] x_def out_def)
qed

lemma v2_quote_shape:
  assumes "v2_quote_exact_in p t a = Ok q"
  shows "pq_token_in q = t" "pq_amount_in q = a" "a \<noteq> 0" "pq_amount_out q \<noteq> 0"
    "pq_pool_address q = v2_address p"
    "\<exists>rin rout. v2_side p t = Some (rin, rout, pq_token_out q)"
  using assms
  by (auto simp: v2_quote_exact_in_def v2_side_def res_simps split: if_splits)

lemma v2_quote_OkD:
  assumes "v2_validate p = Ok ()" "v2_quote_exact_in p t a = Ok q"
  obtains rin rout where "v2_side p t = Some (rin, rout, pq_token_out q)" "0 < unat rin" "0 < unat rout"
    "unat (pq_amount_out q) = v2_out (unat rin) (unat rout) (unat (v2_fee_bps p)) (unat a)"
    "unat (pq_price_impact_bps q) \<le> 10000"
proof -
  from v2_quote_shape[OF assms(2)] obtain rin rout tout
    where s: "v2_side p t = Some (rin, rout, tout)" and tout: "tout = pq_token_out q" and a: "a \<noteq> 0"
    by auto
  define out where "out = v2_out (unat rin) (unat rout) (unat (v2_fee_bps p)) (unat a)"
  have pos: "0 < rin" "0 < rout" using v2_side_reserves_pos[OF assms(1) s] by auto
  then have lt: "out < unat rout"
    unfolding out_def by (intro v2_out_less) (simp_all add: word_less_nat_alt)
  then have out: "unat (word_of_nat out :: u128) = out"
    using unat_lt_width[of rout] by (intro unat_of_nat_fits) linarith
  have le: "(word_of_nat out :: u128) \<le> rout" using lt out by (simp add: word_le_nat_alt)
  have ap: "0 < a" using a by (simp add: word_gt_0)
  from assms(2) have q: "pq_amount_out q = word_of_nat out"
    "estimate_price_impact_bps rin rout a (word_of_nat out) = Ok (pq_price_impact_bps q)"
    unfolding v2_quote_unfold[OF assms(1) s a] out_def[symmetric]
    by (auto simp: res_simps split: if_splits)
  have "unat (pq_price_impact_bps q) \<le> 10000"
  proof -
    have "pq_price_impact_bps q = word_of_nat (v2_impact (unat rin) (unat rout) (unat a) out)"
      using q(2) unfolding estimate_price_impact_bps_exact[OF pos(1) ap le] out
      by (auto split: if_splits)
    then show ?thesis
      using v2_impact_le[of "unat rin" "unat rout" "unat a" out] by (simp add: unat_of_nat_fits)
  qed
  with s tout pos q out that show thesis by (simp add: out_def word_less_nat_alt)
qed

lemma v2_estimate_no_panic: "0 < rin \<Longrightarrow> estimate_price_impact_bps rin rout a out \<noteq> Panic"
  by (auto simp: estimate_price_impact_bps_def attempt_eq_Panic res_simps int_simps max_def
      word_gt_0 split: if_splits)

lemma v2_quote_no_panic:
  assumes "v2_validate p = Ok ()"
  shows "v2_quote_exact_in p t a \<noteq> Panic"
proof (cases "a = 0 \<or> v2_side p t = None")
  case True
  then show ?thesis by (auto simp: v2_quote_exact_in_def v2_side_def split: if_splits)
next
  case False
  then obtain rin rout tout where s: "v2_side p t = Some (rin, rout, tout)" and a: "a \<noteq> 0" by auto
  with v2_side_reserves_pos[OF assms s] show ?thesis
    unfolding v2_quote_unfold[OF assms s a]
    by (auto simp: attempt_eq_Panic v2_estimate_no_panic split: if_splits)
qed

section \<open>Logs\<close>

lemma v2_apply_log_cases:
  assumes "v2_apply_log l p = Ok (oc, p')"
  obtains (ignored) "oc = Ignored" "p' = p"
  | (applied) d r0 r1 where "oc = Applied" "log_decoded_event l = Some d" "de_kind d = V2Sync"
      "de_reserve0 d = Some r0" "de_reserve1 d = Some r1" "r0 \<noteq> 0" "r1 \<noteq> 0"
      "p' = p\<lparr>v2_reserve0 := r0, v2_reserve1 := r1,
              v2_last_updated_block := block_number (md_block_context (log_metadata l))\<rparr>"
  using assms
  by (auto simp: v2_apply_log_def v2_apply_sync_def res_simps split: option.splits if_splits)

lemma v2_apply_log_valid:
  assumes "v2_validate p = Ok ()" "v2_apply_log l p = Ok (oc, p')"
  shows "v2_validate p' = Ok ()"
  using assms(2)
proof (cases rule: v2_apply_log_cases)
  case (applied d r0 r1)
  with assms(1) show ?thesis by (simp add: v2_validate_Ok_iff word_gt_0)
qed (use assms in simp)

lemma v2_apply_log_no_panic: "v2_apply_log l p \<noteq> Panic"
  by (auto simp: v2_apply_log_def v2_apply_sync_def attempt_eq_Panic split: option.splits if_splits)

lemma v2_restore_snapshot [simp]: "v2_restore (v2_snapshot p) p = p"
  by (simp add: v2_restore_def v2_snapshot_def)

lemma v2_restore_after_sync:
  assumes "v2_apply_log l p = Ok (oc, p')"
  shows "v2_restore (v2_snapshot p) p' = p"
  using assms by (cases rule: v2_apply_log_cases) (auto simp: v2_restore_def v2_snapshot_def)

interpretation v2p: quoting_pool "\<lambda>p. v2_validate p = Ok ()" v2_quote_exact_in v2_apply_log v2_other_token
proof
  fix p t a q l oc p'
  show "v2_quote_exact_in p t a = Ok q \<Longrightarrow>
      pq_token_in q = t \<and> pq_amount_in q = a \<and> 0 < a \<and> 0 < pq_amount_out q"
    by (auto dest: v2_quote_shape simp: word_gt_0)
  show "v2_quote_exact_in p t a = Ok q \<Longrightarrow> v2_other_token p t = Some (pq_token_out q)"
    by (auto dest!: v2_quote_shape(6) simp: v2_side_def v2_other_token_def eq_ignore_ascii_case_sym split: if_splits)
  show "v2_apply_log l p = Ok (Ignored, p') \<Longrightarrow> p' = p"
    by (erule v2_apply_log_cases) auto
qed (auto simp: v2_quote_no_panic v2_apply_log_no_panic intro: v2_apply_log_valid)

section \<open>Properties of constant-product pools\<close>

definition sample_v2 :: V2PoolState where
  "sample_v2 = \<lparr>v2_address = ''0xpool'', v2_protocol = UniswapV2, v2_exchange = None,
    v2_token0 = ''0xAA'', v2_token1 = ''0xBB'', v2_reserve0 = 1000000, v2_reserve1 = 2000000,
    v2_fee_bps = 30, v2_last_updated_block = None\<rparr>"

lemmas v2_eval = v2_quote_exact_in_def estimate_price_impact_bps_def BPS_DENOMINATOR_def word_eval

lemma sample_v2_valid: "v2_validate sample_v2 = Ok ()"
  by (simp add: sample_v2_def v2_validate_def BPS_DENOMINATOR_def word_eval)

lemma sample_v2_quote:
  "v2_quote_exact_in sample_v2 ''0xAA'' 10000 =
    Ok \<lparr>pq_pool_address = ''0xpool'', pq_token_in = ''0xAA'', pq_token_out = ''0xBB'',
        pq_amount_in = 10000, pq_amount_out = 19743, pq_fee_bps = 30, pq_price_impact_bps = 128\<rparr>"
  by (simp add: sample_v2_def v2_eval)

lemma sample_v2_side: "v2_side sample_v2 ''0xAA'' = Some (1000000, 2000000, ''0xBB'')"
  by (simp add: v2_side_def sample_v2_def)

text \<open>C7: for a validated pool, \<open>quote_exact_in\<close> computes on every branch exactly
  what the constant-product formula over unbounded integers prescribes: the
  same amount out, the same price impact, and the same error for a zero input,
  an unknown token, an output of zero, or an intermediate product that does not
  fit 128 bits.\<close>

theorem v2_quote_refines_exact:
  assumes "v2_validate p = Ok ()"
  shows "quote_numbers (v2_quote_exact_in p t a) = v2_quote_spec p t a"
proof (cases "a = 0 \<or> v2_side p t = None")
  case True
  then show ?thesis
    by (auto simp: v2_quote_exact_in_def v2_quote_spec_def v2_side_def split: if_splits)
next
  case False
  then obtain rin rout tout where s: "v2_side p t = Some (rin, rout, tout)" and a: "a \<noteq> 0" by auto
  define out where "out = v2_out (unat rin) (unat rout) (unat (v2_fee_bps p)) (unat a)"
  have pos: "0 < rin" "0 < rout" using v2_side_reserves_pos[OF assms s] by auto
  then have lt: "out < unat rout"
    unfolding out_def by (intro v2_out_less) (simp_all add: word_less_nat_alt)
  then have out: "unat (word_of_nat out :: u128) = out"
    using unat_lt_width[of rout] by (intro unat_of_nat_fits) linarith
  then have le: "word_of_nat out \<le> rout" using lt by (simp add: word_le_nat_alt)
  have imp: "unat (word_of_nat (v2_impact (unat rin) (unat rout) (unat a) out) :: u32)
      = v2_impact (unat rin) (unat rout) (unat a) out"
    using v2_impact_le[of "unat rin" "unat rout" "unat a" out] by (intro unat_of_nat_fits) simp
  have ap: "0 < a" using a by (simp add: word_gt_0)
  show ?thesis using a
    unfolding v2_quote_unfold[OF assms s a] v2_quote_spec_def s
    by (simp add: Let_def out_def[symmetric] estimate_price_impact_bps_exact[OF pos(1) ap le] out imp)
qed

theorem v2_quote_refines_exact_witness:
  "v2_validate sample_v2 = Ok () \<and>
   quote_numbers (v2_quote_exact_in sample_v2 ''0xAA'' 10000) = Ok (19743, 128)"
proof -
  have "v2_quote_spec sample_v2 ''0xAA'' 10000 = Ok (19743, 128)"
    by (simp add: v2_quote_spec_def sample_v2_side v2_out_def v2_impact_def fits128_def Let_def)
      (simp add: sample_v2_def)
  with v2_quote_refines_exact[OF sample_v2_valid, of "''0xAA''" 10000] show ?thesis
    by (simp add: sample_v2_valid)
qed

text \<open>C8: a quoted swap on a validated pool pays out a positive amount that is
  strictly below the reserve of the token paid out, and the product of the
  reserves after the swap is at least the product before it.\<close>

theorem v2_swap_keeps_product:
  assumes "v2_validate p = Ok ()" "v2_quote_exact_in p t a = Ok q"
  shows "\<exists>rin rout. v2_side p t = Some (rin, rout, pq_token_out q)
    \<and> 0 < unat (pq_amount_out q) \<and> unat (pq_amount_out q) < unat rout
    \<and> unat rin * unat rout \<le> (unat rin + unat a) * (unat rout - unat (pq_amount_out q))"
proof -
  obtain rin rout where q: "v2_side p t = Some (rin, rout, pq_token_out q)" "0 < unat rin" "0 < unat rout"
    "unat (pq_amount_out q) = v2_out (unat rin) (unat rout) (unat (v2_fee_bps p)) (unat a)"
    by (rule v2_quote_OkD[OF assms])
  let ?y = "unat (pq_amount_out q)"
  have lt: "?y < unat rout" using v2_out_less[OF q(2,3)] by (simp add: q(4))
  have "?y * (unat rin + unat a) \<le> unat a * unat rout" using v2_out_fee_free[OF q(2)] by (simp add: q(4))
  then have "unat rin * unat rout + ?y * (unat rin + unat a) \<le> (unat rin + unat a) * unat rout"
    by (simp add: algebra_simps)
  then have "unat rin * unat rout \<le> (unat rin + unat a) * (unat rout - ?y)"
    by (simp add: diff_mult_distrib2 mult.commute)
  with lt q(1) v2_quote_shape(4)[OF assms(2)] show ?thesis by (auto simp: word_zero_iff_unat)
qed

theorem v2_swap_keeps_product_witness:
  "\<exists>q. v2_quote_exact_in sample_v2 ''0xAA'' 10000 = Ok q \<and>
    (\<exists>rin rout. v2_side sample_v2 ''0xAA'' = Some (rin, rout, pq_token_out q)
      \<and> 0 < unat (pq_amount_out q) \<and> unat (pq_amount_out q) < unat rout
      \<and> unat rin * unat rout \<le> (unat rin + unat (10000 :: u128)) * (unat rout - unat (pq_amount_out q)))"
  using sample_v2_quote v2_swap_keeps_product[OF sample_v2_valid sample_v2_quote] by blast

text \<open>C9: swapping an amount in and the quoted output straight back, on the
  reserves the first swap leaves, never returns more than was put in.\<close>

theorem v2_round_trip_no_profit:
  assumes "v2_validate p = Ok ()" "v2_quote_exact_in p t a = Ok q"
    and "v2_side p t = Some (rin, rout, tout)"
    and "v2_validate p' = Ok ()" "v2_side p' tout = Some (rout', rin', t')"
    and "unat rout' = unat rout - unat (pq_amount_out q)" "unat rin' = unat rin + unat a"
    and "v2_quote_exact_in p' tout (pq_amount_out q) = Ok r"
  shows "pq_amount_out r \<le> a"
proof -
  let ?y = "unat (pq_amount_out q)" and ?b = "unat (pq_amount_out r)"
  have q: "0 < unat rin" "0 < unat rout"
    "?y = v2_out (unat rin) (unat rout) (unat (v2_fee_bps p)) (unat a)"
    using v2_quote_OkD[OF assms(1,2)] assms(3) by auto
  have b: "0 < unat rout'" "?b = v2_out (unat rout') (unat rin') (unat (v2_fee_bps p')) ?y"
    using v2_quote_OkD[OF assms(4,8)] assms(5) by auto
  have "?b * (unat rout' + ?y) \<le> ?y * unat rin'" unfolding b(2) by (rule v2_out_fee_free[OF b(1)])
  moreover have "?y \<le> unat rout" using v2_out_less[OF q(1,2)] by (simp add: q(3) less_imp_le)
  ultimately have "?b * unat rout \<le> ?y * (unat rin + unat a)" by (simp add: assms(6,7))
  also have "\<dots> \<le> unat a * unat rout" unfolding q(3) by (rule v2_out_fee_free[OF q(1)])
  finally show ?thesis using q(2) by (simp add: word_le_nat_alt)
qed

definition sample_v2_after :: V2PoolState where
  "sample_v2_after = sample_v2\<lparr>v2_reserve0 := 1010000, v2_reserve1 := 1980257\<rparr>"

lemma sample_v2_after_valid: "v2_validate sample_v2_after = Ok ()"
  by (simp add: sample_v2_def sample_v2_after_def v2_validate_def BPS_DENOMINATOR_def word_eval)

lemma sample_v2_after_side: "v2_side sample_v2_after ''0xBB'' = Some (1980257, 1010000, ''0xAA'')"
proof -
  have "\<not> eq_ignore_ascii_case ''0xBB'' ''0xAA''" by code_simp
  then show ?thesis by (simp add: v2_side_def sample_v2_def sample_v2_after_def)
qed

lemma sample_v2_after_quote:
  "\<exists>r. v2_quote_exact_in sample_v2_after ''0xBB'' 19743 = Ok r"
proof -
  have "\<not> eq_ignore_ascii_case ''0xBB'' ''0xAA''" by code_simp
  then show ?thesis by (simp add: sample_v2_def sample_v2_after_def v2_eval)
qed

theorem v2_round_trip_no_profit_witness:
  "\<exists>q r. v2_quote_exact_in sample_v2 ''0xAA'' 10000 = Ok q \<and>
    v2_quote_exact_in sample_v2_after ''0xBB'' (pq_amount_out q) = Ok r \<and> pq_amount_out r \<le> 10000"
proof -
  obtain r where r: "v2_quote_exact_in sample_v2_after ''0xBB'' 19743 = Ok r"
    using sample_v2_after_quote by blast
  have "pq_amount_out r \<le> 10000"
    by (rule v2_round_trip_no_profit[OF sample_v2_valid sample_v2_quote sample_v2_side
          sample_v2_after_valid sample_v2_after_side, of r]) (simp_all add: r)
  with r sample_v2_quote show ?thesis by simp
qed

text \<open>On a validated pool a larger input never quotes a smaller output.\<close>

theorem v2_quote_monotone:
  assumes "v2_validate p = Ok ()" "a \<le> b"
    and "v2_quote_exact_in p t a = Ok q" "v2_quote_exact_in p t b = Ok r"
  shows "pq_amount_out q \<le> pq_amount_out r"
proof -
  obtain rin rout where q: "v2_side p t = Some (rin, rout, pq_token_out q)" "0 < unat rin"
    "unat (pq_amount_out q) = v2_out (unat rin) (unat rout) (unat (v2_fee_bps p)) (unat a)"
    by (rule v2_quote_OkD[OF assms(1,3)])
  have "unat (pq_amount_out r) = v2_out (unat rin) (unat rout) (unat (v2_fee_bps p)) (unat b)"
    using v2_quote_OkD[OF assms(1,4)] q(1) by auto
  with q assms(2) show ?thesis by (simp add: word_le_nat_alt v2_out_mono)
qed

theorem v2_quote_monotone_witness:
  "\<exists>q r. v2_quote_exact_in sample_v2 ''0xAA'' 10000 = Ok q \<and>
    v2_quote_exact_in sample_v2 ''0xAA'' 20000 = Ok r \<and> pq_amount_out q \<le> pq_amount_out r"
proof -
  obtain r where r: "v2_quote_exact_in sample_v2 ''0xAA'' 20000 = Ok r"
    by (simp add: sample_v2_def v2_eval)
  have "pq_amount_out (the_ok (v2_quote_exact_in sample_v2 ''0xAA'' 10000)) \<le> pq_amount_out r"
    by (rule v2_quote_monotone[OF sample_v2_valid _ _ r, of 10000])
      (simp_all add: sample_v2_quote the_ok_def word_eval)
  with r show ?thesis by (simp add: sample_v2_quote the_ok_def)
qed

end
