(* ===== verification/Market_V3.thy ===== *)
theory Market_V3
  imports Market_Types Complex_Main
begin

text \<open>
  Concentrated-liquidity pools (\<open>src/crates/markets/src/v3.rs\<close>): state,
  validation, adoption of \<open>Swap\<close> events, the in-range quote over 256-bit words,
  and \<open>get_sqrt_ratio_at_tick\<close>.  The decimal parser of the external big-integer
  crate is the parameter \<open>parse_u256\<close>; its \<open>*\<close> wraps, its \<open>/\<close> panics on zero.
  The main result is that a quote never exceeds the exact value of the closed
  formula over the pool's virtual reserves.
\<close>

unbundle bit_operations_syntax

definition FEE_PIPS_DENOMINATOR :: u128 where
  "FEE_PIPS_DENOMINATOR = 1000000"

definition MAX_IN_RANGE_IMPACT_BPS :: u32 where
  "MAX_IN_RANGE_IMPACT_BPS = 500"

definition q96 :: U256 where
  "q96 = push_bit 96 1"

definition max_sqrt_price :: U256 where
  "max_sqrt_price = 1461446703485210103287273052203988822378723970342"

definition min_sqrt_price :: U256 where
  "min_sqrt_price = 4295128739"

record V3PoolState =
  v3_address :: Address
  v3_protocol :: Protocol
  v3_exchange :: "Exchange option"
  v3_token0 :: Address
  v3_token1 :: Address
  v3_fee_pips :: u32
  v3_tick_spacing :: i32
  v3_sqrt_price_x96 :: U256
  v3_liquidity :: u128
  v3_tick :: i32
  v3_last_updated_block :: "BlockNumber option"

definition v3_validate :: "V3PoolState \<Rightarrow> (MarketError, unit) res" where
  "v3_validate p =
    (if v3_token0 p = v3_token1 p
     then Err (InvalidPool ''v3 pool tokens must be distinct addresses'')
     else if FEE_PIPS_DENOMINATOR \<le> ucast (v3_fee_pips p)
     then Err (InvalidPool ''v3 fee_pips must be lower than 1_000_000'')
     else if sint (v3_tick_spacing p) \<le> 0
     then Err (InvalidPool ''v3 tick_spacing must be positive'')
     else if v3_sqrt_price_x96 p < min_sqrt_price \<or> max_sqrt_price < v3_sqrt_price_x96 p
     then Err (InvalidPool ''v3 sqrt_price_x96 outside the protocol-defined range'')
     else if v3_liquidity p = 0 then Err InsufficientLiquidity
     else Ok ())"

definition v3_new ::
  "Address \<Rightarrow> Protocol \<Rightarrow> Exchange option \<Rightarrow> Address \<Rightarrow> Address \<Rightarrow> u32 \<Rightarrow> i32 \<Rightarrow> U256 \<Rightarrow> u128 \<Rightarrow> i32
    \<Rightarrow> (MarketError, V3PoolState) res" where
  "v3_new address protocol exchange token0 token1 fee_pips tick_spacing sqrt_price_x96 liquidity tick =
    (let state = \<lparr>v3_address = address, v3_protocol = protocol, v3_exchange = exchange,
                  v3_token0 = token0, v3_token1 = token1, v3_fee_pips = fee_pips,
                  v3_tick_spacing = tick_spacing, v3_sqrt_price_x96 = sqrt_price_x96,
                  v3_liquidity = liquidity, v3_tick = tick, v3_last_updated_block = None\<rparr>
     in attempt (v3_validate state) (\<lambda>_. Ok state))"

definition v3_contains_token :: "V3PoolState \<Rightarrow> string \<Rightarrow> bool" where
  "v3_contains_token p token =
    (eq_ignore_ascii_case (v3_token0 p) token \<or> eq_ignore_ascii_case (v3_token1 p) token)"

definition v3_other_token :: "V3PoolState \<Rightarrow> string \<Rightarrow> string option" where
  "v3_other_token p token =
    (if eq_ignore_ascii_case (v3_token0 p) token then Some (v3_token1 p)
     else if eq_ignore_ascii_case (v3_token1 p) token then Some (v3_token0 p)
     else None)"

definition apply_v3_swap_event ::
  "(string \<Rightarrow> U256 option) \<Rightarrow> DecodedLogEvent \<Rightarrow> V3PoolState \<Rightarrow> (MarketError, V3PoolState) res" where
  "apply_v3_swap_event parse_u256 decoded p =
    attempt (ok_or (MissingDecodedField ''sqrt_price_x96'') (de_sqrt_price_x96 decoded)) (\<lambda>text.
    attempt (ok_or (MissingDecodedField ''sqrt_price_x96'') (parse_u256 text)) (\<lambda>new_sqrt_price.
    attempt (ok_or (MissingDecodedField ''liquidity'') (de_liquidity decoded)) (\<lambda>new_liquidity.
    attempt (ok_or (MissingDecodedField ''tick'') (de_tick decoded)) (\<lambda>new_tick.
    if new_sqrt_price < min_sqrt_price \<or> max_sqrt_price < new_sqrt_price
    then Err (InvalidPool ''v3 swap event sqrt_price_x96 outside the protocol-defined range'')
    else Ok (p\<lparr>v3_sqrt_price_x96 := new_sqrt_price, v3_liquidity := new_liquidity,
               v3_tick := new_tick\<rparr>)))))"

definition v3_apply_log ::
  "(string \<Rightarrow> U256 option) \<Rightarrow> Log \<Rightarrow> V3PoolState \<Rightarrow> (MarketError, MarketEventOutcome \<times> V3PoolState) res" where
  "v3_apply_log parse_u256 l p =
    (case log_address l of
       None \<Rightarrow> Ok (Ignored, p)
     | Some address \<Rightarrow>
         if \<not> eq_ignore_ascii_case address (v3_address p) then Ok (Ignored, p)
         else
           case log_decoded_event l of
             None \<Rightarrow> Ok (Ignored, p)
           | Some decoded \<Rightarrow>
               (case de_kind decoded of
                  V3Swap \<Rightarrow>
                    attempt (apply_v3_swap_event parse_u256 decoded p) (\<lambda>p'.
                    Ok (Applied, p'\<lparr>v3_last_updated_block :=
                      block_number (md_block_context (log_metadata l))\<rparr>))
                | _ \<Rightarrow> Ok (Ignored, p)))"

section \<open>Word helpers\<close>

definition mul_u256 :: "U256 \<Rightarrow> U256 \<Rightarrow> (MarketError, U256) res" where
  "mul_u256 a b = ok_or ArithmeticOverflow (checked_mul a b)"

definition div_round_up :: "U256 \<Rightarrow> U256 \<Rightarrow> (MarketError, U256) res" where
  "div_round_up numerator denominator =
    (if denominator = 0 then Err ArithmeticOverflow
     else let q = numerator div denominator; r = numerator mod denominator in
       if r = 0 then Ok q else ok_or ArithmeticOverflow (checked_add q 1))"

text \<open>\<open>into_limbs\<close>: the 64-bit digits of a \<open>U256\<close>, least significant first.\<close>

definition limb :: "nat \<Rightarrow> U256 \<Rightarrow> u64" where
  "limb i v = ucast (drop_bit (64 * i) v)"

definition u256_to_u128 :: "U256 \<Rightarrow> (MarketError, u128) res" where
  "u256_to_u128 v =
    (if limb 2 v \<noteq> 0 \<or> limb 3 v \<noteq> 0 then Err ArithmeticOverflow
     else Ok (push_bit 64 (ucast (limb 1 v)) OR ucast (limb 0 v)))"

definition price_impact_bps :: "U256 \<Rightarrow> U256 \<Rightarrow> bool \<Rightarrow> ('e, u32) res" where
  "price_impact_bps sqrt_before sqrt_after zero_for_one =
    (if (if zero_for_one then sqrt_before \<le> sqrt_after else sqrt_after \<le> sqrt_before) then Ok 0
     else
       let num = (if zero_for_one then sqrt_before - sqrt_after else sqrt_after - sqrt_before);
           denom = sqrt_before
       in attempt (div_or_panic (num * 20000) denom) (\<lambda>bps.
          if ucast (uMAX :: u32) < bps then Ok uMAX else Ok (ucast (limb 0 bps))))"

definition v3_quote_exact_in :: "V3PoolState \<Rightarrow> string \<Rightarrow> Amount \<Rightarrow> (MarketError, PoolQuote) res" where
  "v3_quote_exact_in p token_in amount_in =
    (if amount_in = 0 then Err InsufficientInput
     else if v3_liquidity p = 0 then Err InsufficientLiquidity
     else
       attempt
         (if eq_ignore_ascii_case token_in (v3_token0 p) then Ok True
          else if eq_ignore_ascii_case token_in (v3_token1 p) then Ok False
          else Err (UnknownToken (v3_address p) token_in)) (\<lambda>zero_for_one.
       let token_out = (if zero_for_one then v3_token1 p else v3_token0 p) in
       attempt (sub_or_panic FEE_PIPS_DENOMINATOR (ucast (v3_fee_pips p))) (\<lambda>fee_multiplier.
       attempt (ok_or ArithmeticOverflow (checked_mul amount_in fee_multiplier)) (\<lambda>scaled.
       let less_fee = scaled div FEE_PIPS_DENOMINATOR in
       if less_fee = 0 then Err InsufficientInput
       else
         let amount_in_less_fee = (ucast less_fee :: U256);
             liquidity = (ucast (v3_liquidity p) :: U256);
             sqrt_price = v3_sqrt_price_x96 p
         in
         attempt (mul_u256 liquidity q96) (\<lambda>numerator1.
         attempt
           (if zero_for_one then
              attempt (div_or_panic numerator1 sqrt_price) (\<lambda>quotient.
              attempt (ok_or ArithmeticOverflow (checked_add quotient amount_in_less_fee)) (\<lambda>divisor.
              div_round_up numerator1 divisor))
            else
              attempt (mul_u256 amount_in_less_fee q96) (\<lambda>product.
              attempt (div_or_panic product liquidity) (\<lambda>delta.
              ok_or ArithmeticOverflow (checked_add sqrt_price delta)))) (\<lambda>sqrt_price_next.
         attempt (price_impact_bps sqrt_price sqrt_price_next zero_for_one) (\<lambda>provisional_impact.
         if MAX_IN_RANGE_IMPACT_BPS < provisional_impact then Err InsufficientLiquidity
         else
           attempt
             (if zero_for_one then
                attempt (ok_or ArithmeticOverflow (checked_sub sqrt_price sqrt_price_next)) (\<lambda>diff.
                attempt (mul_u256 liquidity diff) (\<lambda>product.
                div_or_panic product q96))
              else
                attempt (ok_or ArithmeticOverflow (checked_sub sqrt_price_next sqrt_price)) (\<lambda>diff.
                attempt (mul_u256 liquidity diff) (\<lambda>product.
                attempt (mul_u256 product q96) (\<lambda>numerator.
                attempt (mul_u256 sqrt_price sqrt_price_next) (\<lambda>denominator.
                div_or_panic numerator denominator))))) (\<lambda>amount_out_u256.
           attempt (u256_to_u128 amount_out_u256) (\<lambda>amount_out.
           if amount_out = 0 then Err InsufficientLiquidity
           else
             attempt (price_impact_bps sqrt_price sqrt_price_next zero_for_one) (\<lambda>impact.
             Ok \<lparr>pq_pool_address = v3_address p, pq_token_in = token_in, pq_token_out = token_out,
                 pq_amount_in = amount_in, pq_amount_out = amount_out,
                 pq_fee_bps = v3_fee_pips p div 100 + (if v3_fee_pips p mod 100 = 0 then 0 else 1),
                 pq_price_impact_bps = impact\<rparr>))))))))))"

section \<open>Ticks\<close>

definition tick_constants :: "U256 list" where
  "tick_constants =
    [0xfffcb933bd6fad37aa2d162d1a594001, 0xfff97272373d413259a46990580e213a,
     0xfff2e50f5f656932ef12357cf3c7fdcc, 0xffe5caca7e10e4e61c3624eaa0941cd0,
     0xffcb9843d60f6159c9db58835c926644, 0xff973b41fa98c081472e6896dfb254c0,
     0xff2ea16466c96a3843ec78b326b52861, 0xfe5dee046a99a2a811c461f1969c3053,
     0xfcbe86c7900a88aedcffc83b479aa3a4, 0xf987a7253ac413176f2b074cf7815e54,
     0xf3392b0822b70005940c7a398e4b70f3, 0xe7159475a2c29b7443b29c7fa6e889d9,
     0xd097f3bdfd2022b8845ad8f792aa5825, 0xa9f746462d870fdf8a65dc1f90e061e5,
     0x70d869a156d2a1b890bb3df62baf32f7, 0x31be135f97d08fd981231505542fcfa6,
     0x9aa508b5b7a84e1c677de54f3e99bc9, 0x5d6af8dedb81196699c329225ee604,
     0x2216e584f5fa1ea926041bedfe98, 0x48a170391f7dc42444e8fa2]"

text \<open>One pass of the loop over the constants: entry \<open>idx\<close> is multiplied in when
  bit \<open>idx\<close> of the absolute tick is set.\<close>

fun tick_loop :: "u32 \<Rightarrow> (nat \<times> U256) list \<Rightarrow> U256 \<Rightarrow> U256" where
  "tick_loop abs_tick [] ratio = ratio"
| "tick_loop abs_tick ((idx, factor) # rest) ratio =
    tick_loop abs_tick rest (if bit abs_tick idx then drop_bit 128 (ratio * factor) else ratio)"

definition get_sqrt_ratio_at_tick :: "i32 \<Rightarrow> (MarketError, U256) res" where
  "get_sqrt_ratio_at_tick tick =
    (if \<not> (- 887272 \<le> sint tick \<and> sint tick \<le> 887272)
     then Err (InvalidPool ''v3 tick outside protocol bounds'')
     else
       let abs_tick = (word_of_int \<bar>sint tick\<bar> :: u32);
           ratio0 = (if bit abs_tick 0 then 0xfffcb933bd6fad37aa2d162d1a594001 else push_bit 128 1);
           ratio1 = tick_loop abs_tick (tl (zip [0..<20] tick_constants)) ratio0
       in attempt (if 0 < sint tick then div_or_panic uMAX ratio1 else Ok ratio1) (\<lambda>ratio.
          let shifted = drop_bit 32 ratio; modulus = push_bit 32 1
          in if ratio mod modulus = 0 then Ok shifted else Ok (shifted + 1)))"

section \<open>Facts on the word helpers\<close>

lemma unat_q96 [simp]: "unat q96 = 2 ^ 96"
  by (simp add: q96_def)

lemma unat_FEE [simp]: "unat FEE_PIPS_DENOMINATOR = 1000000"
  by (simp add: FEE_PIPS_DENOMINATOR_def)

lemma unat_limb: "unat (limb i v) = unat v div 2 ^ (64 * i) mod 2 ^ 64"
proof -
  have "unat v mod 2 ^ 256 = unat v" using unat_lt_width[of v] by (intro mod_less) simp
  then show ?thesis
    by (simp only: limb_def unsigned_ucast_eq unsigned_drop_bit_eq) (simp add: take_bit_eq_mod drop_bit_eq_div)
qed

lemma high_limbs_zero: "limb 2 v = 0 \<and> limb 3 v = 0 \<longleftrightarrow> unat v < 2 ^ 128"
proof
  assume z: "limb 2 v = 0 \<and> limb 3 v = 0"
  have "unat v < 2 ^ 64 * 2 ^ 192" using unat_lt_width[of v] by simp
  then have "unat v div 2 ^ 192 < 2 ^ 64" by (rule less_mult_imp_div_less)
  with z have "unat v div 2 ^ 192 = 0" by (simp add: word_zero_iff_unat unat_limb)
  then have "unat v < 2 ^ 64 * 2 ^ 128" by (simp add: div_eq_0_iff)
  then have "unat v div 2 ^ 128 < 2 ^ 64" by (rule less_mult_imp_div_less)
  with z have "unat v div 2 ^ 128 = 0" by (simp add: word_zero_iff_unat unat_limb)
  then show "unat v < 2 ^ 128" by (simp add: div_eq_0_iff)
next
  assume "unat v < 2 ^ 128"
  then have "unat v div 2 ^ 128 = 0" "unat v div 2 ^ 192 = 0" by simp_all
  then show "limb 2 v = 0 \<and> limb 3 v = 0" by (simp add: word_zero_iff_unat unat_limb)
qed

text \<open>Reassembling the two low digits is the checked narrowing.\<close>

lemma u256_to_u128_narrow: "u256_to_u128 v = ok_or ArithmeticOverflow (try_narrow v)"
proof (cases "limb 2 v = 0 \<and> limb 3 v = 0")
  case False
  then show ?thesis
    using high_limbs_zero[of v] by (auto simp: u256_to_u128_def try_narrow_def)
next
  case True
  have "push_bit 64 (ucast (limb 1 v)) OR ucast (limb 0 v) = (ucast v :: u128)"
    by (rule bit_word_eqI) (auto simp: bit_simps limb_def)
  with True show ?thesis
    using high_limbs_zero[of v] by (simp add: u256_to_u128_def try_narrow_def)
qed

lemma mul_u256_eq_Ok [int_simps]: "mul_u256 a b = Ok c \<longleftrightarrow> unat a * unat b = unat c"
  by (simp add: mul_u256_def ok_or_eq_Ok checked_mul_eq_Some)

lemma mul_u256_not_Panic [simp]: "mul_u256 a b \<noteq> Panic"
  by (simp add: mul_u256_def)

lemma u256_to_u128_not_Panic [simp]: "u256_to_u128 v \<noteq> Panic"
  by (simp add: u256_to_u128_narrow)

lemma div_round_up_not_Panic [simp]: "div_round_up n d \<noteq> Panic"
  by (simp add: div_round_up_def Let_def)

lemma div_round_up_ge:
  assumes "div_round_up n d = Ok q"
  shows "unat n \<le> unat q * unat d"
proof -
  have eq: "unat n = unat n div unat d * unat d + unat n mod unat d" by simp
  from assms have d: "0 < unat d" by (auto simp: div_round_up_def unat_gt_0 split: if_splits)
  show ?thesis
  proof (cases "n mod d = 0")
    case True
    with assms have "q = n div d" by (auto simp: div_round_up_def split: if_splits)
    with True eq show ?thesis by (simp add: unat_div_word word_zero_iff_unat unat_mod_word)
  next
    case False
    with assms have "unat q = unat n div unat d + 1"
      by (auto simp: div_round_up_def res_simps int_simps Let_def split: if_splits)
    then have "unat q * unat d = unat n div unat d * unat d + unat d" by simp
    moreover have "unat n mod unat d \<le> unat d" using d by (simp add: less_imp_le)
    ultimately show ?thesis using eq by linarith
  qed
qed

lemma price_impact_no_panic: "b \<noteq> 0 \<Longrightarrow> price_impact_bps b a z \<noteq> Panic"
  by (auto simp: price_impact_bps_def Let_def attempt_eq_Panic split: if_splits)

section \<open>Validity\<close>

text \<open>What every operation keeps: all of \<open>validate\<close> except a positive liquidity,
  which a \<open>Swap\<close> event may set to zero.\<close>

definition v3_sound :: "V3PoolState \<Rightarrow> bool" where
  "v3_sound p \<longleftrightarrow> v3_token0 p \<noteq> v3_token1 p \<and> unat (v3_fee_pips p) < 1000000
    \<and> 0 < sint (v3_tick_spacing p)
    \<and> min_sqrt_price \<le> v3_sqrt_price_x96 p \<and> v3_sqrt_price_x96 p \<le> max_sqrt_price"

lemma v3_validate_Ok_iff: "v3_validate p = Ok () \<longleftrightarrow> v3_sound p \<and> v3_liquidity p \<noteq> 0"
  by (auto simp: v3_validate_def v3_sound_def word_le_nat_alt word_less_nat_alt)

lemma v3_sound_price_pos: "v3_sound p \<Longrightarrow> v3_sqrt_price_x96 p \<noteq> 0"
  by (auto simp: v3_sound_def min_sqrt_price_def word_le_nat_alt)

lemma v3_apply_log_cases:
  assumes "v3_apply_log pu l p = Ok (oc, p')"
  obtains (ignored) "oc = Ignored" "p' = p"
  | (applied) price liq tk where "oc = Applied" "min_sqrt_price \<le> price" "price \<le> max_sqrt_price"
      "p' = p\<lparr>v3_sqrt_price_x96 := price, v3_liquidity := liq, v3_tick := tk,
              v3_last_updated_block := block_number (md_block_context (log_metadata l))\<rparr>"
  using assms
  by (auto simp: v3_apply_log_def apply_v3_swap_event_def res_simps not_less
      split: option.splits if_splits DecodedLogKind.splits)

lemma v3_apply_log_sound: "v3_sound p \<Longrightarrow> v3_apply_log pu l p = Ok (oc, p') \<Longrightarrow> v3_sound p'"
  by (erule v3_apply_log_cases) (auto simp: v3_sound_def)

lemma v3_apply_log_no_panic: "v3_apply_log pu l p \<noteq> Panic"
  by (auto simp: v3_apply_log_def apply_v3_swap_event_def attempt_eq_Panic
      split: option.splits if_splits DecodedLogKind.splits)

section \<open>The quote\<close>

text \<open>The part of the input that moves the price, after the fee.\<close>

definition v3_less_fee :: "V3PoolState \<Rightarrow> Amount \<Rightarrow> nat" where
  "v3_less_fee p a = unat a * (1000000 - unat (v3_fee_pips p)) div 1000000"

lemma v3_less_fee_le: "v3_less_fee p a \<le> unat a"
proof -
  have "unat a * (1000000 - unat (v3_fee_pips p)) \<le> unat a * 1000000" by simp
  then have "v3_less_fee p a \<le> unat a * 1000000 div 1000000"
    unfolding v3_less_fee_def by (rule div_le_mono)
  then show ?thesis by simp
qed

lemma v3_quote_no_panic:
  assumes "v3_sound p"
  shows "v3_quote_exact_in p t a \<noteq> Panic"
proof -
  have price: "v3_sqrt_price_x96 p \<noteq> 0" using assms by (rule v3_sound_price_pos)
  have fee: "\<not> FEE_PIPS_DENOMINATOR < ucast (v3_fee_pips p)"
    using assms by (simp add: v3_sound_def word_less_nat_alt)
  have q: "q96 \<noteq> 0" by (simp add: word_zero_iff_unat)
  have L: "v3_liquidity p \<noteq> 0 \<Longrightarrow> (ucast (v3_liquidity p) :: U256) \<noteq> 0"
    by (simp add: word_zero_iff_unat)
  have den: "n = 0" if "mul_u256 (v3_sqrt_price_x96 p) n = Ok 0" for n
    using that price by (simp add: mul_u256_eq_Ok word_zero_iff_unat)
  have nxt: "ok_or e (checked_add (v3_sqrt_price_x96 p) d) \<noteq> Ok 0" for d and e :: MarketError
    using price by (simp add: res_simps int_simps word_zero_iff_unat)
  show ?thesis
    using price fee q L
    by (auto simp: v3_quote_exact_in_def Let_def attempt_eq_Panic attempt_eq_Ok nxt
        price_impact_no_panic[OF price] dest!: den split: if_splits)
qed

text \<open>A successful quote, step by step.\<close>

lemma v3_quote_OkE:
  assumes "v3_quote_exact_in p t a = Ok q"
  obtains (zero) num1 quotient divisor nxt diff prod amount :: U256 where
    "eq_ignore_ascii_case t (v3_token0 p)" "pq_token_out q = v3_token1 p"
    "mul_u256 (ucast (v3_liquidity p)) q96 = Ok num1"
    "v3_sqrt_price_x96 p \<noteq> 0" "quotient = num1 div v3_sqrt_price_x96 p"
    "unat quotient + v3_less_fee p a = unat divisor" "div_round_up num1 divisor = Ok nxt"
    "unat nxt + unat diff = unat (v3_sqrt_price_x96 p)"
    "mul_u256 (ucast (v3_liquidity p)) diff = Ok prod" "amount = prod div q96"
    "u256_to_u128 amount = Ok (pq_amount_out q)"
  | (one) prod delta nxt diff prod2 numer denom amount :: U256 where
    "eq_ignore_ascii_case t (v3_token1 p)" "\<not> eq_ignore_ascii_case t (v3_token0 p)"
    "pq_token_out q = v3_token0 p" "v3_liquidity p \<noteq> 0"
    "v3_less_fee p a * 2 ^ 96 = unat prod" "delta = prod div ucast (v3_liquidity p)"
    "unat (v3_sqrt_price_x96 p) + unat delta = unat nxt"
    "unat (v3_sqrt_price_x96 p) + unat diff = unat nxt"
    "mul_u256 (ucast (v3_liquidity p)) diff = Ok prod2" "mul_u256 prod2 q96 = Ok numer"
    "mul_u256 (v3_sqrt_price_x96 p) nxt = Ok denom" "denom \<noteq> 0" "amount = numer div denom"
    "u256_to_u128 amount = Ok (pq_amount_out q)"
proof -
  let ?L = "ucast (v3_liquidity p) :: U256" and ?P = "v3_sqrt_price_x96 p"
  have A: "unat (ucast (scaled div FEE_PIPS_DENOMINATOR) :: U256) = v3_less_fee p a"
    if "sub_or_panic FEE_PIPS_DENOMINATOR (ucast (v3_fee_pips p)) = (Ok fm :: (MarketError, u128) res)"
      "checked_mul a fm = Some scaled" for fm scaled
  proof -
    have "unat fm = 1000000 - unat (v3_fee_pips p)" using that(1) by (simp add: int_simps)
    then show ?thesis using that(2) by (simp add: int_simps v3_less_fee_def)
  qed
  show thesis
  proof (cases "eq_ignore_ascii_case t (v3_token0 p)")
    case True
    with assms obtain fm scaled num1 divisor nxt diff prod where
      s: "sub_or_panic FEE_PIPS_DENOMINATOR (ucast (v3_fee_pips p)) = (Ok fm :: (MarketError, u128) res)"
        "checked_mul a fm = Some scaled" and
      q: "mul_u256 ?L q96 = Ok num1" "?P \<noteq> 0"
        "checked_add (num1 div ?P) (ucast (scaled div FEE_PIPS_DENOMINATOR)) = Some divisor"
        "div_round_up num1 divisor = Ok nxt" "checked_sub ?P nxt = Some diff"
        "mul_u256 ?L diff = Ok prod" "u256_to_u128 (prod div q96) = Ok (pq_amount_out q)"
        "pq_token_out q = v3_token1 p"
      by (auto simp: v3_quote_exact_in_def Let_def res_simps div_or_panic_eq_Ok split: if_splits)
    show ?thesis
      by (rule zero[OF True q(8) q(1,2) refl _ q(4) _ q(6) refl q(7)])
        (use q(3,5) A[OF s] in \<open>simp_all only: checked_add_eq_Some checked_sub_eq_Some\<close>)
  next
    case False
    with assms obtain fm scaled prod nxt diff prod2 numer denom where
      s: "sub_or_panic FEE_PIPS_DENOMINATOR (ucast (v3_fee_pips p)) = (Ok fm :: (MarketError, u128) res)"
        "checked_mul a fm = Some scaled" and
      q: "mul_u256 (ucast (scaled div FEE_PIPS_DENOMINATOR)) q96 = Ok prod" "v3_liquidity p \<noteq> 0"
        "checked_add ?P (prod div ?L) = Some nxt" "checked_sub nxt ?P = Some diff"
        "mul_u256 ?L diff = Ok prod2" "mul_u256 prod2 q96 = Ok numer" "mul_u256 ?P nxt = Ok denom"
        "denom \<noteq> 0" "u256_to_u128 (numer div denom) = Ok (pq_amount_out q)"
        "pq_token_out q = v3_token0 p" "eq_ignore_ascii_case t (v3_token1 p)"
      by (auto simp: v3_quote_exact_in_def Let_def res_simps div_or_panic_eq_Ok split: if_splits)
    show ?thesis
      by (rule one[OF q(11) False q(10,2) _ refl[of "prod div ?L"] _ _ q(5,6,7,8) refl q(9)])
        (use q(1,3,4) A[OF s] in \<open>simp_all only: checked_add_eq_Some checked_sub_eq_Some mul_u256_eq_Ok unat_q96\<close>)
  qed
qed

lemma v3_quote_shape:
  assumes "v3_quote_exact_in p t a = Ok q"
  shows "pq_token_in q = t" "pq_amount_in q = a" "a \<noteq> 0" "pq_amount_out q \<noteq> 0"
    "pq_price_impact_bps q \<le> MAX_IN_RANGE_IMPACT_BPS" "v3_liquidity p \<noteq> 0"
  using assms by (auto simp: v3_quote_exact_in_def Let_def res_simps not_less split: if_splits)

lemma v3_quote_price_pos:
  assumes "v3_quote_exact_in p t a = Ok q"
  shows "0 < unat (v3_sqrt_price_x96 p)"
  using assms
proof (cases rule: v3_quote_OkE)
  case (one prod delta nxt diff prod2 numer denom amount)
  then have "unat (v3_sqrt_price_x96 p) * unat nxt \<noteq> 0"
    unfolding mul_u256_eq_Ok word_zero_iff_unat by linarith
  then show ?thesis by simp
qed (simp add: unat_gt_0)

lemma v3_zero_for_one_bound:
  fixes L P A n y Q :: nat
  assumes "0 < P" "n \<le> P" "L * Q \<le> n * (L * Q div P + A)" "y * Q \<le> L * (P - n)"
  shows "y * Q * (L * Q + A * P) \<le> L * A * P * P"
proof -
  define N where "N = L * Q"
  have "N * P \<le> n * (N div P + A) * P" using assms(3) by (simp add: N_def)
  also have "\<dots> = n * (N div P * P + A * P)" by (simp add: algebra_simps)
  also have "\<dots> \<le> n * (N + A * P)" by (intro mult_le_mono2 add_le_mono1 div_times_less_eq_dividend)
  finally have "P * (N + A * P) - n * (N + A * P) \<le> A * P * P" by (simp add: algebra_simps)
  then have *: "(P - n) * (N + A * P) \<le> A * P * P" by (simp add: diff_mult_distrib)
  have "y * Q * (N + A * P) \<le> L * (P - n) * (N + A * P)" using assms(4) by (rule mult_le_mono1)
  also have "\<dots> = L * ((P - n) * (N + A * P))" by (simp only: mult.assoc)
  also have "\<dots> \<le> L * (A * P * P)" using * by (rule mult_le_mono2)
  finally show ?thesis by (simp only: N_def mult.assoc)
qed

lemma v3_one_for_zero_bound:
  fixes L P A d y Q :: nat
  assumes "0 < P" "d * L \<le> A * Q" "y * (P * (P + d)) \<le> L * d * Q"
  shows "y * P * (P * L + A * Q) \<le> L * A * Q * Q"
proof -
  have "d * (P * L + A * Q) = d * L * P + A * Q * d" by (simp add: algebra_simps)
  also have "\<dots> \<le> A * Q * P + A * Q * d" using assms(2) by simp
  also have "\<dots> = A * Q * (P + d)" by (simp add: algebra_simps)
  finally have *: "d * (P * L + A * Q) \<le> A * Q * (P + d)" .
  have "y * P * (P * L + A * Q) * (P + d) = y * (P * (P + d)) * (P * L + A * Q)" by (simp only: ac_simps)
  also have "\<dots> \<le> L * d * Q * (P * L + A * Q)" using assms(3) by (rule mult_le_mono1)
  also have "\<dots> = L * Q * (d * (P * L + A * Q))" by (simp only: ac_simps)
  also have "\<dots> \<le> L * Q * (A * Q * (P + d))" using * by (rule mult_le_mono2)
  also have "\<dots> = L * A * Q * Q * (P + d)" by (simp only: ac_simps)
  finally show ?thesis using assms(1) by simp
qed

text \<open>The two bounds together: with \<open>L\<close>, \<open>P\<close> the liquidity and square-root price
  and \<open>A\<close> the input after the fee, the quote is at most the exact value of the
  formula, written without division.\<close>

lemma v3_quote_bound:
  assumes "v3_quote_exact_in p t a = Ok q"
  defines "L \<equiv> unat (v3_liquidity p)" and "P \<equiv> unat (v3_sqrt_price_x96 p)"
    and "A \<equiv> v3_less_fee p a" and "y \<equiv> unat (pq_amount_out q)"
  shows "if eq_ignore_ascii_case t (v3_token0 p)
    then pq_token_out q = v3_token1 p \<and> y * 2 ^ 96 * (L * 2 ^ 96 + A * P) \<le> L * A * P * P
    else eq_ignore_ascii_case t (v3_token1 p) \<and> pq_token_out q = v3_token0 p
      \<and> y * P * (P * L + A * 2 ^ 96) \<le> L * A * 2 ^ 96 * 2 ^ 96"
  using assms(1)
proof (cases rule: v3_quote_OkE)
  case (zero num1 quotient divisor nxt diff prod amount)
  have P: "0 < P" using zero(4) by (simp add: P_def unat_gt_0)
  have n1: "unat num1 = L * 2 ^ 96" using zero(3) by (simp add: mul_u256_eq_Ok L_def)
  have "unat divisor = L * 2 ^ 96 div P + A"
    using zero(5,6) n1 by (simp add: unat_div_word P_def A_def)
  then have "L * 2 ^ 96 \<le> unat nxt * (L * 2 ^ 96 div P + A)"
    using div_round_up_ge[OF zero(7)] n1 by simp
  moreover have "unat nxt \<le> P" "unat diff = P - unat nxt" using zero(8) by (simp_all add: P_def)
  moreover have "y * 2 ^ 96 \<le> L * unat diff"
  proof -
    have "unat amount = y" using zero(11) by (simp add: u256_to_u128_narrow res_simps int_simps y_def)
    then have "y = L * unat diff div 2 ^ 96"
      using zero(9,10) by (simp add: unat_div_word mul_u256_eq_Ok L_def)
    then show ?thesis by (simp only: div_times_less_eq_dividend)
  qed
  ultimately show ?thesis using zero(1,2) v3_zero_for_one_bound[OF P, of "unat nxt" L "2 ^ 96" A y] by simp
next
  case (one prod delta nxt diff prod2 numer denom amount)
  have P: "0 < P" using v3_quote_price_pos[OF assms(1)] by (simp add: P_def)
  have d: "unat diff = A * 2 ^ 96 div L" "unat nxt = P + A * 2 ^ 96 div L"
    using one(5-8) by (simp_all add: unat_div_word L_def P_def A_def)
  have "unat amount = y" using one(14) by (simp add: u256_to_u128_narrow res_simps int_simps y_def)
  then have "y = L * unat diff * 2 ^ 96 div (P * (P + unat diff))"
    using one(9-11,13) d by (simp add: unat_div_word mul_u256_eq_Ok L_def P_def)
  then have "y * (P * (P + unat diff)) \<le> L * unat diff * 2 ^ 96"
    by (simp only: div_times_less_eq_dividend)
  then show ?thesis using one(1-3) v3_one_for_zero_bound[OF P, of "unat diff" L A "2 ^ 96" y] d
    by (simp add: div_times_less_eq_dividend)
qed

lemma v3_quote_other:
  assumes "v3_quote_exact_in p t a = Ok q"
  shows "v3_other_token p t = Some (pq_token_out q)"
  using v3_quote_bound[OF assms]
  by (auto simp: v3_other_token_def eq_ignore_ascii_case_sym split: if_splits)

interpretation v3p: quoting_pool v3_sound v3_quote_exact_in "v3_apply_log pu" v3_other_token for pu
proof
  fix p t a q l oc p'
  show "v3_quote_exact_in p t a = Ok q \<Longrightarrow>
      pq_token_in q = t \<and> pq_amount_in q = a \<and> 0 < a \<and> 0 < pq_amount_out q"
    by (auto dest: v3_quote_shape simp: word_gt_0)
  show "v3_apply_log pu l p = Ok (Ignored, p') \<Longrightarrow> p' = p"
    by (erule v3_apply_log_cases) auto
qed (simp_all add: v3_quote_no_panic v3_apply_log_no_panic v3_quote_other v3_apply_log_sound)

section \<open>Ticks\<close>

text \<open>The loop with every bit set, over the natural numbers: the smallest ratio it
  can produce.\<close>

fun tick_floor :: "nat list \<Rightarrow> nat \<Rightarrow> nat" where
  "tick_floor [] x = x"
| "tick_floor (f # fs) x = tick_floor fs (x * f div 2 ^ 128)"

lemma shift_product:
  fixes r f :: U256
  assumes "unat r \<le> 2 ^ 128" "unat f < 2 ^ 128"
  shows "unat (drop_bit 128 (r * f)) = unat r * unat f div 2 ^ 128"
proof -
  have "unat r * unat f \<le> 2 ^ 128 * unat f" using assms(1) by (rule mult_le_mono1)
  also have "\<dots> < 2 ^ 128 * 2 ^ 128" using assms(2) by simp
  finally have "unat (r * f) = unat r * unat f" by (intro unat_times_fits) simp
  then show ?thesis by (simp only: drop_bit_eq_div unat_div_word) (simp add: unat_div_word)
qed

lemma tick_loop_bounds:
  assumes "\<forall>e \<in> set fs. unat (snd e) < 2 ^ 128" "unat r \<le> 2 ^ 128" "x \<le> unat r"
  shows "unat (tick_loop t fs r) \<le> unat r \<and> tick_floor (map (\<lambda>e. unat (snd e)) fs) x \<le> unat (tick_loop t fs r)"
  using assms
proof (induction t fs r arbitrary: x rule: tick_loop.induct)
  case (2 t idx f rest r)
  define M :: nat where "M = 2 ^ 128"
  define r' where "r' = (if bit t idx then drop_bit 128 (r * f) else r)"
  have f: "unat f < M" using 2(2) by (simp add: M_def)
  have shrink: "y * unat f div M \<le> y" for y
  proof -
    have "y * unat f \<le> y * M" using f by (intro mult_le_mono2) simp
    then have "y * unat f div M \<le> y * M div M" by (rule div_le_mono)
    then show ?thesis by (simp add: M_def)
  qed
  have prod: "unat (drop_bit 128 (r * f)) = unat r * unat f div M"
    using shift_product[of r f] 2(3) f by (simp only: M_def)
  have le: "unat r' \<le> unat r" using shrink[of "unat r"] by (simp add: r'_def prod)
  have "x * unat f div M \<le> unat r * unat f div M" using 2(4) by (intro div_le_mono mult_le_mono1)
  then have lo: "x * unat f div M \<le> unat r'"
    using shrink[of x] 2(4) by (simp add: r'_def prod)
  have "unat r' \<le> 2 ^ 128" using le 2(3) by (rule le_trans)
  then have "unat (tick_loop t rest r') \<le> unat r' \<and>
      tick_floor (map (\<lambda>e. unat (snd e)) rest) (x * unat f div M) \<le> unat (tick_loop t rest r')"
    using 2(1)[folded r'_def, OF _ _ lo] 2(2) by simp
  with le show ?case
    unfolding tick_loop.simps tick_floor.simps list.map snd_conv r'_def[symmetric] M_def[symmetric]
    by linarith
qed simp

lemma tick_constants_small: "\<forall>e \<in> set (tl (zip [0..<20] tick_constants)). unat (snd e) < 2 ^ 128"
  by (simp add: tick_constants_def upt_rec)

lemma tick_constants_floor:
  "tick_floor (map (\<lambda>e. unat (snd e)) (tl (zip [0..<20] tick_constants)))
    0xfffcb933bd6fad37aa2d162d1a594001 = 5800441176149320"
  by (simp add: tick_constants_def upt_rec)

lemma tick_ratio_bounds:
  fixes t :: u32
  defines "r0 \<equiv> (if bit t 0 then 0xfffcb933bd6fad37aa2d162d1a594001 else push_bit 128 1 :: U256)"
  shows "unat (tick_loop t (tl (zip [0..<20] tick_constants)) r0) \<le> 2 ^ 128"
    and "0 < unat (tick_loop t (tl (zip [0..<20] tick_constants)) r0)"
proof -
  have r0: "unat r0 \<le> 2 ^ 128" "0xfffcb933bd6fad37aa2d162d1a594001 \<le> unat r0"
    by (simp_all add: r0_def)
  note b = tick_loop_bounds[OF tick_constants_small r0, of t]
  show "unat (tick_loop t (tl (zip [0..<20] tick_constants)) r0) \<le> 2 ^ 128" using b r0(1) by linarith
  show "0 < unat (tick_loop t (tl (zip [0..<20] tick_constants)) r0)"
    using b unfolding tick_constants_floor by linarith
qed

lemma ceil_div_nat:
  fixes n m :: nat
  assumes "0 < m" "n mod m \<noteq> 0"
  shows "(n + m - 1) div m = n div m + 1"
proof -
  have n: "n = n div m * m + n mod m" and lt: "n mod m < m" using assms(1) by simp_all
  show ?thesis
  proof (rule div_nat_eqI)
    have "m * (n div m + 1) = n div m * m + m" by simp
    then show "m * (n div m + 1) \<le> n + m - 1" using n assms by linarith
    have "m * Suc (n div m + 1) = n div m * m + m + m" by simp
    then show "n + m - 1 < m * Suc (n div m + 1)" using n lt by linarith
  qed
qed

text \<open>Rounding a Q128 ratio up to Q96.\<close>

lemma round_up_32:
  fixes r :: U256
  shows "unat (if r mod push_bit 32 1 = 0 then drop_bit 32 r else drop_bit 32 r + 1)
    = (unat r + 2 ^ 32 - 1) div 2 ^ 32"
proof -
  have s: "unat (drop_bit 32 r) = unat r div 2 ^ 32"
    by (simp only: drop_bit_eq_div unat_div_word) (simp add: unat_div_word)
  have "unat (drop_bit 32 r) < 2 ^ 224"
    unfolding s using unat_lt_width[of r] by (intro less_mult_imp_div_less) simp
  then have s1: "unat (drop_bit 32 r + 1) = unat r div 2 ^ 32 + 1"
    using s by (subst unat_plus_fits) simp_all
  have m: "r mod push_bit 32 1 = 0 \<longleftrightarrow> unat r mod 2 ^ 32 = 0"
    by (simp add: word_zero_iff_unat unat_mod_word)
  show ?thesis
  proof (cases "unat r mod 2 ^ 32 = 0")
    case True
    then obtain k where "unat r = 2 ^ 32 * k" by blast
    with True show ?thesis using s m by simp
  next
    case False
    with ceil_div_nat[of "2 ^ 32" "unat r"] show ?thesis using s1 m by simp
  qed
qed

section \<open>Properties of concentrated-liquidity pools\<close>

lemma zero_for_one_real:
  fixes l s a y :: nat and Q :: nat
  assumes "0 < l" "0 < s" "0 < Q" "y * Q * (l * Q + a * s) \<le> l * a * s * s"
  shows "real y \<le> real a * (real l * real s / real Q) / (real l * real Q / real s + real a)"
proof -
  from assms(1-3) have pos: "0 < real l" "0 < real s" "0 < real Q" by auto
  have "real (y * Q * (l * Q + a * s)) \<le> real (l * a * s * s)" using assms(4) by (rule of_nat_mono)
  then have "real y * (real Q * (real l * real Q + real a * real s)) \<le> real l * real a * real s * real s"
    by (simp add: mult.assoc)
  moreover have "0 < real Q * (real l * real Q + real a * real s)"
    using pos by (simp add: add_pos_nonneg)
  moreover have "real a * (real l * real s / real Q) / (real l * real Q / real s + real a)
      = real l * real a * real s * real s / (real Q * (real l * real Q + real a * real s))"
    using pos by (simp add: divide_simps)
  ultimately show ?thesis by (simp only: pos_le_divide_eq)
qed

text \<open>The other direction is the same bound with the two virtual reserves swapped.\<close>

lemma one_for_zero_real:
  fixes l s a y :: nat and Q :: nat
  assumes "0 < l" "0 < s" "0 < Q" "y * s * (s * l + a * Q) \<le> l * a * Q * Q"
  shows "real y \<le> real a * (real l * real Q / real s) / (real l * real s / real Q + real a)"
  using zero_for_one_real[OF assms(1,3,2), of y a] assms(4) by (simp add: mult.commute[of s l])

text \<open>C10: a V3 quote never promises more than the exact value of the swap formula.
  With \<open>L\<close> the liquidity, \<open>P\<close> the square-root price in Q96 and \<open>A\<close> the input after
  the fee (at most the input), the output is bounded by \<open>A * Y / (X + A)\<close> for the
  virtual reserves \<open>X = L * 2^96 / P\<close> and \<open>Y = L * P / 2^96\<close>, in each direction, and
  the price impact it reports is at most the 500 basis points of the cap.\<close>

theorem v3_quote_never_overquotes:
  assumes "v3_quote_exact_in p t a = Ok q"
  defines "L \<equiv> real (unat (v3_liquidity p))" and "P \<equiv> real (unat (v3_sqrt_price_x96 p))"
    and "A \<equiv> real (v3_less_fee p a)"
  defines "X \<equiv> L * 2 ^ 96 / P" and "Y \<equiv> L * P / 2 ^ 96"
  shows "v3_less_fee p a \<le> unat a \<and> pq_price_impact_bps q \<le> 500 \<and>
    real (unat (pq_amount_out q)) \<le>
      (if eq_ignore_ascii_case t (v3_token0 p) then A * Y / (X + A) else A * X / (Y + A))"
proof -
  define l s y where "l = unat (v3_liquidity p)" "s = unat (v3_sqrt_price_x96 p)" "y = unat (pq_amount_out q)"
  have pos: "0 < l" "0 < s" "0 < (2 :: nat) ^ 96"
    using v3_quote_shape(6)[OF assms(1)] v3_quote_price_pos[OF assms(1)]
    by (simp_all add: l_s_y_def unat_gt_0)
  have Q: "real (2 ^ 96) = 2 ^ 96" by (simp only: of_nat_power of_nat_numeral)
  note b = v3_quote_bound[OF assms(1), folded l_s_y_def]
  have "real y \<le> (if eq_ignore_ascii_case t (v3_token0 p) then A * Y / (X + A) else A * X / (Y + A))"
  proof (cases "eq_ignore_ascii_case t (v3_token0 p)")
    case True
    with b have "y * 2 ^ 96 * (l * 2 ^ 96 + v3_less_fee p a * s) \<le> l * v3_less_fee p a * s * s"
      by (simp only: if_True)
    from zero_for_one_real[OF pos this] True show ?thesis
      by (simp only: if_True Q A_def X_def Y_def L_def P_def l_s_y_def)
  next
    case False
    with b have "y * s * (s * l + v3_less_fee p a * 2 ^ 96) \<le> l * v3_less_fee p a * 2 ^ 96 * 2 ^ 96"
      by (simp only: if_False)
    from one_for_zero_real[OF pos this] False show ?thesis
      by (simp only: if_False Q A_def X_def Y_def L_def P_def l_s_y_def)
  qed
  then show ?thesis
    using v3_quote_shape(5)[OF assms(1)] v3_less_fee_le[of p a]
    by (simp only: l_s_y_def MAX_IN_RANGE_IMPACT_BPS_def)
qed

definition sample_v3 :: V3PoolState where
  "sample_v3 = \<lparr>v3_address = ''0xpool'', v3_protocol = UniswapV3, v3_exchange = None,
    v3_token0 = ''0xAA'', v3_token1 = ''0xBB'', v3_fee_pips = 3000, v3_tick_spacing = 60,
    v3_sqrt_price_x96 = 79228162514264337593543950336, v3_liquidity = 1000000000000000000,
    v3_tick = 0, v3_last_updated_block = None\<rparr>"

lemmas v3_eval = v3_quote_exact_in_def u256_to_u128_narrow mul_u256_def div_round_up_def
  price_impact_bps_def FEE_PIPS_DENOMINATOR_def MAX_IN_RANGE_IMPACT_BPS_def limb_def q96_def Let_def word_eval

lemma sample_v3_quote: "\<exists>q. v3_quote_exact_in sample_v3 ''0xAA'' 1000000 = Ok q"
  by (simp add: sample_v3_def v3_eval)

theorem v3_quote_never_overquotes_witness:
  "\<exists>q. v3_quote_exact_in sample_v3 ''0xAA'' 1000000 = Ok q \<and> pq_price_impact_bps q \<le> 500"
proof -
  obtain q where q: "v3_quote_exact_in sample_v3 ''0xAA'' 1000000 = Ok q" using sample_v3_quote by blast
  from v3_quote_never_overquotes[OF q] q show ?thesis by blast
qed

text \<open>\<open>get_sqrt_ratio_at_tick\<close> returns for every tick the protocol allows, without
  overflow in its 256-bit products and without dividing by zero; the ratio is
  positive, at most \<open>2^96\<close> for a tick that is not positive and at least \<open>2^96\<close>
  for a positive one.\<close>

theorem tick_ratio_total:
  assumes "- 887272 \<le> sint tick" "sint tick \<le> 887272"
  shows "\<exists>r. get_sqrt_ratio_at_tick tick = Ok r \<and> 0 < r \<and> (if sint tick \<le> 0 then r \<le> q96 else q96 \<le> r)"
proof -
  define abs_tick where "abs_tick = (word_of_int \<bar>sint tick\<bar> :: u32)"
  define r1 where "r1 = tick_loop abs_tick (tl (zip [0..<20] tick_constants))
    (if bit abs_tick 0 then 0xfffcb933bd6fad37aa2d162d1a594001 else push_bit 128 1)"
  have r1: "unat r1 \<le> 2 ^ 128" "0 < unat r1" using tick_ratio_bounds[of abs_tick] by (simp_all only: r1_def)
  define ratio where "ratio = (if 0 < sint tick then uMAX div r1 else r1)"
  define r where "r = (if ratio mod push_bit 32 1 = 0 then drop_bit 32 ratio else drop_bit 32 ratio + 1)"
  have ur: "unat r = (unat ratio + 2 ^ 32 - 1) div 2 ^ 32" unfolding r_def by (rule round_up_32)
  have "get_sqrt_ratio_at_tick tick = Ok r"
    using assms r1(2) unfolding get_sqrt_ratio_at_tick_def abs_tick_def[symmetric]
    by (simp add: Let_def r1_def[symmetric] r_def ratio_def div_or_panic_def unat_gt_0)
  moreover have "if sint tick \<le> 0 then 0 < unat r \<and> unat r \<le> 2 ^ 96 else 2 ^ 96 \<le> unat r"
  proof (cases "sint tick \<le> 0")
    case True
    then have "ratio = r1" by (simp add: ratio_def)
    then have "(0 + 2 ^ 32) div 2 ^ 32 \<le> unat r" "unat r \<le> (2 ^ 128 + 2 ^ 32 - 1) div 2 ^ 32"
      unfolding ur using r1 by (auto intro!: div_le_mono)
    with True show ?thesis by simp
  next
    case False
    then have "unat ratio = (2 ^ 256 - 1) div unat r1" by (simp add: ratio_def unat_div_word unat_uMAX)
    then have "(2 ^ 256 - 1) div 2 ^ 128 \<le> unat ratio" using r1 by (simp only: div_le_mono2)
    then have "((2 ^ 256 - 1) div 2 ^ 128 + 2 ^ 32 - 1) div 2 ^ 32 \<le> unat r"
      unfolding ur by (intro div_le_mono diff_le_mono add_le_mono1)
    with False show ?thesis by simp
  qed
  ultimately show ?thesis by (auto simp: word_le_nat_alt word_less_nat_alt split: if_splits)
qed

lemma tick_min_exact: "get_sqrt_ratio_at_tick (- 887272) = Ok min_sqrt_price"
proof -
  have s: "sint (- 887272 :: i32) = - 887272" by simp
  have loop: "tick_loop 887272 (tl (zip [0..<20] tick_constants))
      340282366920938463463374607431768211456 = 18447437462383981825"
    by (simp add: tick_constants_def upt_rec)
  show ?thesis
    unfolding get_sqrt_ratio_at_tick_def s by (simp add: loop min_sqrt_price_def)
qed

theorem tick_ratio_total_witness:
  "get_sqrt_ratio_at_tick (- 887272) = Ok min_sqrt_price \<and> 0 < min_sqrt_price \<and> min_sqrt_price \<le> q96"
proof -
  have s: "sint (- 887272 :: i32) = - 887272" by simp
  show ?thesis
    using tick_ratio_total[of "- 887272"] unfolding s tick_min_exact by simp
qed

end
