(* ===== verification/Hash_Map.thy ===== *)
theory Hash_Map
  imports Prelude "HOL-Library.AList" "HOL-Library.Multiset"
begin

text \<open>
  \<open>std::collections::HashMap\<close> as an association list with distinct keys.  The
  position of an entry stands for one possible iteration order; results that
  must not depend on it are proved for every reordering.  The interface is the
  locale \<open>lookup_store\<close>; it is interpreted on the association list below.
\<close>

type_synonym ('k, 'v) hmap = "('k \<times> 'v) list"

definition hm_get :: "('k, 'v) hmap \<Rightarrow> 'k \<Rightarrow> 'v option" where
  "hm_get m k = map_of m k"

definition hm_insert :: "'k \<Rightarrow> 'v \<Rightarrow> ('k, 'v) hmap \<Rightarrow> ('k, 'v) hmap" where
  "hm_insert k v m = AList.update k v m"

definition hm_remove :: "'k \<Rightarrow> ('k, 'v) hmap \<Rightarrow> ('k, 'v) hmap" where
  "hm_remove k m = AList.delete k m"

definition hm_values :: "('k, 'v) hmap \<Rightarrow> 'v list" where
  "hm_values m = map snd m"

definition hm_wf :: "('k, 'v) hmap \<Rightarrow> bool" where
  "hm_wf m = distinct (map fst m)"

section \<open>The interface\<close>

text \<open>What a client of a keyed store relies on: an insert is visible under its
  own key only, a removal hides its key only, and both keep the store
  well formed.\<close>

locale lookup_store =
  fixes get :: "'m \<Rightarrow> 'k \<Rightarrow> 'v option"
    and insert :: "'k \<Rightarrow> 'v \<Rightarrow> 'm \<Rightarrow> 'm"
    and remove :: "'k \<Rightarrow> 'm \<Rightarrow> 'm"
    and wf :: "'m \<Rightarrow> bool"
  assumes get_insert: "get (insert k v m) j = (if j = k then Some v else get m j)"
    and get_remove: "get (remove k m) j = (if j = k then None else get m j)"
    and wf_insert: "wf m \<Longrightarrow> wf (insert k v m)"
    and wf_remove: "wf m \<Longrightarrow> wf (remove k m)"
begin

lemma get_insert_same: "get (insert k v m) k = Some v"
  by (simp add: get_insert)

lemma get_remove_insert: "get (remove k (insert k v m)) j = get (remove k m) j"
  by (simp add: get_insert get_remove)

lemma get_reinsert:
  assumes "get m k = Some v"
  shows "get (insert k v (remove k m)) = get m"
  using assms by (auto simp: get_insert get_remove)

lemma get_insert_insert: "get (insert k v (insert k w m)) = get (insert k v m)"
  by (auto simp: get_insert)

lemma get_insert_commute:
  assumes "j \<noteq> k"
  shows "get (insert j v (insert k w m)) = get (insert k w (insert j v m))"
  using assms by (auto simp: get_insert)

end

interpretation hm: lookup_store hm_get hm_insert hm_remove hm_wf
  by unfold_locales
    (auto simp: hm_get_def hm_insert_def hm_remove_def hm_wf_def update_conv' delete_conv'
      distinct_update distinct_delete)

section \<open>Values\<close>

lemma hm_get_Nil [simp]: "hm_get [] k = None"
  by (simp add: hm_get_def)

lemma hm_wf_Nil [simp]: "hm_wf []"
  by (simp add: hm_wf_def)

lemma hm_values_iff:
  assumes "hm_wf m"
  shows "v \<in> set (hm_values m) \<longleftrightarrow> (\<exists>k. hm_get m k = Some v)"
  using assms by (force simp: hm_values_def hm_get_def hm_wf_def)

lemma hm_get_in_values: "hm_get m k = Some v \<Longrightarrow> v \<in> set (hm_values m)"
  by (auto simp: hm_values_def hm_get_def dest!: map_of_SomeD intro: rev_image_eqI)

lemma hm_get_permuted:
  assumes "hm_wf m" "mset m = mset m'"
  shows "hm_get m = hm_get m'"
proof -
  have "distinct (map fst m')"
    using assms mset_eq_imp_distinct_iff[of "map fst m" "map fst m'"] by (simp add: hm_wf_def)
  with assms have "map_of m = map_of m'"
    by (metis hm_wf_def map_of_inject_set mset_eq_setD)
  then show ?thesis by (auto simp: hm_get_def)
qed

end
