(* ===== verification/Pool_Book.thy ===== *)
theory Pool_Book
  imports Market_V2 Market_V3 Hash_Map
begin

text \<open>
  The pool book (\<open>PoolState\<close> and \<open>PoolBook\<close> of \<open>src/crates/markets/src/lib.rs\<close>):
  pools under a normalised address key, updated by decoded logs, with a history
  of snapshots that lets a log withdrawn by a reorganisation be undone.
  \<open>&mut self\<close> is explicit: \<open>book_apply_log\<close> returns the book it leaves together with
  the result, because the code removes the pool before it can fail.
\<close>

record AppliedLogKey =
  lk_tx_hash :: TxHash
  lk_log_index :: u64

datatype PoolState = PoolV2 V2PoolState | PoolV3 V3PoolState

record PoolBook =
  pb_pools :: "(string, PoolState) hmap"
  pb_applied_sync_history :: "(AppliedLogKey, V2SyncSnapshot) hmap"

fun pool_kind :: "PoolState \<Rightarrow> PoolKind" where
  "pool_kind (PoolV2 _) = ConstantProduct"
| "pool_kind (PoolV3 _) = ConcentratedLiquidity"

fun pool_address :: "PoolState \<Rightarrow> string" where
  "pool_address (PoolV2 p) = v2_address p"
| "pool_address (PoolV3 p) = v3_address p"

fun pool_quote_exact_in :: "PoolState \<Rightarrow> string \<Rightarrow> Amount \<Rightarrow> (MarketError, PoolQuote) res" where
  "pool_quote_exact_in (PoolV2 p) token_in amount_in = v2_quote_exact_in p token_in amount_in"
| "pool_quote_exact_in (PoolV3 p) token_in amount_in = v3_quote_exact_in p token_in amount_in"

definition applied_log_key :: "Log \<Rightarrow> (MarketError, AppliedLogKey) res" where
  "applied_log_key l =
    attempt (ok_or MissingLogIdentity (md_tx_hash (log_metadata l))) (\<lambda>tx_hash.
    attempt (ok_or MissingLogIdentity (log_log_index l)) (\<lambda>log_index.
    Ok \<lparr>lk_tx_hash = tx_hash, lk_log_index = log_index\<rparr>))"

definition normalize_address_key :: "string \<Rightarrow> string" where
  "normalize_address_key address =
    (let trimmed = trim address;
         hex = (case strip_prefix ''0x'' trimmed of Some h \<Rightarrow> h | None \<Rightarrow> trimmed)
     in ''0x'' @ to_ascii_lowercase hex)"

definition book_new :: PoolBook where
  "book_new = \<lparr>pb_pools = [], pb_applied_sync_history = []\<rparr>"

definition insert_v2_pool :: "V2PoolState \<Rightarrow> PoolBook \<Rightarrow> PoolBook" where
  "insert_v2_pool p book =
    book\<lparr>pb_pools := hm_insert (normalize_address_key (v2_address p)) (PoolV2 p) (pb_pools book)\<rparr>"

definition insert_v3_pool :: "V3PoolState \<Rightarrow> PoolBook \<Rightarrow> PoolBook" where
  "insert_v3_pool p book =
    book\<lparr>pb_pools := hm_insert (normalize_address_key (v3_address p)) (PoolV3 p) (pb_pools book)\<rparr>"

definition book_pool :: "PoolBook \<Rightarrow> string \<Rightarrow> PoolState option" where
  "book_pool book address = hm_get (pb_pools book) (normalize_address_key address)"

definition book_v2_pool :: "PoolBook \<Rightarrow> string \<Rightarrow> V2PoolState option" where
  "book_v2_pool book address =
    (case book_pool book address of Some (PoolV2 p) \<Rightarrow> Some p | _ \<Rightarrow> None)"

definition book_v3_pool :: "PoolBook \<Rightarrow> string \<Rightarrow> V3PoolState option" where
  "book_v3_pool book address =
    (case book_pool book address of Some (PoolV3 p) \<Rightarrow> Some p | _ \<Rightarrow> None)"

fun as_v2 :: "PoolState \<Rightarrow> V2PoolState option" where
  "as_v2 (PoolV2 p) = Some p"
| "as_v2 (PoolV3 _) = None"

fun as_v3 :: "PoolState \<Rightarrow> V3PoolState option" where
  "as_v3 (PoolV3 p) = Some p"
| "as_v3 (PoolV2 _) = None"

definition v2_pools :: "PoolBook \<Rightarrow> V2PoolState list" where
  "v2_pools book = List.map_filter as_v2 (hm_values (pb_pools book))"

definition v3_pools :: "PoolBook \<Rightarrow> V3PoolState list" where
  "v3_pools book = List.map_filter as_v3 (hm_values (pb_pools book))"

definition apply_v2_log ::
  "PoolBook \<Rightarrow> V2PoolState \<Rightarrow> Log \<Rightarrow> PoolBook \<times> (MarketError, MarketEventOutcome \<times> V2PoolState) res" where
  "apply_v2_log book pool l =
    (case log_decoded_event l of
       None \<Rightarrow> (book, Ok (Ignored, pool))
     | Some decoded \<Rightarrow>
         if de_kind decoded = V2Sync then
           (case applied_log_key l of
              Ok applied_key \<Rightarrow>
                if log_removed l = Some True then
                  (case hm_get (pb_applied_sync_history book) applied_key of
                     None \<Rightarrow>
                       (book, Err (MissingRevertSnapshot (lk_tx_hash applied_key) (lk_log_index applied_key)))
                   | Some previous \<Rightarrow>
                       (book\<lparr>pb_applied_sync_history :=
                          hm_remove applied_key (pb_applied_sync_history book)\<rparr>,
                        Ok (Outcome_Reverted, v2_restore previous pool)))
                else
                  (let snapshot = v2_snapshot pool in
                   case v2_apply_log l pool of
                     Ok (outcome, pool') \<Rightarrow>
                       (if outcome = Applied
                        then book\<lparr>pb_applied_sync_history :=
                               hm_insert applied_key snapshot (pb_applied_sync_history book)\<rparr>
                        else book,
                        Ok (outcome, pool'))
                   | Err e \<Rightarrow> (book, Err e)
                   | Panic \<Rightarrow> (book, Panic))
            | Err e \<Rightarrow> (book, Err e)
            | Panic \<Rightarrow> (book, Panic))
         else (book, Ok (Ignored, pool)))"

text \<open>The \<open>match\<close> over the pool family inside \<open>PoolBook::apply_log\<close>.\<close>

fun dispatch_log ::
  "(string \<Rightarrow> U256 option) \<Rightarrow> PoolBook \<Rightarrow> PoolState \<Rightarrow> Log
    \<Rightarrow> PoolBook \<times> (MarketError, MarketEventOutcome \<times> PoolState) res" where
  "dispatch_log parse_u256 book (PoolV2 pool) l =
    (let (book', r) = apply_v2_log book pool l
     in (book', attempt r (\<lambda>(outcome, p). Ok (outcome, PoolV2 p))))"
| "dispatch_log parse_u256 book (PoolV3 pool) l =
    (book, attempt (v3_apply_log parse_u256 l pool) (\<lambda>(outcome, p). Ok (outcome, PoolV3 p)))"

definition book_apply_log ::
  "(string \<Rightarrow> U256 option) \<Rightarrow> Log \<Rightarrow> PoolBook \<Rightarrow> PoolBook \<times> (MarketError, MarketEventOutcome) res" where
  "book_apply_log parse_u256 l book =
    (case log_address l of
       None \<Rightarrow> (book, Ok Ignored)
     | Some address \<Rightarrow>
         let key = normalize_address_key address in
         (case hm_get (pb_pools book) key of
            None \<Rightarrow> (book, Ok Ignored)
          | Some pool_state \<Rightarrow>
              (case dispatch_log parse_u256 (book\<lparr>pb_pools := hm_remove key (pb_pools book)\<rparr>) pool_state l of
                 (book', Ok (outcome, pool')) \<Rightarrow>
                   (book'\<lparr>pb_pools := hm_insert key pool' (pb_pools book')\<rparr>, Ok outcome)
               | (book', Err e) \<Rightarrow> (book', Err e)
               | (book', Panic) \<Rightarrow> (book', Panic))))"

section \<open>Well-formed books\<close>

fun pool_valid :: "PoolState \<Rightarrow> bool" where
  "pool_valid (PoolV2 p) \<longleftrightarrow> v2_validate p = Ok ()"
| "pool_valid (PoolV3 p) \<longleftrightarrow> v3_sound p"

definition snapshot_valid :: "V2SyncSnapshot \<Rightarrow> bool" where
  "snapshot_valid s \<longleftrightarrow> sn_reserve0 s \<noteq> 0 \<and> sn_reserve1 s \<noteq> 0"

text \<open>Keys are distinct and are the normalised addresses of their pools, every pool
  is valid, and every snapshot restores positive reserves.\<close>

definition book_wf :: "PoolBook \<Rightarrow> bool" where
  "book_wf book \<longleftrightarrow>
    hm_wf (pb_pools book) \<and> hm_wf (pb_applied_sync_history book)
    \<and> (\<forall>k p. hm_get (pb_pools book) k = Some p \<longrightarrow> normalize_address_key (pool_address p) = k \<and> pool_valid p)
    \<and> (\<forall>k s. hm_get (pb_applied_sync_history book) k = Some s \<longrightarrow> snapshot_valid s)"

section \<open>One log\<close>

lemma applied_log_key_not_Panic [simp]: "applied_log_key l \<noteq> Panic"
  by (simp add: applied_log_key_def attempt_eq_Panic)

lemma applied_log_key_cong:
  "log_metadata l = log_metadata l' \<Longrightarrow> log_log_index l = log_log_index l' \<Longrightarrow>
    applied_log_key l = applied_log_key l'"
  by (simp add: applied_log_key_def)

lemma apply_v2_log_cases:
  assumes "apply_v2_log book pool l = (book', r)"
  obtains (ignored) "r = Ok (Ignored, pool)" "book' = book"
  | (applied) key pool' where "r = Ok (Applied, pool')" "v2_apply_log l pool = Ok (Applied, pool')"
      "applied_log_key l = Ok key"
      "book' = book\<lparr>pb_applied_sync_history := hm_insert key (v2_snapshot pool) (pb_applied_sync_history book)\<rparr>"
  | (reverted) key prev where "r = Ok (Outcome_Reverted, v2_restore prev pool)"
      "applied_log_key l = Ok key" "hm_get (pb_applied_sync_history book) key = Some prev"
      "book' = book\<lparr>pb_applied_sync_history := hm_remove key (pb_applied_sync_history book)\<rparr>"
  | (failed) e where "r = Err e" "book' = book"
proof (cases "\<exists>d key. log_decoded_event l = Some d \<and> de_kind d = V2Sync \<and> applied_log_key l = Ok key")
  case False
  with assms ignored failed show ?thesis
    by (auto simp: apply_v2_log_def split: option.splits if_splits res.splits)
next
  case True
  then obtain d key where d: "log_decoded_event l = Some d" "de_kind d = V2Sync" "applied_log_key l = Ok key"
    by blast
  show ?thesis
  proof (cases "log_removed l = Some True")
    case True
    show ?thesis
    proof (cases "hm_get (pb_applied_sync_history book) key")
      case None
      with assms d True show ?thesis
        by (intro failed[of "MissingRevertSnapshot (lk_tx_hash key) (lk_log_index key)"])
          (simp_all add: apply_v2_log_def)
    next
      case (Some prev)
      with assms d True show ?thesis
        by (intro reverted[of prev key]) (simp_all add: apply_v2_log_def)
    qed
  next
    case False
    show ?thesis
    proof (cases "v2_apply_log l pool")
      case (Ok x)
      obtain oc pool' where x: "x = (oc, pool')" by (cases x)
      from Ok[unfolded x] show ?thesis
      proof (cases rule: v2_apply_log_cases)
        case ignored': ignored
        with Ok x False assms d show ?thesis by (intro ignored) (simp_all add: apply_v2_log_def)
      next
        case (applied d' r0 r1)
        with Ok x False assms d show ?thesis
          by (intro that(2)[of pool' key]) (simp_all add: apply_v2_log_def Let_def)
      qed
    next
      case (Err e)
      with False assms d show ?thesis by (intro failed[of e]) (simp_all add: apply_v2_log_def)
    next
      case Panic
      then show ?thesis using v2_apply_log_no_panic by blast
    qed
  qed
qed

lemma dispatch_log_cases:
  assumes "dispatch_log pu book p l = (book', r)"
  obtains (ok) oc p' where "r = Ok (oc, p')" | (failed) e where "r = Err e" "book' = book"
proof (cases p)
  case (PoolV2 pool)
  obtain b r2 where a: "apply_v2_log book pool l = (b, r2)" by fastforce
  show ?thesis
    by (cases rule: apply_v2_log_cases[OF a]) (use a assms PoolV2 that in auto)
next
  case (PoolV3 pool)
  with assms that v3_apply_log_no_panic[of pu l pool] show ?thesis
    by (cases "v3_apply_log pu l pool") auto
qed

lemma dispatch_log_pools:
  assumes "dispatch_log pu book p l = (book', r)"
  shows "pb_pools book' = pb_pools book"
proof (cases p)
  case (PoolV2 pool)
  obtain b r2 where a: "apply_v2_log book pool l = (b, r2)" by fastforce
  show ?thesis by (cases rule: apply_v2_log_cases[OF a]) (use a assms PoolV2 in auto)
qed (use assms in auto)

lemma dispatch_log_address:
  assumes "dispatch_log pu book p l = (book', Ok (oc, p'))"
  shows "pool_address p' = pool_address p"
proof (cases p)
  case (PoolV2 pool)
  obtain b r2 where a: "apply_v2_log book pool l = (b, r2)" by fastforce
  show ?thesis
    by (cases rule: apply_v2_log_cases[OF a])
      (use a assms PoolV2 in \<open>auto elim!: v2_apply_log_cases simp: v2_restore_def\<close>)
qed (use assms in \<open>auto simp: res_simps elim!: v3_apply_log_cases\<close>)

text \<open>The three ways the book handles a log.\<close>

lemma book_apply_log_cases:
  assumes "book_apply_log pu l book = (book', r)"
  obtains (absent) "book' = book" "r = Ok Ignored"
      "\<forall>a. log_address l = Some a \<longrightarrow> hm_get (pb_pools book) (normalize_address_key a) = None"
  | (ok) a p book2 oc p' where "log_address l = Some a"
      "hm_get (pb_pools book) (normalize_address_key a) = Some p"
      "dispatch_log pu (book\<lparr>pb_pools := hm_remove (normalize_address_key a) (pb_pools book)\<rparr>) p l
        = (book2, Ok (oc, p'))"
      "book' = book2\<lparr>pb_pools := hm_insert (normalize_address_key a) p' (pb_pools book2)\<rparr>" "r = Ok oc"
  | (failed) a p e where "log_address l = Some a"
      "hm_get (pb_pools book) (normalize_address_key a) = Some p"
      "book' = book\<lparr>pb_pools := hm_remove (normalize_address_key a) (pb_pools book)\<rparr>" "r = Err e"
proof (cases "log_address l")
  case None
  with assms absent show ?thesis by (simp add: book_apply_log_def)
next
  case (Some a)
  show ?thesis
  proof (cases "hm_get (pb_pools book) (normalize_address_key a)")
    case None
    with Some assms absent show ?thesis by (simp add: book_apply_log_def Let_def)
  next
    case (Some p)
    let ?b1 = "book\<lparr>pb_pools := hm_remove (normalize_address_key a) (pb_pools book)\<rparr>"
    obtain b2 r2 where d: "dispatch_log pu ?b1 p l = (b2, r2)" by fastforce
    from d show ?thesis
    proof (cases rule: dispatch_log_cases)
      case (ok oc p')
      with d Some \<open>log_address l = Some a\<close> assms show ?thesis
        by (intro that(2)[of a p b2 oc p']) (simp_all add: book_apply_log_def Let_def)
    next
      case (failed e)
      with d Some \<open>log_address l = Some a\<close> assms show ?thesis
        by (intro that(3)[of a p e]) (simp_all add: book_apply_log_def Let_def)
    qed
  qed
qed

lemma book_apply_log_frame:
  assumes "book_apply_log pu l book = (book', r)" "\<forall>a. log_address l = Some a \<longrightarrow> k \<noteq> normalize_address_key a"
  shows "hm_get (pb_pools book') k = hm_get (pb_pools book) k"
  using assms(1)
  by (cases rule: book_apply_log_cases)
    (use assms(2) in \<open>auto simp: hm.get_insert hm.get_remove dest!: dispatch_log_pools\<close>)

section \<open>Every operation keeps the book well formed\<close>

definition history_wf :: "(AppliedLogKey, V2SyncSnapshot) hmap \<Rightarrow> bool" where
  "history_wf h \<longleftrightarrow> hm_wf h \<and> (\<forall>k s. hm_get h k = Some s \<longrightarrow> snapshot_valid s)"

lemma history_wf_insert: "history_wf h \<Longrightarrow> snapshot_valid s \<Longrightarrow> history_wf (hm_insert k s h)"
  by (auto simp: history_wf_def hm.get_insert hm.wf_insert)

lemma history_wf_remove: "history_wf h \<Longrightarrow> history_wf (hm_remove k h)"
  by (auto simp: history_wf_def hm.get_remove hm.wf_remove)

lemma v2_snapshot_valid: "v2_validate p = Ok () \<Longrightarrow> snapshot_valid (v2_snapshot p)"
  by (simp add: snapshot_valid_def v2_snapshot_def v2_validate_Ok_iff word_gt_0)

lemma v2_restore_valid: "v2_validate p = Ok () \<Longrightarrow> snapshot_valid s \<Longrightarrow> v2_validate (v2_restore s p) = Ok ()"
  by (simp add: snapshot_valid_def v2_restore_def v2_validate_Ok_iff word_gt_0)

lemma apply_v2_log_wf:
  assumes "apply_v2_log book pool l = (book', r)" "v2_validate pool = Ok ()"
    and "history_wf (pb_applied_sync_history book)"
  shows "history_wf (pb_applied_sync_history book') \<and> (\<forall>oc p. r = Ok (oc, p) \<longrightarrow> v2_validate p = Ok ())"
  using assms(1)
proof (cases rule: apply_v2_log_cases)
  case (applied key pool')
  with assms show ?thesis
    by (auto intro: history_wf_insert v2_snapshot_valid v2_apply_log_valid)
next
  case (reverted key prev)
  with assms show ?thesis
    by (auto simp: history_wf_def[of "pb_applied_sync_history book"] intro: history_wf_remove v2_restore_valid)
qed (use assms in auto)

lemma dispatch_log_wf:
  assumes "dispatch_log pu book p l = (book', r)" "pool_valid p" "history_wf (pb_applied_sync_history book)"
  shows "history_wf (pb_applied_sync_history book') \<and> (\<forall>oc p'. r = Ok (oc, p') \<longrightarrow> pool_valid p')"
proof (cases p)
  case (PoolV2 pool)
  obtain b r2 where a: "apply_v2_log book pool l = (b, r2)" by fastforce
  from apply_v2_log_wf[OF a] assms PoolV2 a show ?thesis by (auto simp: res_simps)
next
  case (PoolV3 pool)
  with assms show ?thesis by (auto simp: res_simps v3_apply_log_sound)
qed

lemma book_wf_alt:
  "book_wf book \<longleftrightarrow> hm_wf (pb_pools book) \<and> history_wf (pb_applied_sync_history book)
    \<and> (\<forall>k p. hm_get (pb_pools book) k = Some p \<longrightarrow> normalize_address_key (pool_address p) = k \<and> pool_valid p)"
  by (auto simp: book_wf_def history_wf_def)

lemma book_apply_log_wf:
  assumes "book_apply_log pu l book = (book', r)" "book_wf book"
  shows "book_wf book'"
  using assms(1)
proof (cases rule: book_apply_log_cases)
  case (ok a p book2 oc p')
  from assms(2) ok(2) have "pool_valid p" "normalize_address_key (pool_address p) = normalize_address_key a"
    by (auto simp: book_wf_def)
  with dispatch_log_wf[OF ok(3)] dispatch_log_address[OF ok(3)] dispatch_log_pools[OF ok(3)] assms(2)
  show ?thesis
    by (auto simp: ok(4) book_wf_alt hm.get_insert hm.get_remove hm.wf_insert hm.wf_remove split: if_splits)
next
  case (failed a p e)
  with assms(2) show ?thesis
    by (auto simp: book_wf_def hm.get_remove hm.wf_remove split: if_splits)
qed (use assms in auto)

lemma book_wf_new: "book_wf book_new"
  by (simp add: book_wf_def book_new_def)

lemma book_wf_insert_v2: "book_wf book \<Longrightarrow> v2_validate p = Ok () \<Longrightarrow> book_wf (insert_v2_pool p book)"
  by (auto simp: book_wf_def insert_v2_pool_def hm.get_insert hm.wf_insert split: if_splits)

lemma book_wf_insert_v3: "book_wf book \<Longrightarrow> v3_validate p = Ok () \<Longrightarrow> book_wf (insert_v3_pool p book)"
  by (auto simp: book_wf_def insert_v3_pool_def hm.get_insert hm.wf_insert v3_validate_Ok_iff split: if_splits)

text \<open>The life of a book: pools that passed validation are inserted and logs are
  applied, whatever the result of applying them.\<close>

inductive book_reach :: "(string \<Rightarrow> U256 option) \<Rightarrow> PoolBook \<Rightarrow> bool" for pu where
  start: "book_reach pu book_new"
| add_v2: "book_reach pu book \<Longrightarrow> v2_new a pr ex t0 t1 r0 r1 fee = Ok p \<Longrightarrow> book_reach pu (insert_v2_pool p book)"
| add_v3: "book_reach pu book \<Longrightarrow> v3_new a pr ex t0 t1 fee ts sp li tk = Ok p \<Longrightarrow> book_reach pu (insert_v3_pool p book)"
| event: "book_reach pu book \<Longrightarrow> book_apply_log pu l book = (book', r) \<Longrightarrow> book_reach pu book'"

lemma v2_new_valid: "v2_new a pr ex t0 t1 r0 r1 fee = Ok p \<Longrightarrow> v2_validate p = Ok ()"
  by (auto simp: v2_new_def Let_def attempt_eq_Ok)

lemma v3_new_valid: "v3_new a pr ex t0 t1 fee ts sp li tk = Ok p \<Longrightarrow> v3_validate p = Ok ()"
  by (auto simp: v3_new_def Let_def attempt_eq_Ok)

lemma book_reach_wf: "book_reach pu book \<Longrightarrow> book_wf book"
  by (induction rule: book_reach.induct)
    (auto intro: book_wf_new book_wf_insert_v2 book_wf_insert_v3 book_apply_log_wf v2_new_valid v3_new_valid)

section \<open>Books that answer every lookup alike\<close>

definition book_same :: "PoolBook \<Rightarrow> PoolBook \<Rightarrow> bool" where
  "book_same b c \<longleftrightarrow> hm_get (pb_pools b) = hm_get (pb_pools c)
    \<and> hm_get (pb_applied_sync_history b) = hm_get (pb_applied_sync_history c)"

lemma book_same_refl [simp]: "book_same b b"
  by (simp add: book_same_def)

lemma book_same_trans: "book_same a b \<Longrightarrow> book_same b c \<Longrightarrow> book_same a c"
  by (simp add: book_same_def)

lemmas hm_get_fun = hm.get_insert hm.get_remove

lemma book_same_history:
  "book_same b c \<Longrightarrow> book_same (b\<lparr>pb_applied_sync_history := hm_insert k v (pb_applied_sync_history b)\<rparr>)
     (c\<lparr>pb_applied_sync_history := hm_insert k v (pb_applied_sync_history c)\<rparr>)"
  "book_same b c \<Longrightarrow> book_same (b\<lparr>pb_applied_sync_history := hm_remove k (pb_applied_sync_history b)\<rparr>)
     (c\<lparr>pb_applied_sync_history := hm_remove k (pb_applied_sync_history c)\<rparr>)"
  by (auto simp: book_same_def hm_get_fun fun_eq_iff)

lemma book_same_pools:
  "book_same b c \<Longrightarrow> book_same (b\<lparr>pb_pools := hm_insert k v (pb_pools b)\<rparr>) (c\<lparr>pb_pools := hm_insert k v (pb_pools c)\<rparr>)"
  "book_same b c \<Longrightarrow> book_same (b\<lparr>pb_pools := hm_remove k (pb_pools b)\<rparr>) (c\<lparr>pb_pools := hm_remove k (pb_pools c)\<rparr>)"
  by (auto simp: book_same_def hm_get_fun fun_eq_iff)

lemma apply_v2_log_same:
  assumes "book_same b c" "apply_v2_log b pool l = (b', r)"
  shows "\<exists>c'. apply_v2_log c pool l = (c', r) \<and> book_same b' c'"
proof -
  have h: "hm_get (pb_applied_sync_history c) = hm_get (pb_applied_sync_history b)"
    using assms(1) by (simp add: book_same_def)
  show ?thesis using assms
    by (auto simp: apply_v2_log_def Let_def h book_same_history
        split: option.splits if_splits res.splits prod.splits)
qed

lemma dispatch_log_same:
  assumes "book_same b c" "dispatch_log pu b p l = (b', r)"
  shows "\<exists>c'. dispatch_log pu c p l = (c', r) \<and> book_same b' c'"
proof (cases p)
  case (PoolV2 pool)
  obtain b2 r2 where a: "apply_v2_log b pool l = (b2, r2)" by fastforce
  obtain c2 where "apply_v2_log c pool l = (c2, r2)" "book_same b2 c2"
    using apply_v2_log_same[OF assms(1) a] by blast
  with a assms(2) PoolV2 show ?thesis by auto
qed (use assms in auto)

text \<open>Applying a log depends on what the maps contain, never on their iteration
  order.\<close>

lemma book_apply_log_same:
  assumes "book_same b c" "book_apply_log pu l b = (b', r)"
  shows "\<exists>c'. book_apply_log pu l c = (c', r) \<and> book_same b' c'"
proof -
  have g: "hm_get (pb_pools c) = hm_get (pb_pools b)" using assms(1) by (simp add: book_same_def)
  show ?thesis
  proof (cases "\<exists>a p. log_address l = Some a \<and> hm_get (pb_pools b) (normalize_address_key a) = Some p")
    case False
    with assms g show ?thesis by (auto simp: book_apply_log_def Let_def split: option.splits)
  next
    case True
    then obtain a p where a: "log_address l = Some a" "hm_get (pb_pools b) (normalize_address_key a) = Some p"
      by blast
    let ?k = "normalize_address_key a"
    obtain b2 r2 where d: "dispatch_log pu (b\<lparr>pb_pools := hm_remove ?k (pb_pools b)\<rparr>) p l = (b2, r2)" by fastforce
    obtain c2 where "dispatch_log pu (c\<lparr>pb_pools := hm_remove ?k (pb_pools c)\<rparr>) p l = (c2, r2)" "book_same b2 c2"
      using dispatch_log_same[OF book_same_pools(2)[OF assms(1)] d] by blast
    with a d g assms(2) book_same_pools(1)[OF \<open>book_same b2 c2\<close>] show ?thesis
      by (auto simp: book_apply_log_def Let_def split: res.splits)
  qed
qed

section \<open>Undoing logs\<close>

definition withdrawn :: "Log \<Rightarrow> Log" where
  "withdrawn l = l\<lparr>log_removed := Some True\<rparr>"

definition sync_log :: "Log \<Rightarrow> bool" where
  "sync_log l \<longleftrightarrow> (\<exists>d. log_decoded_event l = Some d \<and> de_kind d = V2Sync)"

text \<open>Applying a list of logs, collecting what each of them returned.\<close>

fun run_logs ::
  "(string \<Rightarrow> U256 option) \<Rightarrow> Log list \<Rightarrow> PoolBook \<Rightarrow> PoolBook \<times> (MarketError, MarketEventOutcome) res list" where
  "run_logs pu [] book = (book, [])"
| "run_logs pu (l # ls) book =
    (let (book1, r) = book_apply_log pu l book; (book2, rs) = run_logs pu ls book1 in (book2, r # rs))"

lemma run_logs_append:
  "run_logs pu (xs @ ys) book =
    (let (b1, rs) = run_logs pu xs book; (b2, ss) = run_logs pu ys b1 in (b2, rs @ ss))"
  by (induction xs arbitrary: book) (auto simp: Let_def split: prod.splits)

lemma sync_applied_step:
  assumes "sync_log l" "book_apply_log pu l book = (book1, Ok Applied)"
  obtains a pool pool' key where "log_address l = Some a"
    "hm_get (pb_pools book) (normalize_address_key a) = Some (PoolV2 pool)"
    "v2_apply_log l pool = Ok (Applied, pool')" "applied_log_key l = Ok key"
    "hm_get (pb_pools book1) = (hm_get (pb_pools book))(normalize_address_key a \<mapsto> PoolV2 pool')"
    "hm_get (pb_applied_sync_history book1) = (hm_get (pb_applied_sync_history book))(key \<mapsto> v2_snapshot pool)"
  using assms(2)
proof (cases rule: book_apply_log_cases)
  case (ok a p book2 oc p')
  show ?thesis
  proof (cases p)
    case (PoolV2 pool)
    let ?b = "book\<lparr>pb_pools := hm_remove (normalize_address_key a) (pb_pools book)\<rparr>"
    obtain b r where v: "apply_v2_log ?b pool l = (b, r)" by fastforce
    with ok PoolV2 have r: "r = Ok (Applied, case p' of PoolV2 x \<Rightarrow> x)" "b = book2" "p' = PoolV2 (case p' of PoolV2 x \<Rightarrow> x)"
      by (auto simp: res_simps)
    from v show ?thesis
    proof (cases rule: apply_v2_log_cases)
      case (applied key pool')
      with r ok PoolV2 show ?thesis
        by (intro that[of a pool pool' key]) (auto simp: hm_get_fun fun_eq_iff)
    qed (use r in auto)
  next
    case (PoolV3 pool)
    with ok assms(1) show ?thesis
      by (auto simp: sync_log_def v3_apply_log_def split: option.splits if_splits)
  qed
qed auto

lemma withdrawn_simps [simp]:
  "log_address (withdrawn l) = log_address l" "log_decoded_event (withdrawn l) = log_decoded_event l"
  "applied_log_key (withdrawn l) = applied_log_key l" "log_removed (withdrawn l) = Some True"
  by (simp_all add: withdrawn_def applied_log_key_def)

lemma revert_step:
  assumes "sync_log l" "book_apply_log pu l book = (book1, Ok Applied)"
    and "applied_log_key l = Ok key" "hm_get (pb_applied_sync_history book) key = None"
  shows "\<exists>book2. book_apply_log pu (withdrawn l) book1 = (book2, Ok Outcome_Reverted) \<and> book_same book2 book"
proof -
  obtain a pool pool' where s: "log_address l = Some a"
    "hm_get (pb_pools book) (normalize_address_key a) = Some (PoolV2 pool)"
    "v2_apply_log l pool = Ok (Applied, pool')"
    "hm_get (pb_pools book1) = (hm_get (pb_pools book))(normalize_address_key a \<mapsto> PoolV2 pool')"
    "hm_get (pb_applied_sync_history book1) = (hm_get (pb_applied_sync_history book))(key \<mapsto> v2_snapshot pool)"
    using sync_applied_step[OF assms(1,2)] assms(3) by (metis res.inject(1))
  obtain d where d: "log_decoded_event l = Some d" "de_kind d = V2Sync" using assms(1) by (auto simp: sync_log_def)
  let ?k = "normalize_address_key a"
  let ?b = "book1\<lparr>pb_pools := hm_remove ?k (pb_pools book1)\<rparr>"
  have "apply_v2_log ?b pool' (withdrawn l) =
      (?b\<lparr>pb_applied_sync_history := hm_remove key (pb_applied_sync_history book1)\<rparr>,
       Ok (Outcome_Reverted, pool))"
    using d assms(3) v2_restore_after_sync[OF s(3)] by (simp add: apply_v2_log_def s)
  then have "book_apply_log pu (withdrawn l) book1 =
      (?b\<lparr>pb_applied_sync_history := hm_remove key (pb_applied_sync_history book1),
          pb_pools := hm_insert ?k (PoolV2 pool) (hm_remove ?k (pb_pools book1))\<rparr>, Ok Outcome_Reverted)"
    by (simp add: book_apply_log_def s Let_def)
  then show ?thesis using s assms(4)
    by (auto simp: book_same_def hm_get_fun fun_eq_iff)
qed

lemma run_logs_Cons_Applied:
  assumes "run_logs pu (l # ls) book = (book', replicate (Suc n) (Ok x))"
  obtains book1 where "book_apply_log pu l book = (book1, Ok x)"
    "run_logs pu ls book1 = (book', replicate n (Ok x))"
  using assms by (auto split: prod.splits)

lemma run_logs_same:
  assumes "book_same b c" "run_logs pu ls b = (b', rs)"
  shows "\<exists>c'. run_logs pu ls c = (c', rs) \<and> book_same b' c'"
  using assms
proof (induction ls arbitrary: b c rs)
  case (Cons l ls)
  obtain b1 r where b1: "book_apply_log pu l b = (b1, r)" by fastforce
  obtain c1 where c1: "book_apply_log pu l c = (c1, r)" "book_same b1 c1"
    using book_apply_log_same[OF Cons.prems(1) b1] by blast
  obtain rs' where rs: "run_logs pu ls b1 = (b', rs')" "rs = r # rs'"
    using Cons.prems(2) b1 by (auto split: prod.splits)
  show ?case using Cons.IH[OF c1(2) rs(1)] c1(1) rs(2) by auto
qed simp

section \<open>Address keys\<close>

lemma ws_byte_range: "ws_byte c \<Longrightarrow> (of_char c :: nat) \<le> 32 \<or> 128 \<le> (of_char c :: nat)"
  by (auto simp: ws_byte_def white_space_def)

definition hex_text :: "string \<Rightarrow> bool" where
  "hex_text h \<longleftrightarrow> (\<forall>c \<in> set h. digit_val 16 c \<noteq> None)"

lemma hex_digit_not_ws: "digit_val 16 c \<noteq> None \<Longrightarrow> \<not> ws_byte c"
  by (auto simp: digit_val_def Let_def dest!: ws_byte_range split: if_splits)

lemma normalize_hex:
  assumes "hex_text h"
  shows "normalize_address_key (''0x'' @ h) = ''0x'' @ to_ascii_lowercase h"
proof -
  have x: "\<not> ws_byte (CHR ''0'')" "\<not> ws_byte (CHR ''x'')"
    by (auto dest!: ws_byte_range)
  have "last (''0x'' @ h) = CHR ''x'' \<or> last (''0x'' @ h) \<in> set h"
    by (cases h rule: rev_cases) auto
  then have "\<not> ws_byte (last (''0x'' @ h))"
    using assms x hex_digit_not_ws by (auto simp: hex_text_def)
  then have "trim (''0x'' @ h) = ''0x'' @ h"
    using x by (intro trim_id) simp
  then show ?thesis by (simp add: normalize_address_key_def strip_prefix_def)
qed

section \<open>Sample data\<close>

definition sample_raw :: RawPayloadSummary where
  "sample_raw = \<lparr>raw_message_type = Raw_Log, raw_payload_size_bytes = 0, raw_fingerprint = None,
    raw_subscription = None\<rparr>"

definition sample_metadata :: Metadata where
  "sample_metadata = \<lparr>md_block_context = Block_At 7 None, md_channel = Ws, md_observed_at_ms = 0,
    md_chain_id = 8453, md_tx_hash = Some ''0xt1'', md_decode_status = Decoded, md_raw = sample_raw\<rparr>"

definition sample_sync :: DecodedLogEvent where
  "sample_sync = \<lparr>de_kind = V2Sync, de_pool = None, de_sender = None, de_recipient = None, de_owner = None,
    de_reserve0 = Some 1100000, de_reserve1 = Some 1900000, de_amount0_in = None, de_amount1_in = None,
    de_amount0_out = None, de_amount1_out = None, de_amount0 = None, de_amount1 = None, de_liquidity = None,
    de_sqrt_price_x96 = None, de_tick = None, de_tick_lower = None, de_tick_upper = None,
    de_protocol = None, de_exchange = None\<rparr>"

definition sample_sync_log :: Log where
  "sample_sync_log = \<lparr>log_metadata = sample_metadata, log_address = Some ''0xPOOL'', log_topics = [],
    log_data = None, log_event_signature = None, log_decoded_event = Some sample_sync, log_protocol = None,
    log_exchange = None, log_log_index = Some 3, log_removed = None\<rparr>"

definition sample_book :: PoolBook where
  "sample_book = insert_v2_pool sample_v2 book_new"

lemma sample_keys:
  "normalize_address_key ''0xpool'' = ''0xpool''" "normalize_address_key ''0xPOOL'' = ''0xpool''"
  "eq_ignore_ascii_case ''0xPOOL'' ''0xpool''"
  by code_simp+

lemma sample_sync_applies: "\<exists>book'. book_apply_log pu sample_sync_log sample_book = (book', Ok Applied)"
  by (simp add: book_apply_log_def sample_sync_log_def sample_book_def insert_v2_pool_def book_new_def
      sample_v2_def sample_keys hm_insert_def hm_get_def apply_v2_log_def sample_sync_def applied_log_key_def
      sample_metadata_def v2_apply_log_def v2_apply_sync_def Let_def)

section \<open>Properties of the book\<close>

text \<open>C6: withdrawing logs in the reverse order of their application undoes them.
  If a list of V2 \<open>Sync\<close> logs with distinct, unused identities has been applied,
  then feeding the same logs back as removed, last first, succeeds on every one
  of them and leaves a book that answers every pool and history lookup as the
  original did.\<close>

theorem reorg_undo_restores_book:
  assumes "\<forall>l \<in> set ls. sync_log l" "distinct (map applied_log_key ls)"
    and "\<forall>l \<in> set ls. \<forall>k. applied_log_key l = Ok k \<longrightarrow> hm_get (pb_applied_sync_history book) k = None"
    and "run_logs pu ls book = (book', replicate (length ls) (Ok Applied))"
  shows "\<exists>book''. run_logs pu (map withdrawn (rev ls)) book' = (book'', replicate (length ls) (Ok Outcome_Reverted))
    \<and> book_same book'' book"
  using assms
proof (induction ls arbitrary: book)
  case (Cons l ls)
  obtain book1 where b1: "book_apply_log pu l book = (book1, Ok Applied)"
    "run_logs pu ls book1 = (book', replicate (length ls) (Ok Applied))"
    using Cons.prems(4) by (auto split: prod.splits)
  obtain key s where key: "applied_log_key l = Ok key"
    and h1: "hm_get (pb_applied_sync_history book1) = (hm_get (pb_applied_sync_history book))(key \<mapsto> s)"
    using sync_applied_step[OF _ b1(1)] Cons.prems(1) by (metis list.set_intros(1))
  have fresh: "\<forall>m \<in> set ls. \<forall>k. applied_log_key m = Ok k \<longrightarrow> hm_get (pb_applied_sync_history book1) k = None"
    using Cons.prems(2,3) key by (auto simp: h1) (metis image_eqI)
  have d: "distinct (map applied_log_key ls)" and sl: "\<forall>l \<in> set ls. sync_log l"
    using Cons.prems(1,2) by simp_all
  obtain b2 where b2: "run_logs pu (map withdrawn (rev ls)) book' = (b2, replicate (length ls) (Ok Outcome_Reverted))"
    "book_same b2 book1"
    using Cons.IH[OF sl d fresh b1(2)] by blast
  obtain b3 where b3: "book_apply_log pu (withdrawn l) book1 = (b3, Ok Outcome_Reverted)" "book_same b3 book"
    using revert_step[OF _ b1(1) key] Cons.prems(1,3) key by auto
  have "book_same book1 b2" using b2(2) by (simp add: book_same_def)
  then obtain b4 where "book_apply_log pu (withdrawn l) b2 = (b4, Ok Outcome_Reverted)" "book_same b3 b4"
    using book_apply_log_same[OF _ b3(1)] by blast
  then show ?case using b2(1) b3(2)
    by (auto simp: run_logs_append replicate_append_same book_same_def)
qed simp

theorem reorg_undo_restores_book_witness:
  "\<exists>book' book''. run_logs (\<lambda>_. None) [sample_sync_log] sample_book = (book', [Ok Applied]) \<and>
    run_logs (\<lambda>_. None) [withdrawn sample_sync_log] book' = (book'', [Ok Outcome_Reverted]) \<and>
    book_same book'' sample_book"
proof -
  obtain book' where b: "book_apply_log (\<lambda>_. None) sample_sync_log sample_book = (book', Ok Applied)"
    using sample_sync_applies by blast
  have s: "sync_log sample_sync_log" by (simp add: sync_log_def sample_sync_log_def sample_sync_def)
  have h: "pb_applied_sync_history sample_book = []"
    by (simp add: sample_book_def insert_v2_pool_def book_new_def)
  have "\<exists>book''. run_logs (\<lambda>_. None) (map withdrawn (rev [sample_sync_log])) book'
      = (book'', replicate (length [sample_sync_log]) (Ok Outcome_Reverted)) \<and> book_same book'' sample_book"
    by (rule reorg_undo_restores_book) (simp_all add: b s h)
  then show ?thesis using b by auto
qed

text \<open>C11: whatever validated pools were inserted and whatever logs were applied,
  failing ones included, a pool found in the book is stored under its own
  normalised address, satisfies its validation invariant, and quotes any token
  and amount without a panic.\<close>

theorem reachable_book_quotes_safely:
  assumes "book_reach pu book" "book_pool book a = Some p"
  shows "normalize_address_key (pool_address p) = normalize_address_key a \<and> pool_valid p
    \<and> pool_quote_exact_in p t x \<noteq> Panic"
proof -
  have "pool_valid p" "normalize_address_key (pool_address p) = normalize_address_key a"
    using book_reach_wf[OF assms(1)] assms(2) by (auto simp: book_wf_def book_pool_def)
  then show ?thesis by (cases p) (auto simp: v2p.quote_no_panic v3p.quote_no_panic)
qed

theorem reachable_book_quotes_safely_witness:
  "book_pool sample_book ''0xPOOL'' = Some (PoolV2 sample_v2) \<and>
    pool_quote_exact_in (PoolV2 sample_v2) ''0xBB'' 5 \<noteq> Panic"
proof -
  have "v2_new ''0xpool'' UniswapV2 None ''0xAA'' ''0xBB'' 1000000 2000000 30 = Ok sample_v2"
    by (simp add: v2_new_def v2_validate_def BPS_DENOMINATOR_def word_eval sample_v2_def)
  then have r: "book_reach (\<lambda>_. None) sample_book"
    unfolding sample_book_def by (intro book_reach.add_v2 book_reach.start)
  have p: "book_pool sample_book ''0xPOOL'' = Some (PoolV2 sample_v2)"
    by (simp add: book_pool_def sample_book_def insert_v2_pool_def sample_keys sample_v2_def hm.get_insert)
  from reachable_book_quotes_safely[OF r p] p show ?thesis by blast
qed

text \<open>When applying a log fails, the pool it addresses is gone from the book,
  although it was there before, and every other pool is untouched.\<close>

theorem apply_log_error_drops_pool:
  assumes "book_apply_log pu l book = (book', Err e)"
  shows "\<exists>a p. log_address l = Some a \<and> book_pool book a = Some p \<and> book_pool book' a = None
    \<and> (\<forall>b. normalize_address_key b \<noteq> normalize_address_key a \<longrightarrow> book_pool book' b = book_pool book b)"
  using assms by (cases rule: book_apply_log_cases) (auto simp: book_pool_def hm.get_remove)

definition sample_unidentified_log :: Log where
  "sample_unidentified_log = sample_sync_log\<lparr>log_log_index := None\<rparr>"

theorem apply_log_error_drops_pool_witness:
  "\<exists>book'. book_apply_log (\<lambda>_. None) sample_unidentified_log sample_book = (book', Err MissingLogIdentity) \<and>
    book_pool sample_book ''0xPOOL'' \<noteq> None \<and> book_pool book' ''0xPOOL'' = None"
proof -
  obtain book' where b: "book_apply_log (\<lambda>_. None) sample_unidentified_log sample_book = (book', Err MissingLogIdentity)"
    by (simp add: book_apply_log_def sample_unidentified_log_def sample_sync_log_def sample_book_def
        insert_v2_pool_def book_new_def sample_v2_def sample_keys hm_insert_def hm_get_def apply_v2_log_def
        sample_sync_def applied_log_key_def sample_metadata_def Let_def)
  from apply_log_error_drops_pool[OF b] b show ?thesis
    by (auto simp: sample_unidentified_log_def sample_sync_log_def)
qed

text \<open>An inserted pool is found under every spelling of its address: for
  hexadecimal addresses that differ in letter case only, looking one up after
  inserting the other returns the pool, and an address with different digits
  still finds what it found before.\<close>

theorem insert_then_lookup:
  assumes "v2_address p = ''0x'' @ h" "hex_text h" "hex_text g"
  shows "book_pool (insert_v2_pool p book) (''0x'' @ g) =
    (if eq_ignore_ascii_case g h then Some (PoolV2 p) else book_pool book (''0x'' @ g))"
  using assms
  by (simp add: book_pool_def insert_v2_pool_def hm.get_insert normalize_hex[simplified] eq_ignore_ascii_case_def)

theorem insert_then_lookup_witness:
  "book_pool (insert_v2_pool (sample_v2\<lparr>v2_address := ''0xAbC1''\<rparr>) book_new) ''0xaBc1''
    = Some (PoolV2 (sample_v2\<lparr>v2_address := ''0xAbC1''\<rparr>))"
proof -
  have h: "hex_text ''AbC1''" "hex_text ''aBc1''" "eq_ignore_ascii_case ''aBc1'' ''AbC1''" by code_simp+
  from insert_then_lookup[OF _ h(1,2), of "sample_v2\<lparr>v2_address := ''0xAbC1''\<rparr>" book_new] h(3)
  show ?thesis by simp
qed

end
