(* ===== verification/Config.thy ===== *)
theory Config
  imports Types
begin

text \<open>
  Runtime configuration (\<open>src/crates/config/src/lib.rs\<close>).  The process environment
  is a function \<open>env\<close> from variable names to their text; every \<open>from_env\<close> reads its
  variables in the source's order and stops at the first error.  The syntax of
  socket addresses is the parameter \<open>parse_sock\<close>.
\<close>

type_synonym environment = "string \<Rightarrow> string option"

datatype ConfigError =
    MissingRequired string string
  | InvalidValue string string string
  | Validation string

datatype ExecutionMode = Shadow | Canary | Live

record IngestConfig =
  ic_chain_id :: u64
  ic_channel :: Channel
  ic_ipc_file_path :: "string option"
  ic_ws_url :: "string option"
  ic_flashblocks_ws_url :: "string option"
  ic_subscribe_transactions :: bool
  ic_subscribe_logs :: bool
  ic_subscribe_blocks :: bool
  ic_subscribe_flashblocks :: bool
  ic_reconnect_initial_ms :: u64
  ic_reconnect_max_ms :: u64
  ic_heartbeat_timeout_secs :: u64
  ic_dedup_cache_size :: usize
  ic_event_channel_capacity :: usize
  ic_runtime_channel_capacity :: usize

record RpcConfig =
  rp_chain_id :: u64
  rp_http_url :: "string option"
  rp_ws_url :: "string option"
  rp_ipc_file_path :: "string option"
  rp_flashblocks_ws_url :: "string option"
  rp_multicall3_address :: "string option"
  rp_retry_initial_ms :: u64
  rp_retry_max_ms :: u64
  rp_request_timeout_ms :: u64

record SignerConfig =
  sg_private_key :: "string option"
  sg_keystore_path :: "string option"
  sg_keystore_password :: "string option"
  sg_aws_kms_key_id :: "string option"

record DecisionConfig =
  dc_max_route_hops :: usize
  dc_max_candidate_routes :: usize
  dc_min_net_profit_wei :: string
  dc_kill_switch_path :: "string option"
  dc_settlement_token :: "string option"
  dc_scan_trade_amount_wei :: "string option"
  dc_v2_bootstrap_path :: "string option"
  dc_simulation_gas_estimate :: u64
  dc_simulation_gas_cost_wei :: string
  dc_simulation_l1_data_fee_wei :: string

record RiskConfig =
  rk_min_net_profit_wei :: string
  rk_min_profit_bps :: u32
  rk_max_trade_notional_wei :: "string option"
  rk_max_per_block_notional_wei :: "string option"
  rk_max_daily_notional_wei :: "string option"
  rk_max_slippage_bps :: u32
  rk_token_allowlist :: "string list"
  rk_token_denylist :: "string list"
  rk_max_consecutive_reverts :: u32
  rk_kill_switch_path :: "string option"

record ExecutionConfig =
  ex_mode :: ExecutionMode
  ex_submit_timeout_secs :: u64
  ex_receipt_timeout_secs :: u64
  ex_router_address :: "string option"
  ex_canary_max_trade_wei :: "string option"
  ex_canary_max_daily_wei :: "string option"
  ex_gas_limit_multiplier_bps :: u32
  ex_max_fee_per_gas_wei :: "string option"
  ex_max_priority_fee_per_gas_wei :: "string option"
  ex_plan_deadline_secs :: u64
  ex_use_flashloan :: bool
  ex_ethcall_preflight_required :: bool
  ex_ethcall_timeout_secs :: u64

record StorageConfig =
  sc_database_url :: "string option"
  sc_max_connections :: u32
  sc_connect_timeout_secs :: u64
  sc_auto_migrate :: bool

record 'sock MetricsConfig =
  mc_enabled :: bool
  mc_log_level :: string
  mc_healthz_bind_addr :: 'sock
  mc_prometheus_bind_addr :: "'sock option"

record DiscoveryConfig =
  di_enabled :: bool
  di_factories_path :: "string option"
  di_multicall3_address :: "string option"
  di_pinned_head_block :: "u64 option"

record 'sock AppConfig =
  ac_ingest :: IngestConfig
  ac_rpc :: RpcConfig
  ac_signer :: SignerConfig
  ac_decision :: DecisionConfig
  ac_risk :: RiskConfig
  ac_execution :: ExecutionConfig
  ac_storage :: StorageConfig
  ac_metrics :: "'sock MetricsConfig"
  ac_discovery :: DiscoveryConfig

section \<open>Reading variables\<close>

definition optional_non_empty_any :: "environment \<Rightarrow> string list \<Rightarrow> string option" where
  "optional_non_empty_any env keys =
    find_map (\<lambda>key. case env key of
        None \<Rightarrow> None
      | Some value \<Rightarrow> (let v = trim value in if v = [] then None else Some v)) keys"

definition required_var_any :: "environment \<Rightarrow> string list \<Rightarrow> (ConfigError, string) res" where
  "required_var_any env keys =
    ok_or (MissingRequired (hd keys) ''value is required'')
      (find_map (\<lambda>key. optional_non_empty_any env [key]) keys)"

definition string_var_any :: "environment \<Rightarrow> string list \<Rightarrow> string \<Rightarrow> (ConfigError, string) res" where
  "string_var_any env keys dflt =
    Ok (case optional_non_empty_any env keys of Some v \<Rightarrow> v | None \<Rightarrow> dflt)"

definition bool_var_any :: "environment \<Rightarrow> string list \<Rightarrow> bool \<Rightarrow> (ConfigError, bool) res" where
  "bool_var_any env keys dflt =
    (case optional_non_empty_any env keys of
       None \<Rightarrow> Ok dflt
     | Some value \<Rightarrow>
         let v = to_ascii_lowercase value in
         if v \<in> {''true'', ''1'', ''yes'', ''on''} then Ok True
         else if v \<in> {''false'', ''0'', ''no'', ''off''} then Ok False
         else Err (InvalidValue (hd keys) value ''expected a boolean value''))"

text \<open>\<open>split\<close> at every comma and every white-space character.\<close>

function csv_split :: "string \<Rightarrow> string \<Rightarrow> string list" where
  "csv_split acc [] = [rev acc]"
| "csv_split acc (c # cs) =
    (if c = CHR '','' then rev acc # csv_split [] cs
     else case strip_any white_space (c # cs) of
       Some rest \<Rightarrow> rev acc # csv_split [] rest
     | None \<Rightarrow> csv_split (c # acc) cs)"
  by pat_completeness auto

termination csv_split
  by (relation "measure (length \<circ> snd)") (auto dest: strip_any_shorter)

definition csv_var_any :: "environment \<Rightarrow> string list \<Rightarrow> string list" where
  "csv_var_any env keys =
    (case optional_non_empty_any env keys of
       None \<Rightarrow> []
     | Some raw \<Rightarrow> map to_ascii_lowercase (filter (\<lambda>s. s \<noteq> []) (map trim (csv_split [] raw))))"

definition u64_var_any :: "environment \<Rightarrow> string list \<Rightarrow> u64 \<Rightarrow> (ConfigError, u64) res" where
  "u64_var_any env keys dflt =
    (case optional_non_empty_any env keys of
       None \<Rightarrow> Ok dflt
     | Some value \<Rightarrow> ok_or (InvalidValue (hd keys) value ''expected an unsigned integer'') (parse_uint value))"

definition u32_var_any :: "environment \<Rightarrow> string list \<Rightarrow> u32 \<Rightarrow> (ConfigError, u32) res" where
  "u32_var_any env keys dflt =
    (case optional_non_empty_any env keys of
       None \<Rightarrow> Ok dflt
     | Some value \<Rightarrow> ok_or (InvalidValue (hd keys) value ''expected an unsigned integer'') (parse_uint value))"

definition usize_var_any :: "environment \<Rightarrow> string list \<Rightarrow> usize \<Rightarrow> (ConfigError, usize) res" where
  "usize_var_any env keys dflt =
    (case optional_non_empty_any env keys of
       None \<Rightarrow> Ok dflt
     | Some value \<Rightarrow> ok_or (InvalidValue (hd keys) value ''expected a positive integer'') (parse_uint value))"

definition parse_socket_addr :: "(string \<Rightarrow> 'sock option) \<Rightarrow> string \<Rightarrow> string \<Rightarrow> (ConfigError, 'sock) res" where
  "parse_socket_addr parse_sock key value =
    ok_or (InvalidValue key value ''expected a socket address like 127.0.0.1:9000'') (parse_sock value)"

definition socket_addr_var_any ::
  "(string \<Rightarrow> 'sock option) \<Rightarrow> environment \<Rightarrow> string list \<Rightarrow> string \<Rightarrow> (ConfigError, 'sock) res" where
  "socket_addr_var_any parse_sock env keys dflt =
    parse_socket_addr parse_sock (hd keys)
      (case optional_non_empty_any env keys of Some v \<Rightarrow> v | None \<Rightarrow> dflt)"

definition parse_channel :: "string \<Rightarrow> (ConfigError, Channel) res" where
  "parse_channel value =
    (let v = to_ascii_lowercase (trim value) in
     if v = ''ipc'' then Ok Ipc
     else if v \<in> {''ws'', ''websocket''} then Ok Ws
     else Err (InvalidValue ''INGEST_CHANNEL'' value ''expected `ipc` or `ws`''))"

definition parse_execution_mode :: "string \<Rightarrow> (ConfigError, ExecutionMode) res" where
  "parse_execution_mode value =
    (let v = to_ascii_lowercase (trim value) in
     if v \<in> {''shadow'', ''research''} then Ok Shadow
     else if v = ''canary'' then Ok Canary
     else if v = ''live'' then Ok Live
     else Err (InvalidValue ''EXECUTION_MODE'' value ''expected `shadow`, `canary`, or `live`''))"

definition parse_u128 :: "string \<Rightarrow> string \<Rightarrow> (ConfigError, u128) res" where
  "parse_u128 key value =
    ok_or (InvalidValue key value
      ''expected an unsigned 128-bit integer encoded as a base-10 string'') (parse_uint value)"

definition validate_positive_u64 :: "u64 \<Rightarrow> string \<Rightarrow> (ConfigError, unit) res" where
  "validate_positive_u64 value message = (if value = 0 then Err (Validation message) else Ok ())"

definition validate_positive_usize :: "usize \<Rightarrow> string \<Rightarrow> (ConfigError, unit) res" where
  "validate_positive_usize value message = (if value = 0 then Err (Validation message) else Ok ())"

definition validate_backoff :: "u64 \<Rightarrow> u64 \<Rightarrow> string \<Rightarrow> string \<Rightarrow> (ConfigError, unit) res" where
  "validate_backoff initial mx initial_key max_key =
    (if initial = 0 then
       Err (Validation
         (if initial_key = ''INGEST_RECONNECT_INITIAL_MS''
          then ''INGEST_RECONNECT_INITIAL_MS must be greater than zero''
          else ''initial backoff must be greater than zero''))
     else if mx < initial then
       Err (Validation
         (if max_key = ''INGEST_RECONNECT_MAX_MS''
          then ''INGEST_RECONNECT_MAX_MS must be greater than or equal to INGEST_RECONNECT_INITIAL_MS''
          else if max_key = ''RPC_RETRY_MAX_MS''
          then ''RPC_RETRY_MAX_MS must be greater than or equal to RPC_RETRY_INITIAL_MS''
          else ''maximum backoff must be greater than or equal to initial backoff''))
     else Ok ())"

definition is_valid_address :: "string \<Rightarrow> bool" where
  "is_valid_address value =
    (let trimmed = (case strip_prefix ''0x'' value of Some h \<Rightarrow> h | None \<Rightarrow> value)
     in length trimmed = 40 \<and> (\<forall>c \<in> set trimmed. digit_val 16 c \<noteq> None))"

section \<open>Validation\<close>

definition ingest_validate :: "IngestConfig \<Rightarrow> (ConfigError, unit) res" where
  "ingest_validate c =
    (if ic_chain_id c = 0
     then Err (Validation ''INGEST_CHAIN_ID / BASE_CHAIN_ID must be greater than zero'')
     else if ic_channel c = Ipc \<and> ic_ipc_file_path c = None
     then Err (MissingRequired ''INGEST_IPC_FILE_PATH'' ''INGEST_CHANNEL=ipc requires an IPC file path'')
     else if ic_channel c = Ws \<and> ic_ws_url c = None
     then Err (MissingRequired ''INGEST_WS_URL'' ''INGEST_CHANNEL=ws requires a websocket URL'')
     else if \<not> ic_subscribe_transactions c \<and> \<not> ic_subscribe_logs c \<and> \<not> ic_subscribe_blocks c
     then Err (Validation ''at least one ingest subscription must be enabled'')
     else if ic_subscribe_flashblocks c \<and> ic_flashblocks_ws_url c = None
     then Err (MissingRequired ''INGEST_FLASHBLOCKS_WS_URL''
       ''INGEST_SUBSCRIBE_FLASHBLOCKS=true requires a flashblocks websocket URL'')
     else
       attempt (validate_backoff (ic_reconnect_initial_ms c) (ic_reconnect_max_ms c)
         ''INGEST_RECONNECT_INITIAL_MS'' ''INGEST_RECONNECT_MAX_MS'') (\<lambda>_.
       attempt (validate_positive_u64 (ic_heartbeat_timeout_secs c)
         ''INGEST_HEARTBEAT_TIMEOUT_SECS must be greater than zero'') (\<lambda>_.
       attempt (validate_positive_usize (ic_dedup_cache_size c)
         ''INGEST_DEDUP_CACHE_SIZE must be greater than zero'') (\<lambda>_.
       attempt (validate_positive_usize (ic_event_channel_capacity c)
         ''INGEST_EVENT_CHANNEL_CAPACITY must be greater than zero'') (\<lambda>_.
       validate_positive_usize (ic_runtime_channel_capacity c)
         ''INGEST_RUNTIME_CHANNEL_CAPACITY must be greater than zero'')))))"

definition rpc_validate :: "RpcConfig \<Rightarrow> (ConfigError, unit) res" where
  "rpc_validate c =
    (if rp_chain_id c = 0
     then Err (Validation ''RPC_CHAIN_ID / BASE_CHAIN_ID must be greater than zero'')
     else if rp_http_url c = None \<and> rp_ws_url c = None \<and> rp_ipc_file_path c = None
     then Err (Validation
       ''at least one of RPC_HTTP_URL, RPC_WS_URL, or RPC_IPC_FILE_PATH must be configured'')
     else
       attempt (validate_backoff (rp_retry_initial_ms c) (rp_retry_max_ms c)
         ''RPC_RETRY_INITIAL_MS'' ''RPC_RETRY_MAX_MS'') (\<lambda>_.
       validate_positive_u64 (rp_request_timeout_ms c) ''RPC_REQUEST_TIMEOUT_MS must be greater than zero''))"

definition signer_validate :: "ExecutionConfig \<Rightarrow> SignerConfig \<Rightarrow> (ConfigError, unit) res" where
  "signer_validate execution c =
    (if ex_mode execution = Shadow then Ok ()
     else if sg_private_key c = None \<and> sg_keystore_path c = None \<and> sg_aws_kms_key_id c = None
     then Err (Validation ''live/canary execution requires a signer source'')
     else Ok ())"

definition decision_validate :: "DecisionConfig \<Rightarrow> (ConfigError, unit) res" where
  "decision_validate c =
    attempt (validate_positive_usize (dc_max_route_hops c)
      ''DECISION_MAX_ROUTE_HOPS / MAX_ROUTE_HOPS must be greater than zero'') (\<lambda>_.
    attempt (validate_positive_usize (dc_max_candidate_routes c)
      ''DECISION_MAX_CANDIDATE_ROUTES / MAX_CANDIDATE_ROUTES must be greater than zero'') (\<lambda>_.
    attempt (parse_u128 ''DECISION_MIN_NET_PROFIT_WEI'' (dc_min_net_profit_wei c)) (\<lambda>_.
    attempt (validate_positive_u64 (dc_simulation_gas_estimate c)
      ''DECISION_SIMULATION_GAS_ESTIMATE must be greater than zero'') (\<lambda>_.
    attempt (parse_u128 ''DECISION_SIMULATION_GAS_COST_WEI'' (dc_simulation_gas_cost_wei c)) (\<lambda>_.
    attempt (parse_u128 ''DECISION_SIMULATION_L1_DATA_FEE_WEI'' (dc_simulation_l1_data_fee_wei c)) (\<lambda>_.
    case (dc_settlement_token c, dc_scan_trade_amount_wei c) of
      (Some _, Some amount) \<Rightarrow> attempt (parse_u128 ''DECISION_SCAN_TRADE_AMOUNT_WEI'' amount) (\<lambda>_. Ok ())
    | (None, None) \<Rightarrow> Ok ()
    | (Some _, None) \<Rightarrow> Err (MissingRequired ''DECISION_SCAN_TRADE_AMOUNT_WEI''
        ''decision runtime scanning requires a trade amount when a settlement token is configured'')
    | (None, Some _) \<Rightarrow> Err (MissingRequired ''DECISION_SETTLEMENT_TOKEN''
        ''decision runtime scanning requires a settlement token when a trade amount is configured'')))))))"

definition check_opt_u128 :: "string \<Rightarrow> string option \<Rightarrow> (ConfigError, unit) res" where
  "check_opt_u128 key v = (case v of None \<Rightarrow> Ok () | Some raw \<Rightarrow> attempt (parse_u128 key raw) (\<lambda>_. Ok ()))"

definition risk_validate :: "ExecutionConfig \<Rightarrow> RiskConfig \<Rightarrow> (ConfigError, unit) res" where
  "risk_validate execution c =
    attempt (parse_u128 ''RISK_MIN_NET_PROFIT_WEI'' (rk_min_net_profit_wei c)) (\<lambda>_.
    attempt (check_opt_u128 ''RISK_MAX_TRADE_NOTIONAL_WEI'' (rk_max_trade_notional_wei c)) (\<lambda>_.
    attempt (check_opt_u128 ''RISK_MAX_PER_BLOCK_NOTIONAL_WEI'' (rk_max_per_block_notional_wei c)) (\<lambda>_.
    attempt (check_opt_u128 ''RISK_MAX_DAILY_NOTIONAL_WEI'' (rk_max_daily_notional_wei c)) (\<lambda>_.
    if 10000 < rk_min_profit_bps c then Err (Validation ''RISK_MIN_PROFIT_BPS must be <= 10000'')
    else if 10000 < rk_max_slippage_bps c then Err (Validation ''RISK_MAX_SLIPPAGE_BPS must be <= 10000'')
    else if ex_mode execution \<noteq> Shadow \<and> rk_max_trade_notional_wei c = None
    then Err (MissingRequired ''RISK_MAX_TRADE_NOTIONAL_WEI''
      ''live/canary execution requires a per-trade notional cap'')
    else if ex_mode execution \<noteq> Shadow \<and> rk_max_daily_notional_wei c = None
    then Err (MissingRequired ''RISK_MAX_DAILY_NOTIONAL_WEI''
      ''live/canary execution requires a daily notional cap'')
    else if \<not> (\<forall>token \<in> set (rk_token_allowlist c @ rk_token_denylist c). is_valid_address token)
    then Err (Validation
      ''RISK_TOKEN_ALLOWLIST / RISK_TOKEN_DENYLIST entries must be 0x-prefixed 20-byte addresses'')
    else Ok ()))))"

definition execution_validate :: "ExecutionConfig \<Rightarrow> (ConfigError, unit) res" where
  "execution_validate c =
    attempt (validate_positive_u64 (ex_submit_timeout_secs c)
      ''EXECUTION_SUBMIT_TIMEOUT_SECS must be greater than zero'') (\<lambda>_.
    attempt (validate_positive_u64 (ex_receipt_timeout_secs c)
      ''EXECUTION_RECEIPT_TIMEOUT_SECS must be greater than zero'') (\<lambda>_.
    if ex_gas_limit_multiplier_bps c < 10000
    then Err (Validation ''EXECUTION_GAS_LIMIT_MULTIPLIER_BPS must be at least 10000'')
    else
      attempt (validate_positive_u64 (ex_plan_deadline_secs c)
        ''EXECUTION_PLAN_DEADLINE_SECS must be greater than zero'') (\<lambda>_.
      attempt (validate_positive_u64 (ex_ethcall_timeout_secs c)
        ''EXECUTION_ETHCALL_TIMEOUT_SECS must be greater than zero'') (\<lambda>_.
      if ex_mode c \<noteq> Shadow \<and> ex_router_address c = None
      then Err (MissingRequired ''EXECUTION_ROUTER_ADDRESS''
        ''live/canary execution requires a deployed execution router address'')
      else
        attempt (check_opt_u128 ''EXECUTION_MAX_FEE_PER_GAS_WEI'' (ex_max_fee_per_gas_wei c)) (\<lambda>_.
        attempt (check_opt_u128 ''EXECUTION_MAX_PRIORITY_FEE_PER_GAS_WEI'' (ex_max_priority_fee_per_gas_wei c)) (\<lambda>_.
        if ex_mode c = Canary then
          attempt (ok_or (MissingRequired ''EXECUTION_CANARY_MAX_TRADE_WEI''
            ''canary mode requires a per-trade limit'') (ex_canary_max_trade_wei c)) (\<lambda>max_trade.
          attempt (ok_or (MissingRequired ''EXECUTION_CANARY_MAX_DAILY_WEI''
            ''canary mode requires a daily limit'') (ex_canary_max_daily_wei c)) (\<lambda>max_daily.
          attempt (parse_u128 ''EXECUTION_CANARY_MAX_TRADE_WEI'' max_trade) (\<lambda>_.
          attempt (parse_u128 ''EXECUTION_CANARY_MAX_DAILY_WEI'' max_daily) (\<lambda>_.
          Ok ()))))
        else Ok ()))))))"

definition storage_validate :: "StorageConfig \<Rightarrow> (ConfigError, unit) res" where
  "storage_validate c =
    (if sc_database_url c = None then Ok ()
     else if sc_max_connections c = 0
     then Err (Validation ''STORAGE_MAX_CONNECTIONS must be greater than zero'')
     else validate_positive_u64 (sc_connect_timeout_secs c)
       ''STORAGE_CONNECT_TIMEOUT_SECS must be greater than zero'')"

definition metrics_validate :: "'sock MetricsConfig \<Rightarrow> (ConfigError, unit) res" where
  "metrics_validate c =
    (if trim (mc_log_level c) = [] then Err (Validation ''LOG_LEVEL must not be empty'') else Ok ())"

definition discovery_validate :: "DiscoveryConfig \<Rightarrow> (ConfigError, unit) res" where
  "discovery_validate c =
    (if \<not> di_enabled c then Ok ()
     else if (case di_factories_path c of Some v \<Rightarrow> v | None \<Rightarrow> []) = []
     then Err (Validation ''DISCOVERY_FACTORIES_PATH is required when DISCOVERY_ENABLED=true'')
     else if (case di_multicall3_address c of Some v \<Rightarrow> v | None \<Rightarrow> []) = []
     then Err (Validation ''DISCOVERY_MULTICALL3_ADDRESS is required when DISCOVERY_ENABLED=true'')
     else Ok ())"

definition app_validate :: "'sock AppConfig \<Rightarrow> (ConfigError, unit) res" where
  "app_validate c =
    attempt (ingest_validate (ac_ingest c)) (\<lambda>_.
    attempt (rpc_validate (ac_rpc c)) (\<lambda>_.
    attempt (signer_validate (ac_execution c) (ac_signer c)) (\<lambda>_.
    attempt (decision_validate (ac_decision c)) (\<lambda>_.
    attempt (risk_validate (ac_execution c) (ac_risk c)) (\<lambda>_.
    attempt (execution_validate (ac_execution c)) (\<lambda>_.
    attempt (storage_validate (ac_storage c)) (\<lambda>_.
    attempt (metrics_validate (ac_metrics c)) (\<lambda>_.
    discovery_validate (ac_discovery c)))))))))"

section \<open>Loading from the environment\<close>

definition ingest_from_env :: "environment \<Rightarrow> (ConfigError, IngestConfig) res" where
  "ingest_from_env env =
    attempt (required_var_any env [''INGEST_CHANNEL'', ''BASE_TRANSPORT'']) (\<lambda>raw_channel.
    attempt (parse_channel raw_channel) (\<lambda>channel.
    attempt (u64_var_any env [''INGEST_CHAIN_ID'', ''BASE_CHAIN_ID''] 8453) (\<lambda>chain_id.
    attempt (bool_var_any env [''INGEST_SUBSCRIBE_TRANSACTIONS'', ''FLASHBLOCKS_SUBSCRIBE_TRANSACTIONS''] True) (\<lambda>txs.
    attempt (bool_var_any env [''INGEST_SUBSCRIBE_LOGS'', ''FLASHBLOCKS_SUBSCRIBE_PENDING_LOGS''] True) (\<lambda>logs.
    attempt (bool_var_any env [''INGEST_SUBSCRIBE_BLOCKS''] True) (\<lambda>blocks.
    attempt (bool_var_any env [''INGEST_SUBSCRIBE_FLASHBLOCKS''] False) (\<lambda>flashblocks.
    attempt (u64_var_any env [''INGEST_RECONNECT_INITIAL_MS''] 500) (\<lambda>initial.
    attempt (u64_var_any env [''INGEST_RECONNECT_MAX_MS''] 10000) (\<lambda>mx.
    attempt (u64_var_any env [''INGEST_HEARTBEAT_TIMEOUT_SECS''] 15) (\<lambda>heartbeat.
    attempt (usize_var_any env [''INGEST_DEDUP_CACHE_SIZE''] 50000) (\<lambda>dedup.
    attempt (usize_var_any env [''INGEST_EVENT_CHANNEL_CAPACITY''] 4096) (\<lambda>events.
    attempt (usize_var_any env [''INGEST_RUNTIME_CHANNEL_CAPACITY''] 512) (\<lambda>runtime.
    let config =
       \<lparr>ic_chain_id = chain_id,
        ic_channel = channel,
        ic_ipc_file_path = optional_non_empty_any env [''INGEST_IPC_FILE_PATH'', ''BASE_IPC_PATH''],
        ic_ws_url = optional_non_empty_any env [''INGEST_WS_URL'', ''BASE_WS_URL''],
        ic_flashblocks_ws_url = optional_non_empty_any env [''INGEST_FLASHBLOCKS_WS_URL'', ''FLASHBLOCKS_WS_URL''],
        ic_subscribe_transactions = txs,
        ic_subscribe_logs = logs,
        ic_subscribe_blocks = blocks,
        ic_subscribe_flashblocks = flashblocks,
        ic_reconnect_initial_ms = initial,
        ic_reconnect_max_ms = mx,
        ic_heartbeat_timeout_secs = heartbeat,
        ic_dedup_cache_size = dedup,
        ic_event_channel_capacity = events,
        ic_runtime_channel_capacity = runtime\<rparr>
    in attempt (ingest_validate config) (\<lambda>_. Ok config))))))))))))))"

definition rpc_from_env :: "environment \<Rightarrow> (ConfigError, RpcConfig) res" where
  "rpc_from_env env =
    attempt (u64_var_any env [''RPC_CHAIN_ID'', ''BASE_CHAIN_ID''] 8453) (\<lambda>chain_id.
    attempt (u64_var_any env [''RPC_RETRY_INITIAL_MS''] 250) (\<lambda>initial.
    attempt (u64_var_any env [''RPC_RETRY_MAX_MS''] 5000) (\<lambda>mx.
    attempt (u64_var_any env [''RPC_REQUEST_TIMEOUT_MS''] 5000) (\<lambda>timeout.
    let config =
       \<lparr>rp_chain_id = chain_id,
        rp_http_url = optional_non_empty_any env [''RPC_HTTP_URL'', ''BASE_RPC_URL''],
        rp_ws_url = optional_non_empty_any env [''RPC_WS_URL'', ''BASE_WS_URL''],
        rp_ipc_file_path = optional_non_empty_any env [''RPC_IPC_FILE_PATH'', ''BASE_IPC_PATH''],
        rp_flashblocks_ws_url = optional_non_empty_any env [''RPC_FLASHBLOCKS_WS_URL'', ''FLASHBLOCKS_WS_URL''],
        rp_multicall3_address = optional_non_empty_any env [''RPC_MULTICALL3_ADDRESS''],
        rp_retry_initial_ms = initial,
        rp_retry_max_ms = mx,
        rp_request_timeout_ms = timeout\<rparr>
    in attempt (rpc_validate config) (\<lambda>_. Ok config)))))"

definition signer_from_env :: "environment \<Rightarrow> (ConfigError, SignerConfig) res" where
  "signer_from_env env =
    Ok \<lparr>sg_private_key = optional_non_empty_any env [''SIGNER_PRIVATE_KEY'', ''EXECUTOR_PRIVATE_KEY''],
        sg_keystore_path = optional_non_empty_any env [''SIGNER_KEYSTORE_PATH''],
        sg_keystore_password = optional_non_empty_any env [''SIGNER_KEYSTORE_PASSWORD''],
        sg_aws_kms_key_id = optional_non_empty_any env [''SIGNER_AWS_KMS_KEY_ID'']\<rparr>"

definition decision_from_env :: "environment \<Rightarrow> (ConfigError, DecisionConfig) res" where
  "decision_from_env env =
    attempt (usize_var_any env [''DECISION_MAX_ROUTE_HOPS'', ''MAX_ROUTE_HOPS''] 3) (\<lambda>hops.
    attempt (usize_var_any env [''DECISION_MAX_CANDIDATE_ROUTES'', ''MAX_CANDIDATE_ROUTES''] 16) (\<lambda>routes.
    attempt (string_var_any env [''DECISION_MIN_NET_PROFIT_WEI''] ''0'') (\<lambda>min_profit.
    attempt (u64_var_any env [''DECISION_SIMULATION_GAS_ESTIMATE''] 180000) (\<lambda>gas_estimate.
    attempt (string_var_any env [''DECISION_SIMULATION_GAS_COST_WEI''] ''0'') (\<lambda>gas_cost.
    attempt (string_var_any env [''DECISION_SIMULATION_L1_DATA_FEE_WEI''] ''0'') (\<lambda>l1_fee.
    let config =
       \<lparr>dc_max_route_hops = hops,
        dc_max_candidate_routes = routes,
        dc_min_net_profit_wei = min_profit,
        dc_kill_switch_path = optional_non_empty_any env [''DECISION_KILL_SWITCH_PATH''],
        dc_settlement_token = optional_non_empty_any env [''DECISION_SETTLEMENT_TOKEN''],
        dc_scan_trade_amount_wei = optional_non_empty_any env [''DECISION_SCAN_TRADE_AMOUNT_WEI''],
        dc_v2_bootstrap_path = optional_non_empty_any env [''DECISION_V2_BOOTSTRAP_PATH''],
        dc_simulation_gas_estimate = gas_estimate,
        dc_simulation_gas_cost_wei = gas_cost,
        dc_simulation_l1_data_fee_wei = l1_fee\<rparr>
    in attempt (decision_validate config) (\<lambda>_. Ok config)))))))"

definition risk_from_env :: "environment \<Rightarrow> (ConfigError, RiskConfig) res" where
  "risk_from_env env =
    attempt (string_var_any env [''RISK_MIN_NET_PROFIT_WEI''] ''0'') (\<lambda>min_profit.
    attempt (u32_var_any env [''RISK_MIN_PROFIT_BPS''] 0) (\<lambda>min_bps.
    attempt (u32_var_any env [''RISK_MAX_SLIPPAGE_BPS''] 100) (\<lambda>slippage.
    attempt (u32_var_any env [''RISK_MAX_CONSECUTIVE_REVERTS''] 3) (\<lambda>reverts.
    Ok \<lparr>rk_min_net_profit_wei = min_profit,
        rk_min_profit_bps = min_bps,
        rk_max_trade_notional_wei = optional_non_empty_any env [''RISK_MAX_TRADE_NOTIONAL_WEI''],
        rk_max_per_block_notional_wei = optional_non_empty_any env [''RISK_MAX_PER_BLOCK_NOTIONAL_WEI''],
        rk_max_daily_notional_wei = optional_non_empty_any env [''RISK_MAX_DAILY_NOTIONAL_WEI''],
        rk_max_slippage_bps = slippage,
        rk_token_allowlist = csv_var_any env [''RISK_TOKEN_ALLOWLIST''],
        rk_token_denylist = csv_var_any env [''RISK_TOKEN_DENYLIST''],
        rk_max_consecutive_reverts = reverts,
        rk_kill_switch_path = optional_non_empty_any env [''RISK_KILL_SWITCH_PATH'', ''DECISION_KILL_SWITCH_PATH'']\<rparr>))))"

definition execution_from_env :: "environment \<Rightarrow> (ConfigError, ExecutionConfig) res" where
  "execution_from_env env =
    attempt (string_var_any env [''EXECUTION_MODE'', ''ENGINE_MODE''] ''shadow'') (\<lambda>raw_mode.
    attempt (parse_execution_mode raw_mode) (\<lambda>mode.
    attempt (u64_var_any env [''EXECUTION_SUBMIT_TIMEOUT_SECS''] 30) (\<lambda>submit_timeout.
    attempt (u64_var_any env [''EXECUTION_RECEIPT_TIMEOUT_SECS''] 60) (\<lambda>receipt_timeout.
    attempt (u32_var_any env [''EXECUTION_GAS_LIMIT_MULTIPLIER_BPS''] 12000) (\<lambda>multiplier.
    attempt (u64_var_any env [''EXECUTION_PLAN_DEADLINE_SECS''] 30) (\<lambda>deadline.
    attempt (bool_var_any env [''EXECUTION_USE_FLASHLOAN''] True) (\<lambda>flashloan.
    attempt (bool_var_any env [''EXECUTION_ETHCALL_PREFLIGHT_REQUIRED''] True) (\<lambda>preflight.
    attempt (u64_var_any env [''EXECUTION_ETHCALL_TIMEOUT_SECS''] 5) (\<lambda>ethcall_timeout.
    let config =
       \<lparr>ex_mode = mode,
        ex_submit_timeout_secs = submit_timeout,
        ex_receipt_timeout_secs = receipt_timeout,
        ex_router_address = optional_non_empty_any env [''EXECUTION_ROUTER_ADDRESS''],
        ex_canary_max_trade_wei = optional_non_empty_any env [''EXECUTION_CANARY_MAX_TRADE_WEI''],
        ex_canary_max_daily_wei = optional_non_empty_any env [''EXECUTION_CANARY_MAX_DAILY_WEI''],
        ex_gas_limit_multiplier_bps = multiplier,
        ex_max_fee_per_gas_wei = optional_non_empty_any env [''EXECUTION_MAX_FEE_PER_GAS_WEI''],
        ex_max_priority_fee_per_gas_wei = optional_non_empty_any env [''EXECUTION_MAX_PRIORITY_FEE_PER_GAS_WEI''],
        ex_plan_deadline_secs = deadline,
        ex_use_flashloan = flashloan,
        ex_ethcall_preflight_required = preflight,
        ex_ethcall_timeout_secs = ethcall_timeout\<rparr>
    in attempt (execution_validate config) (\<lambda>_. Ok config))))))))))"

definition storage_from_env :: "environment \<Rightarrow> (ConfigError, StorageConfig) res" where
  "storage_from_env env =
    attempt (u32_var_any env [''STORAGE_MAX_CONNECTIONS''] 10) (\<lambda>conns.
    attempt (u64_var_any env [''STORAGE_CONNECT_TIMEOUT_SECS''] 5) (\<lambda>timeout.
    attempt (bool_var_any env [''STORAGE_AUTO_MIGRATE''] True) (\<lambda>migrate.
    let config =
       \<lparr>sc_database_url = optional_non_empty_any env [''STORAGE_DATABASE_URL'', ''DATABASE_URL''],
        sc_max_connections = conns,
        sc_connect_timeout_secs = timeout,
        sc_auto_migrate = migrate\<rparr>
    in attempt (storage_validate config) (\<lambda>_. Ok config))))"

definition metrics_from_env :: "(string \<Rightarrow> 'sock option) \<Rightarrow> environment \<Rightarrow> (ConfigError, 'sock MetricsConfig) res" where
  "metrics_from_env parse_sock env =
    attempt (bool_var_any env [''METRICS_ENABLED''] True) (\<lambda>enabled.
    attempt (transpose_opt (parse_socket_addr parse_sock ''METRICS_PROMETHEUS_BIND_ADDR'')
      (optional_non_empty_any env [''METRICS_PROMETHEUS_BIND_ADDR''])) (\<lambda>prometheus.
    attempt (string_var_any env [''LOG_LEVEL''] ''info'') (\<lambda>level.
    attempt (socket_addr_var_any parse_sock env [''METRICS_HEALTHZ_BIND_ADDR''] ''127.0.0.1:9000'') (\<lambda>healthz.
    let config =
       \<lparr>mc_enabled = enabled,
        mc_log_level = level,
        mc_healthz_bind_addr = healthz,
        mc_prometheus_bind_addr = prometheus\<rparr>
    in attempt (metrics_validate config) (\<lambda>_. Ok config)))))"

definition discovery_from_env :: "environment \<Rightarrow> (ConfigError, DiscoveryConfig) res" where
  "discovery_from_env env =
    attempt (bool_var_any env [''DISCOVERY_ENABLED''] False) (\<lambda>enabled.
    attempt (transpose_opt (\<lambda>raw. ok_or (InvalidValue ''DISCOVERY_PINNED_HEAD_BLOCK'' raw ''expected an unsigned integer'')
      (parse_uint raw)) (optional_non_empty_any env [''DISCOVERY_PINNED_HEAD_BLOCK''])) (\<lambda>pinned.
    Ok \<lparr>di_enabled = enabled,
        di_factories_path = optional_non_empty_any env [''DISCOVERY_FACTORIES_PATH''],
        di_multicall3_address = optional_non_empty_any env [''DISCOVERY_MULTICALL3_ADDRESS''],
        di_pinned_head_block = pinned\<rparr>))"

definition app_from_env :: "(string \<Rightarrow> 'sock option) \<Rightarrow> environment \<Rightarrow> (ConfigError, 'sock AppConfig) res" where
  "app_from_env parse_sock env =
    attempt (ingest_from_env env) (\<lambda>ingest.
    attempt (rpc_from_env env) (\<lambda>rpc.
    attempt (signer_from_env env) (\<lambda>signer.
    attempt (decision_from_env env) (\<lambda>decision.
    attempt (risk_from_env env) (\<lambda>risk.
    attempt (execution_from_env env) (\<lambda>execution.
    attempt (storage_from_env env) (\<lambda>storage.
    attempt (metrics_from_env parse_sock env) (\<lambda>metrics.
    attempt (discovery_from_env env) (\<lambda>discovery.
    let config =
       \<lparr>ac_ingest = ingest,
        ac_rpc = rpc,
        ac_signer = signer,
        ac_decision = decision,
        ac_risk = risk,
        ac_execution = execution,
        ac_storage = storage,
        ac_metrics = metrics,
        ac_discovery = discovery\<rparr>
    in attempt (app_validate config) (\<lambda>_. Ok config))))))))))"

end
