(* ===== verification/Decision.thy ===== *)
theory Decision
  imports Pool_Book Config "HOL-Library.Product_Lexorder" "HOL-Library.List_Lexorder" "HOL-Library.Char_ord"
begin

text \<open>
  Detection, simulation and request building (\<open>src/crates/decision/src/lib.rs\<close>).
  \<open>detect_two_leg_loop\<close> chains two V2 quotes; a quote error means no opportunity,
  while a quote panic would unwind through detection, so its result keeps both.
  The risk fingerprint (SHA-256, an external crate) is the parameter \<open>hash\<close> of the
  definitions that use it.
\<close>

record TwoLegLoopInput =
  tl_block_context :: BlockContext
  tl_settlement_token :: Address
  tl_amount_in :: Amount
  tl_first_pool :: V2PoolState
  tl_second_pool :: V2PoolState
  tl_trigger_tx_hash :: "string option"

record SimulationConfig =
  sx_gas_estimate :: u64
  sx_gas_cost_wei :: Amount
  sx_l1_data_fee_wei :: Amount

definition simulation_from_config :: "DecisionConfig \<Rightarrow> (string, SimulationConfig) res" where
  "simulation_from_config c =
    attempt (ok_or ''failed to parse DECISION_SIMULATION_GAS_COST_WEI''
      (parse_uint (dc_simulation_gas_cost_wei c))) (\<lambda>gas_cost.
    attempt (ok_or ''failed to parse DECISION_SIMULATION_L1_DATA_FEE_WEI''
      (parse_uint (dc_simulation_l1_data_fee_wei c))) (\<lambda>l1_fee.
    Ok \<lparr>sx_gas_estimate = dc_simulation_gas_estimate c, sx_gas_cost_wei = gas_cost,
        sx_l1_data_fee_wei = l1_fee\<rparr>))"

definition opportunity_id :: "string \<Rightarrow> string \<Rightarrow> string \<Rightarrow> Amount \<Rightarrow> string" where
  "opportunity_id settlement first second amount =
    ''loop:'' @ settlement @ '':'' @ first @ '':'' @ second @ '':'' @ show_uint amount"

definition detect_two_leg_loop :: "TwoLegLoopInput \<Rightarrow> (MarketError, Opportunity option) res" where
  "detect_two_leg_loop input =
    (if tl_amount_in input = 0 then Ok None
     else
       attempt (ok_opt (v2_quote_exact_in (tl_first_pool input) (tl_settlement_token input) (tl_amount_in input)))
         (\<lambda>q1. case q1 of None \<Rightarrow> Ok None | Some first_quote \<Rightarrow>
       attempt (ok_opt (v2_quote_exact_in (tl_second_pool input) (pq_token_out first_quote) (pq_amount_out first_quote)))
         (\<lambda>q2. case q2 of None \<Rightarrow> Ok None | Some second_quote \<Rightarrow>
       if pq_token_out second_quote \<noteq> tl_settlement_token input then Ok None
       else
         case checked_sub (pq_amount_out second_quote) (tl_amount_in input) of
           None \<Rightarrow> Ok None
         | Some expected_net_profit \<Rightarrow>
             if expected_net_profit = 0 then Ok None
             else Ok (Some
               \<lparr>op_id = opportunity_id (tl_settlement_token input) (v2_address (tl_first_pool input))
                          (v2_address (tl_second_pool input)) (tl_amount_in input),
                op_kind = TwoLegLoop,
                op_block_context = tl_block_context input,
                op_settlement_token = tl_settlement_token input,
                op_input_amount = tl_amount_in input,
                op_expected_output_amount = pq_amount_out second_quote,
                op_expected_net_profit = expected_net_profit,
                op_route =
                  [\<lparr>leg_venue = v2_exchange (tl_first_pool input),
                    leg_protocol = Some (v2_protocol (tl_first_pool input)),
                    leg_target = v2_address (tl_first_pool input),
                    leg_pool_address = Some (v2_address (tl_first_pool input)),
                    leg_token_in = pq_token_in first_quote,
                    leg_token_out = pq_token_out first_quote,
                    leg_amount_in = Some (pq_amount_in first_quote),
                    leg_min_amount_out = Some (pq_amount_out first_quote)\<rparr>,
                   \<lparr>leg_venue = v2_exchange (tl_second_pool input),
                    leg_protocol = Some (v2_protocol (tl_second_pool input)),
                    leg_target = v2_address (tl_second_pool input),
                    leg_pool_address = Some (v2_address (tl_second_pool input)),
                    leg_token_in = pq_token_out first_quote,
                    leg_token_out = pq_token_out second_quote,
                    leg_amount_in = Some (pq_amount_in second_quote),
                    leg_min_amount_out = Some (pq_amount_out second_quote)\<rparr>],
                op_trigger_tx_hash = tl_trigger_tx_hash input\<rparr>))))"

text \<open>The pairs of pools the two nested loops visit, in their order: the inner loop
  for one first pool, then the outer loop.\<close>

definition loop_row :: "V2PoolState list \<Rightarrow> string \<Rightarrow> V2PoolState \<Rightarrow> (V2PoolState \<times> V2PoolState) list" where
  "loop_row pools settlement_token first_pool =
    (if \<not> v2_contains_token first_pool settlement_token then []
     else case v2_other_token first_pool settlement_token of
       None \<Rightarrow> []
     | Some intermediate_token \<Rightarrow>
         map (Pair first_pool) (filter (\<lambda>second_pool.
           \<not> eq_ignore_ascii_case (v2_address first_pool) (v2_address second_pool)
           \<and> v2_contains_token second_pool intermediate_token
           \<and> v2_contains_token second_pool settlement_token) pools))"

definition loop_pairs :: "V2PoolState list \<Rightarrow> string \<Rightarrow> (V2PoolState \<times> V2PoolState) list" where
  "loop_pairs pools settlement_token = concat (map (loop_row pools settlement_token) pools)"

definition loop_input ::
  "BlockContext \<Rightarrow> string \<Rightarrow> Amount \<Rightarrow> string option \<Rightarrow> V2PoolState \<times> V2PoolState \<Rightarrow> TwoLegLoopInput" where
  "loop_input block_context settlement_token amount_in trigger pair =
    \<lparr>tl_block_context = block_context, tl_settlement_token = settlement_token, tl_amount_in = amount_in,
     tl_first_pool = fst pair, tl_second_pool = snd pair, tl_trigger_tx_hash = trigger\<rparr>"

text \<open>The sort key: larger profit first, then the identifier in byte order.\<close>

definition rank_key :: "Opportunity \<Rightarrow> int \<times> string" where
  "rank_key opp = (- uint (op_expected_net_profit opp), op_id opp)"

definition detect_two_leg_loops_from_book ::
  "PoolBook \<Rightarrow> BlockContext \<Rightarrow> string \<Rightarrow> Amount \<Rightarrow> string option \<Rightarrow> (MarketError, Opportunity list) res" where
  "detect_two_leg_loops_from_book book block_context settlement_token amount_in trigger =
    attempt (map_res (\<lambda>pair. detect_two_leg_loop
        (loop_input block_context settlement_token amount_in trigger pair))
      (loop_pairs (v2_pools book) settlement_token)) (\<lambda>found.
    Ok (dedup_by (\<lambda>left right. op_id left = op_id right)
      (sort_key rank_key (List.map_filter (\<lambda>x. x) found))))"

definition simulate_two_leg_opportunity :: "Opportunity \<Rightarrow> SimulationConfig \<Rightarrow> SimulationResult option" where
  "simulate_two_leg_opportunity opp simulation =
    (if op_kind opp \<noteq> TwoLegLoop \<or> length (op_route opp) \<noteq> 2 then None
     else
       Option.bind (checked_sub (op_expected_output_amount opp) (op_input_amount opp)) (\<lambda>gross.
       Option.bind (checked_sub gross (sx_gas_cost_wei simulation)) (\<lambda>after_gas.
       Option.bind (checked_sub after_gas (sx_l1_data_fee_wei simulation)) (\<lambda>net.
       Some \<lparr>sim_opportunity_id = op_id opp, sim_accepted = (0 < net), sim_expected_gross_profit = gross,
             sim_expected_net_profit = net, sim_gas_estimate = sx_gas_estimate simulation,
             sim_gas_cost_wei = sx_gas_cost_wei simulation, sim_l1_data_fee = sx_l1_data_fee_wei simulation,
             sim_notes = [''simulation path uses deterministic local V2 quotes'',
                          ''gas and L1 data fee are config-driven cost baselines'']\<rparr>))))"

definition assess_risk ::
  "(Opportunity \<Rightarrow> SimulationResult \<Rightarrow> Amount \<Rightarrow> string) \<Rightarrow> Opportunity \<Rightarrow> SimulationResult \<Rightarrow> DecisionConfig
    \<Rightarrow> RiskDecision option" where
  "assess_risk hash opp simulation config =
    Option.bind (parse_uint (dc_min_net_profit_wei config)) (\<lambda>min_surplus.
      let accepted = (sim_accepted simulation \<and> min_surplus \<le> sim_expected_net_profit simulation) in
      Some \<lparr>rd_opportunity_id = op_id opp, rd_accepted = accepted,
            rd_reason = (if accepted then None
              else Some ''expected net profit is below the configured minimum surplus''),
            rd_risk_hash = hash opp simulation min_surplus, rd_min_surplus = min_surplus\<rparr>)"

definition step_of_leg :: "RouteLeg \<Rightarrow> ExecutionStep option" where
  "step_of_leg leg =
    Option.bind (leg_min_amount_out leg) (\<lambda>min_out.
      Some \<lparr>st_venue = leg_venue leg, st_protocol = leg_protocol leg, st_target = leg_target leg,
            st_token_in = leg_token_in leg, st_token_out = leg_token_out leg, st_pool_fee = None,
            st_amount_in = leg_amount_in leg, st_min_amount_out = min_out,
            st_calldata_hint = Some ''v2_exact_input'', st_aux_address = None\<rparr>)"

fun steps_of_route :: "RouteLeg list \<Rightarrow> ExecutionStep list option" where
  "steps_of_route [] = Some []"
| "steps_of_route (leg # legs) =
    Option.bind (step_of_leg leg) (\<lambda>s. Option.bind (steps_of_route legs) (\<lambda>ss. Some (s # ss)))"

definition build_execution_request :: "Opportunity \<Rightarrow> RiskDecision \<Rightarrow> ExecutionRequest option" where
  "build_execution_request opp risk =
    (if \<not> rd_accepted risk then None
     else
       Option.bind (steps_of_route (op_route opp)) (\<lambda>steps.
         Some \<lparr>rq_opportunity_id = op_id opp, rq_steps = steps, rq_min_repay = op_input_amount opp,
               rq_min_surplus = rd_min_surplus risk,
               rq_flashloan_asset = Some (op_settlement_token opp),
               rq_flashloan_amount = Some (op_input_amount opp), rq_risk_hash = rd_risk_hash risk\<rparr>))"

section \<open>One loop\<close>

lemma detect_SomeE:
  assumes "detect_two_leg_loop input = Ok (Some opp)"
  obtains q1 q2 where
    "v2_quote_exact_in (tl_first_pool input) (tl_settlement_token input) (tl_amount_in input) = Ok q1"
    "v2_quote_exact_in (tl_second_pool input) (pq_token_out q1) (pq_amount_out q1) = Ok q2"
    "pq_token_out q2 = tl_settlement_token input"
    "unat (tl_amount_in input) + unat (op_expected_net_profit opp) = unat (pq_amount_out q2)"
    "op_expected_net_profit opp \<noteq> 0" "op_kind opp = TwoLegLoop"
    "op_id opp = opportunity_id (tl_settlement_token input) (v2_address (tl_first_pool input))
      (v2_address (tl_second_pool input)) (tl_amount_in input)"
    "op_settlement_token opp = tl_settlement_token input" "op_input_amount opp = tl_amount_in input"
    "op_expected_output_amount opp = pq_amount_out q2"
    "map leg_token_in (op_route opp) = [tl_settlement_token input, pq_token_out q1]"
    "map leg_token_out (op_route opp) = [pq_token_out q1, tl_settlement_token input]"
    "map leg_amount_in (op_route opp) = [Some (tl_amount_in input), Some (pq_amount_out q1)]"
    "map leg_min_amount_out (op_route opp) = [Some (pq_amount_out q1), Some (pq_amount_out q2)]"
    "map leg_pool_address (op_route opp) = [Some (v2_address (tl_first_pool input)), Some (v2_address (tl_second_pool input))]"
    "op_block_context opp = tl_block_context input"
proof -
  let ?r1 = "v2_quote_exact_in (tl_first_pool input) (tl_settlement_token input) (tl_amount_in input)"
  have a: "tl_amount_in input \<noteq> 0" using assms by (auto simp: detect_two_leg_loop_def)
  obtain q1 where q1: "?r1 = Ok q1"
    using assms a by (cases ?r1) (auto simp: detect_two_leg_loop_def)
  let ?r2 = "v2_quote_exact_in (tl_second_pool input) (pq_token_out q1) (pq_amount_out q1)"
  obtain q2 where q2: "?r2 = Ok q2"
    using assms a q1 by (cases ?r2) (auto simp: detect_two_leg_loop_def)
  from assms a q1 q2 obtain n where n: "pq_token_out q2 = tl_settlement_token input"
    "checked_sub (pq_amount_out q2) (tl_amount_in input) = Some n" "n \<noteq> 0"
    by (auto simp: detect_two_leg_loop_def split: if_splits option.splits)
  show thesis
    by (rule that[OF q1 q2 n(1)])
      (use assms a q1 q2 n v2_quote_shape(1,2)[OF q1] v2_quote_shape(1,2)[OF q2]
       in \<open>auto simp: detect_two_leg_loop_def checked_sub_eq_Some\<close>)
qed

lemma detect_no_panic:
  assumes "v2_validate (tl_first_pool input) = Ok ()" "v2_validate (tl_second_pool input) = Ok ()"
  shows "\<exists>r. detect_two_leg_loop input = Ok r"
proof -
  note np = v2p.quote_no_panic[OF assms(1)] v2p.quote_no_panic[OF assms(2)]
  have "detect_two_leg_loop input \<noteq> Panic" "\<And>e. detect_two_leg_loop input \<noteq> Err e"
    using np by (auto simp: detect_two_leg_loop_def attempt_eq_Panic attempt_eq_Err
        split: option.splits if_splits)
  then show ?thesis by (cases "detect_two_leg_loop input") auto
qed

section \<open>Identifiers\<close>

lemma sep_inj:
  assumes "c \<notin> set xs" "c \<notin> set ys" "xs @ c # us = ys @ c # vs"
  shows "xs = ys \<and> us = vs"
  using assms
proof (induction xs arbitrary: ys)
  case Nil
  then show ?case by (cases ys) auto
next
  case (Cons x xs)
  then show ?case by (cases ys) auto
qed

definition plain_address :: "string \<Rightarrow> bool" where
  "plain_address a \<longleftrightarrow> CHR '':'' \<notin> set a"

lemma opportunity_id_inj:
  assumes "plain_address f" "plain_address g" "plain_address f'" "plain_address g'"
    and "opportunity_id s f g a = opportunity_id s f' g' a"
  shows "f = f' \<and> g = g'"
proof -
  from assms(5) have "f @ CHR '':'' # (g @ CHR '':'' # show_uint a) = f' @ CHR '':'' # (g' @ CHR '':'' # show_uint a)"
    by (simp add: opportunity_id_def)
  with assms(1-4) show ?thesis by (metis plain_address_def sep_inj)
qed

section \<open>All loops of a book\<close>

lemma loop_row_iff:
  "(f', g) \<in> set (loop_row ps s f) \<longleftrightarrow>
    f' = f \<and> g \<in> set ps \<and> v2_contains_token f s \<and> \<not> eq_ignore_ascii_case (v2_address f) (v2_address g)
    \<and> (\<exists>mid. v2_other_token f s = Some mid \<and> v2_contains_token g mid \<and> v2_contains_token g s)"
  by (cases "v2_other_token f s") (auto simp: loop_row_def)

lemma loop_pairs_iff:
  "(f, g) \<in> set (loop_pairs ps s) \<longleftrightarrow>
    f \<in> set ps \<and> g \<in> set ps \<and> v2_contains_token f s \<and> \<not> eq_ignore_ascii_case (v2_address f) (v2_address g)
    \<and> (\<exists>mid. v2_other_token f s = Some mid \<and> v2_contains_token g mid \<and> v2_contains_token g s)"
  by (auto simp: loop_pairs_def loop_row_iff)

lemma v2_other_contains: "v2_other_token p t = Some u \<Longrightarrow> v2_contains_token p t \<and> v2_contains_token p u"
  by (auto simp: v2_other_token_def v2_contains_token_def split: if_splits)

text \<open>The token filters of the loops lose nothing: a pair that yields an opportunity
  passes them.\<close>

lemma loop_pairs_complete:
  assumes "f \<in> set ps" "g \<in> set ps" "\<not> eq_ignore_ascii_case (v2_address f) (v2_address g)"
    and "detect_two_leg_loop (loop_input bc s a tr (f, g)) = Ok (Some opp)"
  shows "(f, g) \<in> set (loop_pairs ps s)"
  using assms(4)
proof (cases rule: detect_SomeE)
  case (1 q1 q2)
  then have q: "v2_other_token f s = Some (pq_token_out q1)" "v2_other_token g (pq_token_out q1) = Some s"
    by (auto simp: loop_input_def dest: v2p.quote_other)
  then show ?thesis
    using assms(1-3) v2_other_contains[OF q(1)] v2_other_contains[OF q(2)] by (auto simp: loop_pairs_iff)
qed

lemma mset_loop_pairs:
  assumes "mset ps = mset qs"
  shows "mset (loop_pairs ps s) = mset (loop_pairs qs s)"
proof -
  have row: "mset (loop_row ps s f) = mset (loop_row qs s f)" for f
    using assms by (cases "v2_other_token f s") (auto simp: loop_row_def)
  have sum: "mset (concat (map h xs)) = (\<Sum>x \<in># mset xs. mset (h x))"
    for h :: "V2PoolState \<Rightarrow> (V2PoolState \<times> V2PoolState) list" and xs
    by (induction xs) auto
  show ?thesis by (simp add: loop_pairs_def sum row assms)
qed

lemma distinct_loop_row: "distinct ps \<Longrightarrow> distinct (loop_row ps s f)"
  by (cases "v2_other_token f s") (auto simp: loop_row_def distinct_map inj_on_def)

lemma distinct_loop_pairs:
  assumes "distinct ps"
  shows "distinct (loop_pairs ps s)"
proof -
  have "distinct (concat (map (loop_row ps s) qs))" if "distinct qs" for qs
    using that by (induction qs) (auto simp: distinct_loop_row[OF assms] loop_row_iff)
  from this[OF assms] show ?thesis by (simp add: loop_pairs_def)
qed

section \<open>Pools of a well-formed book\<close>

lemma v2_pools_iff:
  assumes "book_wf book"
  shows "p \<in> set (v2_pools book) \<longleftrightarrow> hm_get (pb_pools book) (normalize_address_key (v2_address p)) = Some (PoolV2 p)"
proof -
  have "p \<in> set (v2_pools book) \<longleftrightarrow> PoolV2 p \<in> set (hm_values (pb_pools book))"
    by (auto simp: v2_pools_def map_filter_def image_iff elim!: as_v2.elims)
  also have "\<dots> \<longleftrightarrow> (\<exists>k. hm_get (pb_pools book) k = Some (PoolV2 p))"
    using assms by (simp add: hm_values_iff book_wf_def)
  also have "\<dots> \<longleftrightarrow> hm_get (pb_pools book) (normalize_address_key (v2_address p)) = Some (PoolV2 p)"
    using assms unfolding book_wf_def by (metis pool_address.simps(1))
  finally show ?thesis .
qed

lemma v2_pools_valid: "book_wf book \<Longrightarrow> p \<in> set (v2_pools book) \<Longrightarrow> v2_validate p = Ok ()"
  by (metis v2_pools_iff book_wf_def pool_valid.simps(1))

lemma v2_pools_address_inj:
  assumes "book_wf book" "p \<in> set (v2_pools book)" "q \<in> set (v2_pools book)" "v2_address p = v2_address q"
  shows "p = q"
  using assms by (simp add: v2_pools_iff)

lemma v2_pools_distinct:
  assumes "book_wf book"
  shows "distinct (v2_pools book)"
proof -
  have keys: "\<forall>(k, p) \<in> set (pb_pools book). normalize_address_key (pool_address p) = k" "distinct (map fst (pb_pools book))"
    using assms by (auto simp: book_wf_def hm_wf_def hm_get_def)
  have "distinct (map snd xs)"
    if "\<forall>(k, p) \<in> set xs. normalize_address_key (pool_address p) = k" "distinct (map fst xs)" for xs
    using that by (induction xs) (auto simp: image_iff split: prod.splits)
  from this[OF keys] have "distinct (map snd (pb_pools book))" .
  then show ?thesis
    by (auto simp: v2_pools_def hm_values_def map_filter_def distinct_map inj_on_def elim!: as_v2.elims)
qed

section \<open>The detected list\<close>

text \<open>The opportunities of a list of pairs, before sorting.\<close>

definition hits :: "BlockContext \<Rightarrow> string \<Rightarrow> Amount \<Rightarrow> string option \<Rightarrow> (V2PoolState \<times> V2PoolState) list \<Rightarrow> Opportunity list" where
  "hits bc s a tr pairs = List.map_filter (\<lambda>pair. the_ok (detect_two_leg_loop (loop_input bc s a tr pair))) pairs"

lemma map_res_total:
  assumes "\<forall>x \<in> set xs. \<exists>y. f x = Ok y"
  shows "map_res f xs = Ok (map (\<lambda>x. the_ok (f x)) xs)"
  using assms by (induction xs) (auto simp: the_ok_def)

lemma detect_pairs_ok:
  assumes "book_wf book" "pair \<in> set (loop_pairs (v2_pools book) s)"
  shows "\<exists>r. detect_two_leg_loop (loop_input bc s a tr pair) = Ok r"
proof -
  obtain f g where p: "pair = (f, g)" by (cases pair)
  with assms(2) have "f \<in> set (v2_pools book)" "g \<in> set (v2_pools book)"
    by (auto simp: loop_pairs_iff)
  with p v2_pools_valid[OF assms(1)] show ?thesis
    by (intro detect_no_panic) (simp_all add: loop_input_def)
qed

lemma detect_from_book_eq:
  assumes "book_wf book"
  shows "detect_two_leg_loops_from_book book bc s a tr =
    Ok (dedup_by (\<lambda>left right. op_id left = op_id right)
      (sort_key rank_key (hits bc s a tr (loop_pairs (v2_pools book) s))))"
proof -
  have "\<forall>pair \<in> set (loop_pairs (v2_pools book) s). \<exists>r. detect_two_leg_loop (loop_input bc s a tr pair) = Ok r"
    using detect_pairs_ok[OF assms] by blast
  from map_res_total[OF this] show ?thesis
    by (simp add: detect_two_leg_loops_from_book_def hits_def map_filter_def comp_def filter_map)
qed

lemma set_hits:
  assumes "book_wf book"
  shows "opp \<in> set (hits bc s a tr (loop_pairs (v2_pools book) s)) \<longleftrightarrow>
    (\<exists>f \<in> set (v2_pools book). \<exists>g \<in> set (v2_pools book).
      \<not> eq_ignore_ascii_case (v2_address f) (v2_address g)
      \<and> detect_two_leg_loop (loop_input bc s a tr (f, g)) = Ok (Some opp))"
proof -
  have "opp \<in> set (hits bc s a tr (loop_pairs (v2_pools book) s)) \<longleftrightarrow>
    (\<exists>pair \<in> set (loop_pairs (v2_pools book) s). detect_two_leg_loop (loop_input bc s a tr pair) = Ok (Some opp))"
  proof -
    have "the_ok (detect_two_leg_loop (loop_input bc s a tr pair)) = Some opp \<longleftrightarrow>
        detect_two_leg_loop (loop_input bc s a tr pair) = Ok (Some opp)"
      if "pair \<in> set (loop_pairs (v2_pools book) s)" for pair
      using detect_pairs_ok[OF assms that, of bc a tr] by (auto simp: the_ok_def)
    moreover have "opp \<in> set (List.map_filter h xs) \<longleftrightarrow> (\<exists>x \<in> set xs. h x = Some opp)"
      for h and xs :: "(V2PoolState \<times> V2PoolState) list"
      by (force simp: map_filter_def)
    ultimately show ?thesis by (simp add: hits_def)
  qed
  also have "\<dots> \<longleftrightarrow> (\<exists>f \<in> set (v2_pools book). \<exists>g \<in> set (v2_pools book).
      \<not> eq_ignore_ascii_case (v2_address f) (v2_address g)
      \<and> detect_two_leg_loop (loop_input bc s a tr (f, g)) = Ok (Some opp))"
    by (auto simp: loop_pairs_iff intro: loop_pairs_complete) (blast intro: loop_pairs_complete)
  finally show ?thesis .
qed

lemma hits_id_inj:
  assumes "book_wf book" "\<forall>p \<in> set (v2_pools book). plain_address (v2_address p)"
    and "{p, q} \<subseteq> set (loop_pairs (v2_pools book) s)"
    and "detect_two_leg_loop (loop_input bc s a tr p) = Ok (Some x)"
    and "detect_two_leg_loop (loop_input bc s a tr q) = Ok (Some y)" "op_id x = op_id y"
  shows "p = q"
proof -
  obtain f g f' g' where pq: "p = (f, g)" "q = (f', g')" by (cases p, cases q)
  have mem: "f \<in> set (v2_pools book)" "g \<in> set (v2_pools book)" "f' \<in> set (v2_pools book)" "g' \<in> set (v2_pools book)"
    using assms(3) by (auto simp: pq loop_pairs_iff)
  have "op_id x = opportunity_id s (v2_address f) (v2_address g) a"
    using assms(4) by (cases rule: detect_SomeE) (simp add: pq loop_input_def)
  moreover have "op_id y = opportunity_id s (v2_address f') (v2_address g') a"
    using assms(5) by (cases rule: detect_SomeE) (simp add: pq loop_input_def)
  ultimately have "v2_address f = v2_address f' \<and> v2_address g = v2_address g'"
    using assms(2,6) mem by (intro opportunity_id_inj[of _ _ _ _ s a]) auto
  then show ?thesis using v2_pools_address_inj[OF assms(1)] mem by (auto simp: pq)
qed

lemma distinct_map_filter_key:
  assumes "distinct xs"
    and "\<forall>p \<in> set xs. \<forall>q \<in> set xs. \<forall>x y. h p = Some x \<longrightarrow> h q = Some y \<longrightarrow> g x = g y \<longrightarrow> p = q"
  shows "distinct (map g (List.map_filter h xs))"
  using assms
proof (induction xs)
  case (Cons a xs)
  have IH: "distinct (map g (List.map_filter h xs))" using Cons by (simp add: Cons.IH)
  show ?case
  proof (cases "h a")
    case None
    with IH show ?thesis by simp
  next
    case (Some x)
    have "g y \<noteq> g x" if "y \<in> set (List.map_filter h xs)" for y
    proof
      assume "g y = g x"
      from that obtain b where b: "b \<in> set xs" "h b = Some y" by (auto simp: map_filter_def)
      with Some \<open>g y = g x\<close> Cons.prems(2) have "b = a" by (metis list.set_intros)
      with b Cons.prems(1) show False by simp
    qed
    with IH Some show ?thesis by (auto simp: image_iff) metis
  qed
qed (simp add: map_filter_def)

lemma hits_distinct_ids:
  assumes "book_wf book" "\<forall>p \<in> set (v2_pools book). plain_address (v2_address p)"
  shows "distinct (map op_id (hits bc s a tr (loop_pairs (v2_pools book) s)))"
  unfolding hits_def
proof (rule distinct_map_filter_key)
  show "distinct (loop_pairs (v2_pools book) s)"
    using v2_pools_distinct[OF assms(1)] by (rule distinct_loop_pairs)
  let ?D = "\<lambda>pair. detect_two_leg_loop (loop_input bc s a tr pair)"
  have ok: "?D p = Ok (Some x)" if "p \<in> set (loop_pairs (v2_pools book) s)" "the_ok (?D p) = Some x" for p x
    using detect_pairs_ok[OF assms(1) that(1), of bc a tr] that(2) by (auto simp: the_ok_def)
  show "\<forall>p \<in> set (loop_pairs (v2_pools book) s). \<forall>q \<in> set (loop_pairs (v2_pools book) s). \<forall>x y.
      the_ok (?D p) = Some x \<longrightarrow> the_ok (?D q) = Some y \<longrightarrow> op_id x = op_id y \<longrightarrow> p = q"
  proof (intro ballI allI impI)
    fix p q x y
    assume m: "p \<in> set (loop_pairs (v2_pools book) s)" "q \<in> set (loop_pairs (v2_pools book) s)"
      and e: "the_ok (?D p) = Some x" "the_ok (?D q) = Some y" "op_id x = op_id y"
    show "p = q"
      by (rule hits_id_inj[OF assms _ ok[OF m(1) e(1)] ok[OF m(2) e(2)] e(3)]) (use m in simp)
  qed
qed

lemma dedup_sorted_hits:
  fixes bc s a tr
  assumes "book_wf book" "\<forall>p \<in> set (v2_pools book). plain_address (v2_address p)"
  defines "os \<equiv> sort_key rank_key (hits bc s a tr (loop_pairs (v2_pools book) s))"
  shows "dedup_by (\<lambda>left right. op_id left = op_id right) os = os" "distinct (map op_id os)"
    "inj_on op_id (set os)"
proof -
  have "mset (map op_id os) = mset (map op_id (hits bc s a tr (loop_pairs (v2_pools book) s)))"
    by (simp add: os_def)
  with hits_distinct_ids[OF assms(1,2)] show d: "distinct (map op_id os)"
    by (metis mset_eq_imp_distinct_iff)
  then show i: "inj_on op_id (set os)" by (simp add: distinct_map)
  show "dedup_by (\<lambda>left right. op_id left = op_id right) os = os"
    using d i by (intro dedup_by_id) (auto simp: distinct_map inj_on_def)
qed

lemma detect_from_book_sorted:
  assumes "book_wf book" "\<forall>p \<in> set (v2_pools book). plain_address (v2_address p)"
  shows "detect_two_leg_loops_from_book book bc s a tr =
    Ok (sort_key rank_key (hits bc s a tr (loop_pairs (v2_pools book) s)))"
  by (simp add: detect_from_book_eq[OF assms(1)] dedup_sorted_hits[OF assms])

lemma mset_v2_pools: "mset (pb_pools b) = mset (pb_pools c) \<Longrightarrow> mset (v2_pools b) = mset (v2_pools c)"
  by (simp add: v2_pools_def hm_values_def map_filter_def)

lemma mset_hits: "mset ps = mset qs \<Longrightarrow> mset (hits bc s a tr ps) = mset (hits bc s a tr qs)"
  by (simp add: hits_def map_filter_def)

lemma rank_key_inj: "inj_on op_id A \<Longrightarrow> inj_on rank_key A"
  by (auto simp: inj_on_def rank_key_def)

section \<open>Simulation and requests\<close>

lemma simulate_SomeD:
  assumes "simulate_two_leg_opportunity opp cfg = Some r"
  shows "op_kind opp = TwoLegLoop" "length (op_route opp) = 2"
    "unat (op_input_amount opp) + unat (sx_gas_cost_wei cfg) + unat (sx_l1_data_fee_wei cfg)
      + unat (sim_expected_net_profit r) = unat (op_expected_output_amount opp)"
    "unat (op_input_amount opp) + unat (sim_expected_gross_profit r) = unat (op_expected_output_amount opp)"
    "sim_accepted r \<longleftrightarrow> 0 < sim_expected_net_profit r" "sim_opportunity_id r = op_id opp"
    "sim_gas_cost_wei r = sx_gas_cost_wei cfg" "sim_l1_data_fee r = sx_l1_data_fee_wei cfg"
  using assms
  by (auto simp: simulate_two_leg_opportunity_def int_simps bind_eq_Some_conv split: if_splits)

lemma simulate_None_iff:
  assumes "op_kind opp = TwoLegLoop" "length (op_route opp) = 2"
  shows "simulate_two_leg_opportunity opp cfg = None \<longleftrightarrow>
    unat (op_expected_output_amount opp)
      < unat (op_input_amount opp) + unat (sx_gas_cost_wei cfg) + unat (sx_l1_data_fee_wei cfg)"
proof -
  have "(\<exists>r. simulate_two_leg_opportunity opp cfg = Some r) \<longleftrightarrow>
      unat (op_input_amount opp) + unat (sx_gas_cost_wei cfg) + unat (sx_l1_data_fee_wei cfg)
      \<le> unat (op_expected_output_amount opp)"
    using assms
    by (auto simp: simulate_two_leg_opportunity_def checked_sub_def word_le_nat_alt unat_minus_le bind_eq_Some_conv)
  then show ?thesis by (cases "simulate_two_leg_opportunity opp cfg") auto
qed

lemma steps_of_route_Some:
  "steps_of_route legs = Some steps \<longleftrightarrow> list_all2 (\<lambda>leg st. step_of_leg leg = Some st) legs steps"
  by (induction legs arbitrary: steps) (auto simp: bind_eq_Some_conv list_all2_Cons1)

lemma steps_of_route_None: "steps_of_route legs = None \<longleftrightarrow> (\<exists>leg \<in> set legs. leg_min_amount_out leg = None)"
  by (induction legs) (auto simp: bind_eq_None_conv step_of_leg_def)

lemma rank_sorted:
  "sorted (map rank_key os) \<longleftrightarrow> sorted_wrt (\<lambda>x y. op_expected_net_profit y \<le> op_expected_net_profit x
     \<and> (op_expected_net_profit y = op_expected_net_profit x \<longrightarrow> op_id x \<le> op_id y)) os"
proof -
  have "rank_key x \<le> rank_key y \<longleftrightarrow> op_expected_net_profit y \<le> op_expected_net_profit x
     \<and> (op_expected_net_profit y = op_expected_net_profit x \<longrightarrow> op_id x \<le> op_id y)" for x y
    by (auto simp: rank_key_def less_eq_prod_def less_prod_def word_le_def word_uint_eq_iff)
  then show ?thesis by (simp add: sorted_map)
qed

section \<open>Sample loop\<close>

definition sample_v2b :: V2PoolState where
  "sample_v2b = sample_v2\<lparr>v2_address := ''0xpool2'', v2_reserve1 := 1000000\<rparr>"

definition sample_input :: TwoLegLoopInput where
  "sample_input = loop_input Pending ''0xAA'' 10000 None (sample_v2, sample_v2b)"

definition sample_books :: PoolBook where
  "sample_books = insert_v2_pool sample_v2b sample_book"

definition sample_books_rev :: PoolBook where
  "sample_books_rev = insert_v2_pool sample_v2 (insert_v2_pool sample_v2b book_new)"

lemma sample_v2b_valid: "v2_validate sample_v2b = Ok ()"
  by (simp add: sample_v2b_def sample_v2_def v2_validate_def BPS_DENOMINATOR_def word_eval)

lemma sample_detect: "\<exists>opp. detect_two_leg_loop sample_input = Ok (Some opp)"
proof -
  have ne: "\<not> eq_ignore_ascii_case ''0xBB'' ''0xAA''" by code_simp
  obtain q2 where q2: "v2_quote_exact_in sample_v2b ''0xBB'' 19743 = Ok q2" "pq_amount_out q2 = 19303"
    "pq_token_out q2 = ''0xAA''"
    using ne by (simp add: sample_v2b_def sample_v2_def v2_eval)
  show ?thesis
    by (simp add: detect_two_leg_loop_def sample_input_def loop_input_def sample_v2_quote q2 word_eval)
qed

lemma sample_books_wf: "book_wf sample_books" "book_wf sample_books_rev"
  by (simp_all add: sample_books_def sample_books_rev_def sample_book_def book_wf_insert_v2 book_wf_new
      sample_v2_valid sample_v2b_valid)

lemma sample_key2: "normalize_address_key ''0xpool2'' = ''0xpool2''"
  by code_simp

lemma sample_books_entries:
  "pb_pools sample_books = [(''0xpool'', PoolV2 sample_v2), (''0xpool2'', PoolV2 sample_v2b)]"
  "pb_pools sample_books_rev = [(''0xpool2'', PoolV2 sample_v2b), (''0xpool'', PoolV2 sample_v2)]"
proof -
  have a: "v2_address sample_v2 = ''0xpool''" "v2_address sample_v2b = ''0xpool2''"
    by (simp_all add: sample_v2_def sample_v2b_def)
  show "pb_pools sample_books = [(''0xpool'', PoolV2 sample_v2), (''0xpool2'', PoolV2 sample_v2b)]"
    "pb_pools sample_books_rev = [(''0xpool2'', PoolV2 sample_v2b), (''0xpool'', PoolV2 sample_v2)]"
    by (simp_all add: sample_books_def sample_books_rev_def sample_book_def insert_v2_pool_def book_new_def
        hm_insert_def a sample_keys sample_key2)
qed

lemma sample_books_plain: "\<forall>p \<in> set (v2_pools sample_books). plain_address (v2_address p)"
  by (simp add: v2_pools_def hm_values_def sample_books_entries map_filter_def plain_address_def
      sample_v2_def sample_v2b_def)

section \<open>Properties of detection, simulation and requests\<close>

text \<open>A detected loop is consistent and profitable.  Its route has two legs that
  start and end in the settlement token and meet in the intermediate token; the
  first leg spends the input amount and promises exactly what the first pool
  quotes for it, the second spends that amount and promises exactly what the
  second pool quotes; and the output exceeds the input by the reported profit,
  which is positive.\<close>

theorem detect_loop_sound:
  assumes "detect_two_leg_loop input = Ok (Some opp)"
  shows "\<exists>l1 l2 q1 q2. op_route opp = [l1, l2]
    \<and> v2_quote_exact_in (tl_first_pool input) (tl_settlement_token input) (tl_amount_in input) = Ok q1
    \<and> v2_quote_exact_in (tl_second_pool input) (leg_token_out l1) (pq_amount_out q1) = Ok q2
    \<and> leg_token_in l1 = op_settlement_token opp \<and> leg_token_in l2 = leg_token_out l1
    \<and> leg_token_out l2 = op_settlement_token opp
    \<and> leg_amount_in l1 = Some (op_input_amount opp) \<and> leg_min_amount_out l1 = Some (pq_amount_out q1)
    \<and> leg_amount_in l2 = leg_min_amount_out l1
    \<and> leg_min_amount_out l2 = Some (op_expected_output_amount opp) \<and> pq_amount_out q2 = op_expected_output_amount opp
    \<and> unat (op_input_amount opp) + unat (op_expected_net_profit opp) = unat (op_expected_output_amount opp)
    \<and> 0 < op_expected_net_profit opp"
  using assms by (cases rule: detect_SomeE) (auto simp: map_eq_Cons_conv word_gt_0)

theorem detect_loop_sound_witness:
  "\<exists>opp. detect_two_leg_loop sample_input = Ok (Some opp) \<and> 0 < op_expected_net_profit opp"
proof -
  obtain opp where d: "detect_two_leg_loop sample_input = Ok (Some opp)" using sample_detect by blast
  from detect_loop_sound[OF d] d show ?thesis by blast
qed

text \<open>C12: scanning a well-formed book returns exactly the opportunities of all pairs
  of V2 pools with different addresses, each identifier once, by decreasing
  profit and then by identifier; the token filters of the two loops lose none of
  them.  (Addresses without a colon keep the textual identifiers apart.)\<close>

theorem detect_from_book_complete:
  assumes "book_wf book" "\<forall>p \<in> set (v2_pools book). plain_address (v2_address p)"
  shows "\<exists>os. detect_two_leg_loops_from_book book bc s a tr = Ok os
    \<and> (\<forall>opp. opp \<in> set os \<longleftrightarrow> (\<exists>f \<in> set (v2_pools book). \<exists>g \<in> set (v2_pools book).
        \<not> eq_ignore_ascii_case (v2_address f) (v2_address g)
        \<and> detect_two_leg_loop (loop_input bc s a tr (f, g)) = Ok (Some opp)))
    \<and> distinct (map op_id os)
    \<and> sorted_wrt (\<lambda>x y. op_expected_net_profit y \<le> op_expected_net_profit x
        \<and> (op_expected_net_profit y = op_expected_net_profit x \<longrightarrow> op_id x \<le> op_id y)) os"
  by (simp add: detect_from_book_sorted[OF assms] set_hits[OF assms(1)] dedup_sorted_hits(2)[OF assms]
      rank_sorted[symmetric])

theorem detect_from_book_complete_witness:
  "\<exists>os opp. detect_two_leg_loops_from_book sample_books Pending ''0xAA'' 10000 None = Ok os \<and> opp \<in> set os"
proof -
  obtain opp where d: "detect_two_leg_loop sample_input = Ok (Some opp)" using sample_detect by blast
  have "\<not> eq_ignore_ascii_case ''0xpool'' ''0xpool2''" by code_simp
  then have "\<exists>f \<in> set (v2_pools sample_books). \<exists>g \<in> set (v2_pools sample_books).
      \<not> eq_ignore_ascii_case (v2_address f) (v2_address g)
      \<and> detect_two_leg_loop (loop_input Pending ''0xAA'' 10000 None (f, g)) = Ok (Some opp)"
    using d by (simp add: v2_pools_def hm_values_def sample_books_entries map_filter_def sample_input_def)
      (simp add: sample_v2_def sample_v2b_def)
  with detect_from_book_complete[OF sample_books_wf(1) sample_books_plain, of Pending "''0xAA''" 10000 None]
  show ?thesis by blast
qed

text \<open>The ranked list does not depend on the iteration order of the hash map:
  two books that hold the same entries in any order are scanned to the same
  list.\<close>

theorem detect_order_independent:
  assumes "book_wf b" "book_wf c" "mset (pb_pools b) = mset (pb_pools c)"
    and "\<forall>p \<in> set (v2_pools b). plain_address (v2_address p)"
  shows "detect_two_leg_loops_from_book b bc s a tr = detect_two_leg_loops_from_book c bc s a tr"
proof -
  have pools: "mset (v2_pools b) = mset (v2_pools c)" using assms(3) by (rule mset_v2_pools)
  then have plain: "\<forall>p \<in> set (v2_pools c). plain_address (v2_address p)"
    using assms(4) by (metis mset_eq_setD)
  let ?hb = "hits bc s a tr (loop_pairs (v2_pools b) s)" and ?hc = "hits bc s a tr (loop_pairs (v2_pools c) s)"
  have m: "mset ?hb = mset ?hc" by (intro mset_hits mset_loop_pairs pools)
  note db = dedup_sorted_hits[OF assms(1,4), where bc = bc and s = s and a = a and tr = tr]
    and dc = dedup_sorted_hits[OF assms(2) plain, where bc = bc and s = s and a = a and tr = tr]
  have "sort_key rank_key ?hb = sort_key rank_key ?hc"
  proof (rule map_sorted_distinct_set_unique)
    show "set (sort_key rank_key ?hb) = set (sort_key rank_key ?hc)" using mset_eq_setD[OF m] by simp
    then show "inj_on rank_key (set (sort_key rank_key ?hb) \<union> set (sort_key rank_key ?hc))"
      using rank_key_inj[OF db(3)] by simp
    show "distinct (map rank_key (sort_key rank_key ?hb))" "distinct (map rank_key (sort_key rank_key ?hc))"
      using rank_key_inj[OF db(3)] rank_key_inj[OF dc(3)] db(2) dc(2) by (simp_all add: distinct_map)
  qed simp_all
  then show ?thesis
    by (simp add: detect_from_book_sorted[OF assms(1,4)] detect_from_book_sorted[OF assms(2) plain])
qed

theorem detect_order_independent_witness:
  "pb_pools sample_books \<noteq> pb_pools sample_books_rev \<and>
   detect_two_leg_loops_from_book sample_books Pending ''0xAA'' 10000 None =
   detect_two_leg_loops_from_book sample_books_rev Pending ''0xAA'' 10000 None"
proof -
  have "mset (pb_pools sample_books) = mset (pb_pools sample_books_rev)" by (simp add: sample_books_entries)
  from detect_order_independent[OF sample_books_wf this sample_books_plain] show ?thesis
    by (simp add: sample_books_entries)
qed

text \<open>Simulation is exact.  For a two-leg opportunity it returns a result exactly
  when the expected output covers the input, the gas cost and the L1 fee; then
  gross and net profit are the exact differences, with no wrap-around, and the
  result is accepted exactly when the net profit is positive.\<close>

theorem simulation_exact:
  assumes "op_kind opp = TwoLegLoop" "length (op_route opp) = 2"
  shows "case simulate_two_leg_opportunity opp cfg of
      None \<Rightarrow> unat (op_expected_output_amount opp)
        < unat (op_input_amount opp) + unat (sx_gas_cost_wei cfg) + unat (sx_l1_data_fee_wei cfg)
    | Some r \<Rightarrow>
        unat (op_input_amount opp) + unat (sim_expected_gross_profit r) = unat (op_expected_output_amount opp)
        \<and> unat (op_input_amount opp) + unat (sx_gas_cost_wei cfg) + unat (sx_l1_data_fee_wei cfg)
            + unat (sim_expected_net_profit r) = unat (op_expected_output_amount opp)
        \<and> (sim_accepted r \<longleftrightarrow> 0 < sim_expected_net_profit r) \<and> sim_opportunity_id r = op_id opp"
proof (cases "simulate_two_leg_opportunity opp cfg")
  case None
  with simulate_None_iff[OF assms, of cfg] show ?thesis by simp
next
  case (Some r)
  with simulate_SomeD[OF Some] show ?thesis by simp
qed

definition sample_sim_config :: SimulationConfig where
  "sample_sim_config = \<lparr>sx_gas_estimate = 180000, sx_gas_cost_wei = 1000, sx_l1_data_fee_wei = 200\<rparr>"

theorem simulation_exact_witness:
  "\<exists>opp. detect_two_leg_loop sample_input = Ok (Some opp) \<and>
    (case simulate_two_leg_opportunity opp sample_sim_config of
       None \<Rightarrow> unat (op_expected_output_amount opp)
         < unat (op_input_amount opp) + unat (sx_gas_cost_wei sample_sim_config)
           + unat (sx_l1_data_fee_wei sample_sim_config)
     | Some r \<Rightarrow> unat (op_input_amount opp) + unat (sim_expected_gross_profit r) = unat (op_expected_output_amount opp))"
proof -
  obtain opp where d: "detect_two_leg_loop sample_input = Ok (Some opp)" using sample_detect by blast
  have k: "op_kind opp = TwoLegLoop" "length (op_route opp) = 2"
    using d by (cases rule: detect_SomeE, auto dest: map_eq_imp_length_eq)+
  from simulation_exact[OF k, of sample_sim_config] d show ?thesis
    by (auto split: option.splits)
qed

text \<open>C36: the request built from an accepted, detected loop repays its flash loan.  It
  borrows the input amount of the settlement token and must repay that amount;
  its two steps go to the route's targets with the route's venues, and form a cycle through the
  settlement token in which each step guarantees what its pool quotes for its input and the
  second spends what the first guarantees; and the amount the last step guarantees is the
  repayment plus the detected profit, which is positive.  The request carries the decision's
  surplus and hash.  A decision that is not accepted builds no request, and an accepted one
  always does.\<close>

theorem request_repays_loan:
  assumes "detect_two_leg_loop input = Ok (Some opp)"
  shows "case build_execution_request opp risk of
      None \<Rightarrow> \<not> rd_accepted risk
    | Some rq \<Rightarrow> rd_accepted risk \<and> rq_opportunity_id rq = op_id opp
        \<and> rq_flashloan_asset rq = Some (tl_settlement_token input)
        \<and> rq_flashloan_amount rq = Some (rq_min_repay rq) \<and> rq_min_repay rq = tl_amount_in input
        \<and> rq_min_surplus rq = rd_min_surplus risk \<and> rq_risk_hash rq = rd_risk_hash risk
        \<and> (\<exists>s1 s2 q1 q2. rq_steps rq = [s1, s2]
            \<and> map leg_target (op_route opp) = [st_target s1, st_target s2]
            \<and> map leg_venue (op_route opp) = [st_venue s1, st_venue s2]
            \<and> map leg_protocol (op_route opp) = [st_protocol s1, st_protocol s2]
            \<and> st_token_in s1 = tl_settlement_token input \<and> st_token_in s2 = st_token_out s1
            \<and> st_token_out s2 = tl_settlement_token input
            \<and> st_amount_in s1 = Some (rq_min_repay rq) \<and> st_amount_in s2 = Some (st_min_amount_out s1)
            \<and> v2_quote_exact_in (tl_first_pool input) (st_token_in s1) (rq_min_repay rq) = Ok q1
            \<and> st_token_out s1 = pq_token_out q1 \<and> st_min_amount_out s1 = pq_amount_out q1
            \<and> v2_quote_exact_in (tl_second_pool input) (st_token_in s2) (st_min_amount_out s1) = Ok q2
            \<and> st_min_amount_out s2 = pq_amount_out q2
            \<and> unat (rq_min_repay rq) + unat (op_expected_net_profit opp) = unat (st_min_amount_out s2)
            \<and> 0 < unat (op_expected_net_profit opp))"
  using assms
  by (cases rule: detect_SomeE)
    (auto simp: build_execution_request_def map_eq_Cons_conv step_of_leg_def unat_gt_0)

definition sample_decision :: RiskDecision where
  "sample_decision = \<lparr>rd_opportunity_id = ''x'', rd_accepted = True, rd_reason = None, rd_risk_hash = ''00'',
    rd_min_surplus = 5\<rparr>"

theorem request_repays_loan_witness:
  "\<exists>opp rq. detect_two_leg_loop sample_input = Ok (Some opp) \<and>
    build_execution_request opp sample_decision = Some rq \<and> rq_flashloan_amount rq = Some (rq_min_repay rq)"
proof -
  obtain opp where d: "detect_two_leg_loop sample_input = Ok (Some opp)" using sample_detect by blast
  from request_repays_loan[OF d, of sample_decision] d show ?thesis
    by (auto simp: sample_decision_def split: option.splits)
qed

end
