(* ===== verification/Risk.thy ===== *)
theory Risk
  imports Decision
begin

text \<open>
  The risk engine (\<open>src/crates/decision/src/risk.rs\<close>).  The engine's mutex-guarded
  state is passed explicitly; the clock is the argument \<open>now\<close> of an assessment, the
  existence of the kill-switch file the predicate \<open>file_exists\<close>, and SHA-256 the
  function \<open>sha256\<close> on byte strings.  Runs of the engine are the inductive
  relation \<open>risk_run\<close>; the caps are shown as invariants of its runs.
\<close>

definition SECONDS_PER_DAY :: u64 where
  "SECONDS_PER_DAY = 24 * 60 * 60"

record RiskPolicy =
  pol_min_net_profit_wei :: Amount
  pol_min_profit_bps :: u32
  pol_max_trade_notional_wei :: "Amount option"
  pol_max_per_block_notional_wei :: "Amount option"
  pol_max_daily_notional_wei :: "Amount option"
  pol_max_slippage_bps :: u32
  pol_token_allowlist :: "string set"
  pol_token_denylist :: "string set"
  pol_max_consecutive_reverts :: u32
  pol_kill_switch_path :: "string option"

record RiskState =
  rs_block_notional :: "(BlockNumber \<times> Amount) option"
  rs_daily_entries :: "(u64 \<times> Amount) list"
  rs_daily_total :: Amount
  rs_consecutive_reverts :: u32
  rs_operator_killed :: bool

text \<open>The error texts of the standard library's integer parser are the parameter
  \<open>why\<close>.\<close>

definition risk_parse_amount :: "(string \<Rightarrow> string) \<Rightarrow> string \<Rightarrow> (string, Amount) res" where
  "risk_parse_amount why raw = ok_or (''invalid amount `'' @ raw @ ''`: '' @ why raw) (parse_uint raw)"

definition policy_from_config :: "(string \<Rightarrow> string) \<Rightarrow> RiskConfig \<Rightarrow> (string, RiskPolicy) res" where
  "policy_from_config why c =
    attempt (ok_or (''invalid RISK_MIN_NET_PROFIT_WEI: '' @ why (rk_min_net_profit_wei c))
      (parse_uint (rk_min_net_profit_wei c))) (\<lambda>min_net_profit_wei.
    attempt (transpose_opt (risk_parse_amount why) (rk_max_trade_notional_wei c)) (\<lambda>max_trade.
    attempt (transpose_opt (risk_parse_amount why) (rk_max_per_block_notional_wei c)) (\<lambda>max_block.
    attempt (transpose_opt (risk_parse_amount why) (rk_max_daily_notional_wei c)) (\<lambda>max_daily.
    Ok \<lparr>pol_min_net_profit_wei = min_net_profit_wei, pol_min_profit_bps = rk_min_profit_bps c,
        pol_max_trade_notional_wei = max_trade, pol_max_per_block_notional_wei = max_block,
        pol_max_daily_notional_wei = max_daily, pol_max_slippage_bps = rk_max_slippage_bps c,
        pol_token_allowlist = set (map to_ascii_lowercase (rk_token_allowlist c)),
        pol_token_denylist = set (map to_ascii_lowercase (rk_token_denylist c)),
        pol_max_consecutive_reverts = rk_max_consecutive_reverts c,
        pol_kill_switch_path = rk_kill_switch_path c\<rparr>))))"

definition risk_state_default :: RiskState where
  "risk_state_default = \<lparr>rs_block_notional = None, rs_daily_entries = [], rs_daily_total = 0,
    rs_consecutive_reverts = 0, rs_operator_killed = False\<rparr>"

definition trigger_kill_switch :: "RiskState \<Rightarrow> RiskState" where
  "trigger_kill_switch s = s\<lparr>rs_operator_killed := True\<rparr>"

definition record_outcome :: "bool \<Rightarrow> RiskState \<Rightarrow> RiskState" where
  "record_outcome success s =
    (if success then s\<lparr>rs_consecutive_reverts := 0\<rparr>
     else s\<lparr>rs_consecutive_reverts := saturating_add (rs_consecutive_reverts s) 1\<rparr>)"

section \<open>The decision hash\<close>

definition le_bytes :: "u128 \<Rightarrow> string" where
  "le_bytes w = map (\<lambda>i. char_of (unat w div 256 ^ i mod 256)) [0..<16]"

definition hex_byte :: "char \<Rightarrow> string" where
  "hex_byte c = (let n = of_char c :: nat in [digit_char (n div 16), digit_char (n mod 16)])"

text \<open>The bytes fed to the hash.\<close>

definition risk_preimage :: "Opportunity \<Rightarrow> SimulationResult \<Rightarrow> Amount \<Rightarrow> string" where
  "risk_preimage opp simulation min_surplus =
    op_id opp @ le_bytes (op_expected_output_amount opp) @ le_bytes (sim_expected_net_profit simulation)
      @ le_bytes (sim_gas_cost_wei simulation) @ le_bytes (sim_l1_data_fee simulation) @ le_bytes min_surplus"

definition risk_hash :: "(string \<Rightarrow> string) \<Rightarrow> Opportunity \<Rightarrow> SimulationResult \<Rightarrow> Amount \<Rightarrow> string" where
  "risk_hash sha256 opp simulation min_surplus =
    concat (map hex_byte (sha256 (risk_preimage opp simulation min_surplus)))"

section \<open>Gates\<close>

definition opportunity_token_iter :: "Opportunity \<Rightarrow> string list" where
  "opportunity_token_iter opp =
    remdups_adj (sort (op_settlement_token opp #
      concat (map (\<lambda>leg. [leg_token_in leg, leg_token_out leg]) (op_route opp))))"

definition token_reject :: "RiskPolicy \<Rightarrow> string \<Rightarrow> string option" where
  "token_reject policy token =
    (let normalized = to_ascii_lowercase token in
     if normalized \<in> pol_token_denylist policy
     then Some (''token '' @ token @ '' is on the denylist'')
     else if pol_token_allowlist policy \<noteq> {} \<and> normalized \<notin> pol_token_allowlist policy
     then Some (''token '' @ token @ '' is not on the allowlist'')
     else None)"

definition bps_of :: "Amount \<Rightarrow> u32 \<Rightarrow> Amount" where
  "bps_of amount bps = saturating_mul amount (ucast bps) div 10000"

definition stateless_reject ::
  "RiskPolicy \<Rightarrow> (string \<Rightarrow> bool) \<Rightarrow> Opportunity \<Rightarrow> SimulationResult \<Rightarrow> string option" where
  "stateless_reject policy file_exists opp simulation =
    (if \<exists>path \<in> set_option (pol_kill_switch_path policy). file_exists path
     then Some (''kill switch file is present at '' @ the (pol_kill_switch_path policy))
     else if \<not> sim_accepted simulation then Some ''simulation rejected the opportunity''
     else if sim_expected_net_profit simulation < pol_min_net_profit_wei policy
     then Some (''expected net profit '' @ show_uint (sim_expected_net_profit simulation)
       @ '' is below the minimum '' @ show_uint (pol_min_net_profit_wei policy))
     else if 0 < pol_min_profit_bps policy \<and> 0 < op_input_amount opp
       \<and> sim_expected_net_profit simulation < bps_of (op_input_amount opp) (pol_min_profit_bps policy)
     then Some (''expected net profit '' @ show_uint (sim_expected_net_profit simulation) @ '' is below ''
       @ show_uint (pol_min_profit_bps policy) @ '' bps of notional (''
       @ show_uint (bps_of (op_input_amount opp) (pol_min_profit_bps policy)) @ '')'')
     else if \<exists>cap \<in> set_option (pol_max_trade_notional_wei policy). cap < op_input_amount opp
     then Some (''trade notional '' @ show_uint (op_input_amount opp) @ '' exceeds per-trade cap ''
       @ show_uint (the (pol_max_trade_notional_wei policy)))
     else
       case find_map (token_reject policy) (opportunity_token_iter opp) of
         Some reason \<Rightarrow> Some reason
       | None \<Rightarrow>
           if pol_max_slippage_bps policy < 10000
             \<and> op_expected_output_amount opp < op_input_amount opp
             \<and> bps_of (op_input_amount opp) (pol_max_slippage_bps policy)
                 < saturating_sub (op_input_amount opp) (op_expected_output_amount opp)
           then Some (''path shortfall ''
             @ show_uint (saturating_sub (op_input_amount opp) (op_expected_output_amount opp))
             @ '' exceeds '' @ show_uint (pol_max_slippage_bps policy) @ '' bps of notional'')
           else None)"

definition deny ::
  "(string \<Rightarrow> string) \<Rightarrow> RiskPolicy \<Rightarrow> Opportunity \<Rightarrow> string \<Rightarrow> SimulationResult \<Rightarrow> RiskDecision" where
  "deny sha256 policy opp reason simulation =
    \<lparr>rd_opportunity_id = op_id opp, rd_accepted = False, rd_reason = Some reason,
     rd_risk_hash = risk_hash sha256 opp simulation (pol_min_net_profit_wei policy),
     rd_min_surplus = pol_min_net_profit_wei policy\<rparr>"

fun prune_entries :: "u64 \<Rightarrow> (u64 \<times> Amount) list \<Rightarrow> Amount \<Rightarrow> (u64 \<times> Amount) list \<times> Amount" where
  "prune_entries horizon [] tot = ([], tot)"
| "prune_entries horizon ((ts, amount) # rest) tot =
    (if ts < horizon then prune_entries horizon rest (saturating_sub tot amount)
     else ((ts, amount) # rest, tot))"

definition prune_daily_entries :: "u64 \<Rightarrow> RiskState \<Rightarrow> RiskState" where
  "prune_daily_entries now s =
    (let horizon = saturating_sub now SECONDS_PER_DAY;
         (entries, tot) = prune_entries horizon (rs_daily_entries s) (rs_daily_total s)
     in s\<lparr>rs_daily_entries := entries, rs_daily_total := tot\<rparr>)"

fun block_bucket :: "BlockContext \<Rightarrow> BlockNumber" where
  "block_bucket (Block_At number _) = number"
| "block_bucket Pending = uMAX"

definition block_used :: "RiskState \<Rightarrow> BlockNumber \<Rightarrow> Amount" where
  "block_used s bn =
    (case rs_block_notional s of
       Some (current_block, used) \<Rightarrow> if current_block = bn then used else 0
     | None \<Rightarrow> 0)"

definition assess ::
  "(string \<Rightarrow> string) \<Rightarrow> RiskPolicy \<Rightarrow> (string \<Rightarrow> bool) \<Rightarrow> u64 \<Rightarrow> Opportunity \<Rightarrow> SimulationResult \<Rightarrow> RiskState
    \<Rightarrow> RiskDecision \<times> RiskState" where
  "assess sha256 policy file_exists now opp simulation s =
    (let bn = block_bucket (op_block_context opp);
         reject = (\<lambda>reason st. (deny sha256 policy opp reason simulation, st))
     in case stateless_reject policy file_exists opp simulation of
       Some reason \<Rightarrow> reject reason s
     | None \<Rightarrow>
         if rs_operator_killed s then reject ''operator kill switch is engaged'' s
         else if pol_max_consecutive_reverts policy \<le> rs_consecutive_reverts s
           \<and> 0 < pol_max_consecutive_reverts policy
         then reject (''circuit breaker tripped after '' @ show_uint (rs_consecutive_reverts s)
           @ '' consecutive reverts'') s
         else
           let used = block_used s bn; projected = saturating_add used (op_input_amount opp) in
           if \<exists>cap \<in> set_option (pol_max_per_block_notional_wei policy). cap < projected
           then reject (''per-block notional '' @ show_uint projected @ '' would exceed cap ''
             @ show_uint (the (pol_max_per_block_notional_wei policy))) s
           else
             let s1 = prune_daily_entries now s;
                 daily = saturating_add (rs_daily_total s1) (op_input_amount opp)
             in
             if \<exists>cap \<in> set_option (pol_max_daily_notional_wei policy). cap < daily
             then reject (''daily notional '' @ show_uint daily @ '' would exceed cap ''
               @ show_uint (the (pol_max_daily_notional_wei policy))) s1
             else
               (\<lparr>rd_opportunity_id = op_id opp, rd_accepted = True, rd_reason = None,
                 rd_risk_hash = risk_hash sha256 opp simulation (pol_min_net_profit_wei policy),
                 rd_min_surplus = pol_min_net_profit_wei policy\<rparr>,
                s1\<lparr>rs_block_notional := Some (bn, projected),
                   rs_daily_entries := rs_daily_entries s1 @ [(now, op_input_amount opp)],
                   rs_daily_total := daily\<rparr>))"

section \<open>One assessment\<close>

text \<open>The counters after an accepted opportunity.\<close>

definition committed :: "u64 \<Rightarrow> Opportunity \<Rightarrow> RiskState \<Rightarrow> RiskState" where
  "committed now opp s =
    (let bn = block_bucket (op_block_context opp); s1 = prune_daily_entries now s in
     s1\<lparr>rs_block_notional := Some (bn, saturating_add (block_used s bn) (op_input_amount opp)),
        rs_daily_entries := rs_daily_entries s1 @ [(now, op_input_amount opp)],
        rs_daily_total := saturating_add (rs_daily_total s1) (op_input_amount opp)\<rparr>)"

lemma assess_cases:
  assumes "assess sha policy fe now opp sim s = (d, s')"
  obtains (rejected) "\<not> rd_accepted d" "rd_reason d \<noteq> None" "s' = s \<or> s' = prune_daily_entries now s"
  | (accepted) "rd_accepted d" "rd_reason d = None" "s' = committed now opp s"
      "stateless_reject policy fe opp sim = None" "\<not> rs_operator_killed s"
      "pol_max_consecutive_reverts policy \<le> rs_consecutive_reverts s \<Longrightarrow> pol_max_consecutive_reverts policy = 0"
      "\<And>cap. pol_max_per_block_notional_wei policy = Some cap \<Longrightarrow>
        saturating_add (block_used s (block_bucket (op_block_context opp))) (op_input_amount opp) \<le> cap"
      "\<And>cap. pol_max_daily_notional_wei policy = Some cap \<Longrightarrow>
        saturating_add (rs_daily_total (prune_daily_entries now s)) (op_input_amount opp) \<le> cap"
proof (cases "rd_accepted d")
  case True
  have *: "stateless_reject policy fe opp sim = None \<and> \<not> rs_operator_killed s
    \<and> \<not> (pol_max_consecutive_reverts policy \<le> rs_consecutive_reverts s \<and> 0 < pol_max_consecutive_reverts policy)
    \<and> \<not> (\<exists>cap \<in> set_option (pol_max_per_block_notional_wei policy).
        cap < saturating_add (block_used s (block_bucket (op_block_context opp))) (op_input_amount opp))
    \<and> \<not> (\<exists>cap \<in> set_option (pol_max_daily_notional_wei policy).
        cap < saturating_add (rs_daily_total (prune_daily_entries now s)) (op_input_amount opp))"
    using assms True
    by (auto simp: assess_def Let_def deny_def split: option.splits if_splits)
  show ?thesis
  proof (rule accepted)
    show "s' = committed now opp s" "rd_reason d = None"
      using assms * by (auto simp: assess_def Let_def committed_def)
  qed (use True * in \<open>auto simp: not_less word_gt_0\<close>)
next
  case False
  have "rd_reason d \<noteq> None \<and> (s' = s \<or> s' = prune_daily_entries now s)"
    using assms False
    by (auto simp: assess_def Let_def deny_def split: option.splits if_splits)
  with False rejected show ?thesis by blast
qed

lemma prune_frame [simp]:
  "rs_block_notional (prune_daily_entries now s) = rs_block_notional s"
  "rs_consecutive_reverts (prune_daily_entries now s) = rs_consecutive_reverts s"
  "rs_operator_killed (prune_daily_entries now s) = rs_operator_killed s"
  by (simp_all add: prune_daily_entries_def Let_def split: prod.splits)

lemma committed_frame [simp]:
  "rs_consecutive_reverts (committed now opp s) = rs_consecutive_reverts s"
  "rs_operator_killed (committed now opp s) = rs_operator_killed s"
  by (simp_all add: committed_def Let_def)

lemma unat_DAY [simp]: "unat SECONDS_PER_DAY = 86400"
  by (simp add: SECONDS_PER_DAY_def)

definition notional :: "(u64 \<times> Amount) list \<Rightarrow> nat" where
  "notional es = sum_list (map (\<lambda>e. unat (snd e)) es)"

lemma notional_simps [simp]:
  "notional [] = 0" "notional (e # es) = unat (snd e) + notional es" "notional (es @ fs) = notional es + notional fs"
  by (simp_all add: notional_def)

text \<open>Pruning drops expired entries from the front and keeps the total exact.\<close>

lemma prune_entries_exact:
  assumes "prune_entries h es tot = (es', tot')" "notional es = unat tot"
  shows "\<exists>old. es = old @ es' \<and> (\<forall>e \<in> set old. fst e < h) \<and> notional es' = unat tot'"
  using assms
proof (induction h es tot rule: prune_entries.induct)
  case (2 h ts a rest tot)
  show ?case
  proof (cases "ts < h")
    case True
    have "notional rest = unat (saturating_sub tot a)" using 2(3) by (simp add: unat_saturating_sub)
    with 2 True obtain old where "rest = old @ es'" "\<forall>e \<in> set old. fst e < h" "notional es' = unat tot'"
      by auto
    with True show ?thesis by (intro exI[of _ "(ts, a) # old"]) auto
  next
    case False
    with 2 show ?thesis by auto
  qed
qed simp

section \<open>Runs of the engine\<close>

text \<open>A state the engine can be in, with the trace of accepted notional (time, block
  bucket, amount) and the last clock reading; the clock does not run backwards.\<close>

type_synonym trace = "(u64 \<times> BlockNumber \<times> Amount) list"

inductive risk_run :: "(string \<Rightarrow> string) \<Rightarrow> RiskPolicy \<Rightarrow> RiskState \<Rightarrow> trace \<Rightarrow> u64 \<Rightarrow> bool" for sha policy where
  init: "risk_run sha policy risk_state_default [] 0"
| assessed: "risk_run sha policy s tr t \<Longrightarrow> t \<le> now \<Longrightarrow>
    assess sha policy fe now opp sim s = (d, s') \<Longrightarrow>
    tr' = (if rd_accepted d then tr @ [(now, block_bucket (op_block_context opp), op_input_amount opp)] else tr) \<Longrightarrow>
    risk_run sha policy s' tr' now"
| outcome: "risk_run sha policy s tr t \<Longrightarrow> risk_run sha policy (record_outcome ok s) tr t"
| killed: "risk_run sha policy s tr t \<Longrightarrow> risk_run sha policy (trigger_kill_switch s) tr t"

definition timed :: "trace \<Rightarrow> (u64 \<times> Amount) list" where
  "timed tr = map (\<lambda>(ts, b, a). (ts, a)) tr"

lemma timed_append [simp]: "timed (xs @ ys) = timed xs @ timed ys"
  by (simp add: timed_def)

definition daily_inv :: "Amount \<Rightarrow> RiskState \<Rightarrow> trace \<Rightarrow> u64 \<Rightarrow> bool" where
  "daily_inv cap s tr t \<longleftrightarrow>
    notional (rs_daily_entries s) = unat (rs_daily_total s) \<and> rs_daily_total s \<le> cap
    \<and> (\<exists>old. timed tr = old @ rs_daily_entries s \<and> (\<forall>e \<in> set old. unat (fst e) < unat t - 86400))"

lemma daily_inv_frame:
  "daily_inv cap (record_outcome ok s) tr t = daily_inv cap s tr t"
  "daily_inv cap (trigger_kill_switch s) tr t = daily_inv cap s tr t"
  by (simp_all add: daily_inv_def record_outcome_def trigger_kill_switch_def)

lemma daily_inv_later:
  assumes "daily_inv cap s tr t" "t \<le> now"
  shows "daily_inv cap s tr now"
proof -
  have "unat t \<le> unat now" using assms(2) by (simp add: word_le_nat_alt)
  then show ?thesis using assms(1) unfolding daily_inv_def by fastforce
qed

lemma daily_inv_prune:
  assumes "daily_inv cap s tr now"
  shows "daily_inv cap (prune_daily_entries now s) tr now"
proof -
  let ?h = "saturating_sub now SECONDS_PER_DAY"
  obtain es tot where p: "prune_entries ?h (rs_daily_entries s) (rs_daily_total s) = (es, tot)" by fastforce
  obtain old where old: "rs_daily_entries s = old @ es" "\<forall>e \<in> set old. fst e < ?h" "notional es = unat tot"
    using prune_entries_exact[OF p] assms by (auto simp: daily_inv_def)
  obtain old0 where old0: "timed tr = old0 @ rs_daily_entries s" "\<forall>e \<in> set old0. unat (fst e) < unat now - 86400"
    using assms by (auto simp: daily_inv_def)
  have "unat tot \<le> unat cap"
    using assms old by (auto simp: daily_inv_def word_le_nat_alt)
  then show ?thesis
    unfolding daily_inv_def prune_daily_entries_def
    using old old0 p
    by (auto simp: Let_def word_le_nat_alt word_less_nat_alt unat_saturating_sub intro!: exI[of _ "old0 @ old"])
qed

lemma daily_inv_commit:
  assumes "daily_inv cap s tr now" "cap \<noteq> uMAX"
    and "saturating_add (rs_daily_total (prune_daily_entries now s)) (op_input_amount opp) \<le> cap"
  shows "daily_inv cap (committed now opp s) (tr @ [(now, bn, op_input_amount opp)]) now"
proof -
  let ?s1 = "prune_daily_entries now s"
  have inv: "daily_inv cap ?s1 tr now" using assms(1) by (rule daily_inv_prune)
  have "unat cap < 2 ^ 128 - 1"
  proof -
    have "unat cap \<noteq> unat (uMAX :: u128)" using assms(2) by (simp add: word_unat_eq_iff)
    then show ?thesis using unat_le_max[of cap] by (simp add: unat_uMAX)
  qed
  then have "unat (saturating_add (rs_daily_total ?s1) (op_input_amount opp))
      = unat (rs_daily_total ?s1) + unat (op_input_amount opp)"
    using assms(3) by (auto simp: unat_saturating_add word_le_nat_alt min_def split: if_splits)
  with inv assms(3) show ?thesis
    by (auto simp: daily_inv_def committed_def Let_def timed_def)
qed

lemma risk_run_daily:
  assumes "risk_run sha policy s tr t" "pol_max_daily_notional_wei policy = Some cap" "cap \<noteq> uMAX"
  shows "daily_inv cap s tr t"
  using assms
proof (induction rule: risk_run.induct)
  case init
  then show ?case by (simp add: daily_inv_def risk_state_default_def timed_def)
next
  case (assessed s tr t now fe opp sim d s' tr')
  have inv: "daily_inv cap s tr now" using assessed daily_inv_later by blast
  from assessed(3) show ?case
  proof (cases rule: assess_cases)
    case rejected
    with assessed(4) inv daily_inv_prune[OF inv] show ?thesis by auto
  next
    case accepted
    with assessed(4) daily_inv_commit[OF inv assessed(7)] assessed(6) show ?thesis by simp
  qed
qed (simp_all add: daily_inv_frame)

text \<open>The latest accepted entries that share the bucket \<open>b\<close>, without interruption.\<close>

definition block_tail :: "BlockNumber \<Rightarrow> trace \<Rightarrow> trace" where
  "block_tail b tr = takeWhile (\<lambda>e. fst (snd e) = b) (rev tr)"

definition spent :: "trace \<Rightarrow> nat" where
  "spent tr = sum_list (map (\<lambda>e. unat (snd (snd e))) tr)"

lemma spent_simps [simp]: "spent [] = 0" "spent (e # tr) = unat (snd (snd e)) + spent tr"
  by (simp_all add: spent_def)

definition block_inv :: "Amount \<Rightarrow> RiskState \<Rightarrow> trace \<Rightarrow> bool" where
  "block_inv cap s tr \<longleftrightarrow>
    (case rs_block_notional s of
       None \<Rightarrow> tr = []
     | Some (b, used) \<Rightarrow> tr \<noteq> [] \<and> fst (snd (last tr)) = b \<and> unat used = spent (block_tail b tr) \<and> used \<le> cap)"

lemma block_tail_snoc [simp]:
  "block_tail b (tr @ [(ts, b', a)]) = (if b' = b then (ts, b', a) # block_tail b tr else [])"
  by (simp add: block_tail_def)

lemma block_used_tail:
  assumes "block_inv cap s tr"
  shows "unat (block_used s b) = spent (block_tail b tr)"
proof (cases tr rule: rev_cases)
  case Nil
  with assms show ?thesis by (auto simp: block_inv_def block_used_def block_tail_def split: option.splits)
next
  case (snoc us e)
  with assms show ?thesis
    by (cases e) (auto simp: block_inv_def block_used_def split: option.splits)
qed

lemma block_inv_commit:
  assumes "block_inv cap s tr" "cap \<noteq> uMAX"
    and "saturating_add (block_used s bn) (op_input_amount opp) \<le> cap" "bn = block_bucket (op_block_context opp)"
  shows "block_inv cap (committed now opp s) (tr @ [(now, bn, op_input_amount opp)])"
proof -
  have "unat cap < 2 ^ 128 - 1"
  proof -
    have "unat cap \<noteq> unat (uMAX :: u128)" using assms(2) by (simp add: word_unat_eq_iff)
    then show ?thesis using unat_le_max[of cap] by (simp add: unat_uMAX)
  qed
  then have "unat (saturating_add (block_used s bn) (op_input_amount opp))
      = spent (block_tail bn tr) + unat (op_input_amount opp)"
    using assms(3) by (auto simp: unat_saturating_add word_le_nat_alt min_def block_used_tail[OF assms(1)] split: if_splits)
  then show ?thesis using assms(3,4) by (simp add: block_inv_def committed_def Let_def)
qed

lemma risk_run_block:
  assumes "risk_run sha policy s tr t" "pol_max_per_block_notional_wei policy = Some cap" "cap \<noteq> uMAX"
  shows "block_inv cap s tr"
  using assms
proof (induction rule: risk_run.induct)
  case (assessed s tr t now fe opp sim d s' tr')
  then have inv: "block_inv cap s tr" by blast
  from assessed(3) show ?case
  proof (cases rule: assess_cases)
    case rejected
    with assessed(4) inv show ?thesis by (auto simp: block_inv_def)
  next
    case accepted
    with assessed(4) block_inv_commit[OF inv assessed(7)] assessed(6) show ?thesis by simp
  qed
qed (simp_all add: block_inv_def risk_state_default_def record_outcome_def trigger_kill_switch_def)

section \<open>The hash input\<close>

lemma digits_determine:
  fixes n m :: nat
  assumes "\<forall>i < k. n div 256 ^ i mod 256 = m div 256 ^ i mod 256"
  shows "n mod 256 ^ k = m mod 256 ^ k"
  using assms
proof (induction k)
  case (Suc k)
  then have "n mod 256 ^ k = m mod 256 ^ k" "n div 256 ^ k mod 256 = m div 256 ^ k mod 256" by simp_all
  then show ?case by (simp add: mod_mult2_eq mult.commute[of 256])
qed simp

lemma le_bytes_length [simp]: "length (le_bytes w) = 16"
  by (simp add: le_bytes_def)

lemma le_bytes_inj: "le_bytes v = le_bytes w \<longleftrightarrow> v = w"
proof
  assume e: "le_bytes v = le_bytes w"
  have "unat v div 256 ^ i mod 256 = unat w div 256 ^ i mod 256" if "i < 16" for i
  proof -
    have "char_of (unat v div 256 ^ i mod 256) = (char_of (unat w div 256 ^ i mod 256) :: char)"
      using that arg_cong[OF e, of "\<lambda>xs. xs ! i"] by (simp add: le_bytes_def)
    then have "of_char (char_of (unat v div 256 ^ i mod 256) :: char) = (of_char (char_of (unat w div 256 ^ i mod 256) :: char) :: nat)"
      by (simp only:)
    then show ?thesis by simp
  qed
  from digits_determine[of 16 "unat v" "unat w"] this have "unat v mod 2 ^ 128 = unat w mod 2 ^ 128" by simp
  then have "unat v = unat w" using unat_lt_width[of v] unat_lt_width[of w] by (simp del: unsigned_less)
  then show "v = w" by (simp add: word_unat_eq_iff)
qed simp

lemma append_inj_right: "length ys = length vs \<Longrightarrow> xs @ ys = us @ vs \<longleftrightarrow> xs = us \<and> ys = vs"
  by auto

section \<open>Sample data\<close>

definition sample_policy :: RiskPolicy where
  "sample_policy = \<lparr>pol_min_net_profit_wei = 100, pol_min_profit_bps = 10, pol_max_trade_notional_wei = Some 50000,
    pol_max_per_block_notional_wei = Some 15000, pol_max_daily_notional_wei = Some 25000,
    pol_max_slippage_bps = 100, pol_token_allowlist = {}, pol_token_denylist = {},
    pol_max_consecutive_reverts = 3, pol_kill_switch_path = None\<rparr>"

definition sample_opp :: "BlockContext \<Rightarrow> Amount \<Rightarrow> Opportunity" where
  "sample_opp bc amount = \<lparr>op_id = ''o'', op_kind = TwoLegLoop, op_block_context = bc, op_settlement_token = ''0xaa'',
    op_input_amount = amount, op_expected_output_amount = amount + 9000, op_expected_net_profit = 9000,
    op_route = [], op_trigger_tx_hash = None\<rparr>"

definition sample_sim :: SimulationResult where
  "sample_sim = \<lparr>sim_opportunity_id = ''o'', sim_accepted = True, sim_expected_gross_profit = 9000,
    sim_expected_net_profit = 8000, sim_gas_estimate = 180000, sim_gas_cost_wei = 800, sim_l1_data_fee = 200,
    sim_notes = []\<rparr>"

lemma sample_stateless:
  assumes "amount \<in> {4000, 10000, 12000}"
  shows "stateless_reject sample_policy fe (sample_opp bc amount) sample_sim = None"
  using assms
  by (auto simp: stateless_reject_def sample_policy_def sample_opp_def sample_sim_def opportunity_token_iter_def
      token_reject_def bps_of_def Let_def word_eval)

lemmas assess_eval = assess_def sample_stateless risk_state_default_def prune_daily_entries_def
  SECONDS_PER_DAY_def block_used_def Let_def word_eval

lemma sample_assess_first:
  "assess sha sample_policy fe 1000 (sample_opp (Block_At 7 None) 10000) sample_sim risk_state_default =
    (\<lparr>rd_opportunity_id = ''o'', rd_accepted = True, rd_reason = None,
      rd_risk_hash = risk_hash sha (sample_opp (Block_At 7 None) 10000) sample_sim 100, rd_min_surplus = 100\<rparr>,
     risk_state_default\<lparr>rs_block_notional := Some (7, 10000), rs_daily_entries := [(1000, 10000)],
       rs_daily_total := 10000\<rparr>)"
  by (simp add: assess_eval) (simp add: sample_policy_def sample_opp_def word_eval)

section \<open>Properties of the risk engine\<close>

text \<open>C5: an accepted opportunity has passed every gate.  The kill-switch file is
  absent and the operator has not engaged the kill switch; the simulation
  accepted it and its net profit reaches the absolute floor and the floor
  relative to the notional; the notional is within the per-trade cap; the
  settlement token and every token of the route is off the denylist and, when
  there is an allowlist, on it; and the circuit breaker is closed.\<close>

theorem accepted_passes_every_gate:
  assumes "assess sha policy fe now opp sim s = (d, s')" "rd_accepted d"
  shows "(\<forall>path. pol_kill_switch_path policy = Some path \<longrightarrow> \<not> fe path) \<and> \<not> rs_operator_killed s
    \<and> sim_accepted sim \<and> pol_min_net_profit_wei policy \<le> sim_expected_net_profit sim
    \<and> (0 < pol_min_profit_bps policy \<and> 0 < op_input_amount opp \<longrightarrow>
        bps_of (op_input_amount opp) (pol_min_profit_bps policy) \<le> sim_expected_net_profit sim)
    \<and> (\<forall>cap. pol_max_trade_notional_wei policy = Some cap \<longrightarrow> op_input_amount opp \<le> cap)
    \<and> (\<forall>token \<in> {op_settlement_token opp} \<union> leg_token_in ` set (op_route opp) \<union> leg_token_out ` set (op_route opp).
        to_ascii_lowercase token \<notin> pol_token_denylist policy
        \<and> (pol_token_allowlist policy = {} \<or> to_ascii_lowercase token \<in> pol_token_allowlist policy))
    \<and> (pol_max_consecutive_reverts policy = 0 \<or> rs_consecutive_reverts s < pol_max_consecutive_reverts policy)
    \<and> rd_min_surplus d = pol_min_net_profit_wei policy"
  using assms(1)
proof (cases rule: assess_cases)
  case rejected
  with assms(2) show ?thesis by simp
next
  case accepted
  have tokens: "\<forall>token \<in> set (opportunity_token_iter opp). token_reject policy token = None"
    using accepted(4) by (auto simp: stateless_reject_def find_map_None_iff split: if_splits option.splits)
  have "set (opportunity_token_iter opp)
      = {op_settlement_token opp} \<union> leg_token_in ` set (op_route opp) \<union> leg_token_out ` set (op_route opp)"
    by (auto simp: opportunity_token_iter_def set_insort_key)
  with tokens have "\<forall>token \<in> {op_settlement_token opp} \<union> leg_token_in ` set (op_route opp) \<union> leg_token_out ` set (op_route opp).
      to_ascii_lowercase token \<notin> pol_token_denylist policy
      \<and> (pol_token_allowlist policy = {} \<or> to_ascii_lowercase token \<in> pol_token_allowlist policy)"
    by (fastforce simp: token_reject_def Let_def split: if_splits)
  moreover have "rd_min_surplus d = pol_min_net_profit_wei policy"
    using assms(1) by (auto simp: assess_def deny_def Let_def split: option.splits if_splits)
  moreover have "pol_max_consecutive_reverts policy = 0 \<or> rs_consecutive_reverts s < pol_max_consecutive_reverts policy"
    using accepted(6) by fastforce
  ultimately show ?thesis using accepted(4,5)
    by (auto simp: stateless_reject_def not_less split: if_splits option.splits)
qed

theorem accepted_passes_every_gate_witness:
  "\<exists>d s'. assess (\<lambda>x. x) sample_policy (\<lambda>_. False) 1000 (sample_opp (Block_At 7 None) 10000) sample_sim risk_state_default
      = (d, s') \<and> rd_accepted d \<and> pol_min_net_profit_wei sample_policy \<le> sim_expected_net_profit sample_sim"
  using accepted_passes_every_gate[OF sample_assess_first[of "\<lambda>x. x" "\<lambda>_. False"]] sample_assess_first by auto

text \<open>C1: the daily cap holds over every run.  Whatever sequence of assessments,
  outcomes and kill-switch events the engine goes through with a clock that does
  not run backwards, the notional it has accepted during the last 24 hours never
  exceeds the configured daily cap (any cap but the largest 128-bit value, where
  the saturating sum cannot tell).\<close>

theorem daily_cap_respected:
  assumes "risk_run sha policy s tr t" "pol_max_daily_notional_wei policy = Some cap" "cap \<noteq> uMAX"
  shows "spent (filter (\<lambda>(ts, _, _). unat t - 86400 \<le> unat ts) tr) \<le> unat cap"
proof -
  from risk_run_daily[OF assms] obtain old where inv:
    "notional (rs_daily_entries s) = unat (rs_daily_total s)" "rs_daily_total s \<le> cap"
    "timed tr = old @ rs_daily_entries s" "\<forall>e \<in> set old. unat (fst e) < unat t - 86400"
    by (auto simp: daily_inv_def)
  have "spent (filter (\<lambda>(ts, _, _). unat t - 86400 \<le> unat ts) us)
      = notional (filter (\<lambda>e. unat t - 86400 \<le> unat (fst e)) (timed us))" for us
    by (induction us) (auto simp: timed_def)
  moreover have "filter (\<lambda>e. unat t - 86400 \<le> unat (fst e)) old = []"
    using inv(4) by (auto simp: filter_empty_conv)
  moreover have "notional (filter (\<lambda>e. unat t - 86400 \<le> unat (fst e)) (rs_daily_entries s)) \<le> notional (rs_daily_entries s)"
    unfolding notional_def by (rule sum_list_filter_le_nat)
  ultimately show ?thesis using inv(1,2,3) by (simp add: word_le_nat_alt)
qed

lemma sample_run:
  "\<exists>s. risk_run (\<lambda>x. x) sample_policy s [(1000, 7, 10000)] 1000"
proof -
  have "risk_run (\<lambda>x. x) sample_policy (risk_state_default\<lparr>rs_block_notional := Some (7, 10000),
      rs_daily_entries := [(1000, 10000)], rs_daily_total := 10000\<rparr>) [(1000, 7, 10000)] 1000"
    by (rule risk_run.assessed[OF risk_run.init _ sample_assess_first[of "\<lambda>x. x" "\<lambda>_. False"]])
      (simp_all add: sample_opp_def)
  then show ?thesis by blast
qed

theorem daily_cap_respected_witness:
  "\<exists>s. risk_run (\<lambda>x. x) sample_policy s [(1000, 7, 10000)] 1000 \<and>
    spent (filter (\<lambda>(ts, _, _). unat (1000 :: u64) - 86400 \<le> unat ts) [(1000, 7, 10000)]) \<le> unat (25000 :: u128)"
proof -
  obtain s where r: "risk_run (\<lambda>x. x) sample_policy s [(1000, 7, 10000)] 1000" using sample_run by blast
  have c: "pol_max_daily_notional_wei sample_policy = Some 25000" "(25000 :: u128) \<noteq> uMAX"
    by (simp_all add: sample_policy_def uMAX_numeral)
  from daily_cap_respected[OF r c] r show ?thesis by blast
qed

text \<open>The per-block cap holds over an uninterrupted stretch.  In every run, the
  notional accepted since the bucket of the last accepted opportunity was entered
  never exceeds the per-block cap.\<close>

theorem block_cap_respected:
  assumes "risk_run sha policy s tr t" "pol_max_per_block_notional_wei policy = Some cap" "cap \<noteq> uMAX"
  shows "spent (block_tail b tr) \<le> unat cap"
proof -
  have inv: "block_inv cap s tr" by (rule risk_run_block[OF assms])
  show ?thesis
  proof (cases "\<exists>used. rs_block_notional s = Some (b, used)")
    case True
    with inv show ?thesis by (auto simp: block_inv_def word_le_nat_alt)
  next
    case False
    then have "block_used s b = 0" by (auto simp: block_used_def split: option.splits)
    with block_used_tail[OF inv, of b] show ?thesis by simp
  qed
qed

theorem block_cap_respected_witness:
  "\<exists>s. risk_run (\<lambda>x. x) sample_policy s [(1000, 7, 10000)] 1000 \<and>
    spent (block_tail 7 [(1000, 7, 10000)]) \<le> unat (15000 :: u128)"
proof -
  obtain s where r: "risk_run (\<lambda>x. x) sample_policy s [(1000, 7, 10000)] 1000" using sample_run by blast
  have c: "pol_max_per_block_notional_wei sample_policy = Some 15000" "(15000 :: u128) \<noteq> uMAX"
    by (simp_all add: sample_policy_def uMAX_numeral)
  from block_cap_respected[OF r c] r show ?thesis by blast
qed

text \<open>The per-block cap does not bound what a block receives in total.  There is a
  run in which block 7 is given more than its cap, because an opportunity with a
  pending block context was accepted in between and reset the counter.\<close>

theorem block_cap_bypassed:
  "\<exists>s tr cap. risk_run (\<lambda>x. x) sample_policy s tr 1002 \<and> pol_max_per_block_notional_wei sample_policy = Some cap
    \<and> unat cap < spent (filter (\<lambda>e. fst (snd e) = 7) tr)"
proof -
  let ?fe = "\<lambda>_ :: string. False" and ?sha = "\<lambda>x :: string. x"
  define s1 where "s1 = risk_state_default\<lparr>rs_block_notional := Some (7, 10000),
    rs_daily_entries := [(1000, 10000)], rs_daily_total := 10000\<rparr>"
  define s2 where "s2 = risk_state_default\<lparr>rs_block_notional := Some (uMAX, 4000),
    rs_daily_entries := [(1000, 10000), (1001, 4000)], rs_daily_total := 14000\<rparr>"
  obtain d1 where a1: "assess ?sha sample_policy ?fe 1000 (sample_opp (Block_At 7 None) 10000) sample_sim risk_state_default
      = (d1, s1)" "rd_accepted d1"
    using sample_assess_first[of ?sha ?fe] by (simp add: s1_def)
  have "rd_accepted (fst (assess ?sha sample_policy ?fe 1001 (sample_opp Pending 4000) sample_sim s1))
      \<and> snd (assess ?sha sample_policy ?fe 1001 (sample_opp Pending 4000) sample_sim s1) = s2"
    by (simp add: assess_eval s1_def s2_def) (simp add: sample_policy_def sample_opp_def word_eval)
  then obtain d2 where a2: "assess ?sha sample_policy ?fe 1001 (sample_opp Pending 4000) sample_sim s1 = (d2, s2)"
      "rd_accepted d2" by (metis prod.collapse)
  have "rd_accepted (fst (assess ?sha sample_policy ?fe 1002 (sample_opp (Block_At 7 None) 10000) sample_sim s2))"
    by (simp add: assess_eval s2_def) (simp add: sample_policy_def sample_opp_def word_eval)
  then obtain d3 s3 where a3: "assess ?sha sample_policy ?fe 1002 (sample_opp (Block_At 7 None) 10000) sample_sim s2 = (d3, s3)"
      "rd_accepted d3" by (metis prod.collapse)
  have "risk_run ?sha sample_policy s3 [(1000, 7, 10000), (1001, uMAX, 4000), (1002, 7, 10000)] 1002"
    by (rule risk_run.assessed[OF risk_run.assessed[OF risk_run.assessed[OF risk_run.init _ a1(1) refl] _ a2(1) refl] _ a3(1)])
      (simp_all add: a1 a2 a3 sample_opp_def word_eval)
  moreover have "(uMAX :: u64) \<noteq> 7" by (simp add: uMAX_numeral)
  ultimately show ?thesis
    by (intro exI[of _ s3] exI[of _ "[(1000, 7, 10000), (1001, uMAX, 4000), (1002, 7, 10000)]"] exI[of _ 15000])
      (simp add: sample_policy_def)
qed

text \<open>A halted engine accepts nothing.  With the operator kill switch engaged, or
  after at least the configured number of failed outcomes in a row, every
  assessment is rejected with a reason, keeps the switch and the failure count,
  and commits no notional; only a recorded success closes the breaker, and
  nothing releases the kill switch.\<close>

lemma halted_engine_rejects:
  assumes "rs_operator_killed s \<or> 0 < pol_max_consecutive_reverts policy
      \<and> pol_max_consecutive_reverts policy \<le> rs_consecutive_reverts s"
    and "assess sha policy fe now opp sim s = (d, s')"
  shows "\<not> rd_accepted d \<and> rd_reason d \<noteq> None \<and> s' = s"
proof -
  from assms(2) have "\<not> rd_accepted d"
    by (cases rule: assess_cases) (use assms(1) in \<open>auto simp: word_gt_0\<close>)
  with assms show ?thesis
    by (auto simp: assess_def Let_def deny_def split: option.splits if_splits)
qed

text \<open>The bytes that are hashed into a decision's fingerprint determine the
  opportunity's identifier, its expected output, the net profit, the two costs
  and the surplus floor: two assessments with the same bytes agree on all of
  them, so fingerprints differ except through a collision of SHA-256.\<close>

theorem risk_preimage_determines:
  "risk_preimage opp sim m = risk_preimage opp' sim' m' \<longleftrightarrow>
    op_id opp = op_id opp' \<and> op_expected_output_amount opp = op_expected_output_amount opp'
    \<and> sim_expected_net_profit sim = sim_expected_net_profit sim' \<and> sim_gas_cost_wei sim = sim_gas_cost_wei sim'
    \<and> sim_l1_data_fee sim = sim_l1_data_fee sim' \<and> m = m'"
  by (simp add: risk_preimage_def append_inj_right le_bytes_inj)

end
