(* ===== verification/Effects.thy ===== *)
theory Effects
  imports Machine_Int
begin

text \<open>
  Fallible code that also changes a state: an action takes the state, and returns its
  outcome (value, error or panic) with the state it leaves behind, whatever the
  outcome.  \<open>act_bind\<close> is the \<open>?\<close> operator over such calls.  \<open>keeps P\<close> says that an
  action never leaves \<open>P\<close>, on any branch; \<open>keeps_intros\<close> composes such facts along the
  structure of a handler.
\<close>

named_theorems act_simps "rules that evaluate a chain of state-changing calls"
named_theorems keeps_intros "introduction rules for properties kept by an action"

type_synonym ('w, 'e, 'a) act = "'w \<Rightarrow> ('e, 'a) res \<times> 'w"

definition ret :: "'a \<Rightarrow> ('w, 'e, 'a) act" where
  "ret x w = (Ok x, w)"

text \<open>A pure fallible call inside stateful code.\<close>

definition lift :: "('e, 'a) res \<Rightarrow> ('w, 'e, 'a) act" where
  "lift r w = (r, w)"

definition act_bind :: "('w, 'e, 'a) act \<Rightarrow> ('a \<Rightarrow> ('w, 'e, 'b) act) \<Rightarrow> ('w, 'e, 'b) act" where
  "act_bind m k w =
    (case m w of (Ok x, w') \<Rightarrow> k x w' | (Err e, w') \<Rightarrow> (Err e, w') | (Panic, w') \<Rightarrow> (Panic, w'))"

text \<open>\<open>.context(..)\<close> on a state-changing call.\<close>

definition act_err :: "('e \<Rightarrow> 'f) \<Rightarrow> ('w, 'e, 'a) act \<Rightarrow> ('w, 'f, 'a) act" where
  "act_err f m w = (case m w of (r, w') \<Rightarrow> (map_err f r, w'))"

text \<open>\<open>match call().await { Ok(x) => .., Err(e) => .. }\<close>; a panic keeps unwinding.\<close>

definition act_match ::
  "('w, 'e, 'a) act \<Rightarrow> ('a \<Rightarrow> ('w, 'f, 'b) act) \<Rightarrow> ('e \<Rightarrow> ('w, 'f, 'b) act) \<Rightarrow> ('w, 'f, 'b) act" where
  "act_match m k h w =
    (case m w of (Ok x, w') \<Rightarrow> k x w' | (Err e, w') \<Rightarrow> h e w' | (Panic, w') \<Rightarrow> (Panic, w'))"

text \<open>Changing the state without a result.\<close>

definition act_modify :: "('w \<Rightarrow> 'w) \<Rightarrow> ('w, 'e, unit) act" where
  "act_modify f w = (Ok (), f w)"

text \<open>An action on one part of a larger state, given how to read and write that part.\<close>

definition act_zoom ::
  "('w \<Rightarrow> 'v) \<Rightarrow> ('v \<Rightarrow> 'w \<Rightarrow> 'w) \<Rightarrow> ('v, 'e, 'a) act \<Rightarrow> ('w, 'e, 'a) act" where
  "act_zoom get put m w = (case m (get w) of (r, v) \<Rightarrow> (r, put v w))"

section \<open>Evaluation\<close>

lemma ret_eq [act_simps]: "ret x w = (r, w') \<longleftrightarrow> r = Ok x \<and> w' = w"
  by (auto simp: ret_def)

lemma lift_eq [act_simps]: "lift r w = (r', w') \<longleftrightarrow> r = r' \<and> w' = w"
  by (auto simp: lift_def)

lemma act_modify_eq [act_simps]: "act_modify f w = (r, w') \<longleftrightarrow> r = Ok () \<and> w' = f w"
  by (auto simp: act_modify_def)

lemma act_bind_eq_Ok [act_simps]:
  "act_bind m k w = (Ok y, w'') \<longleftrightarrow> (\<exists>x w'. m w = (Ok x, w') \<and> k x w' = (Ok y, w''))"
  by (auto simp: act_bind_def split: prod.splits res.splits)

lemma act_bind_eq_Err:
  "act_bind m k w = (Err e, w'') \<longleftrightarrow>
    m w = (Err e, w'') \<or> (\<exists>x w'. m w = (Ok x, w') \<and> k x w' = (Err e, w''))"
  by (auto simp: act_bind_def split: prod.splits res.splits)

lemma act_bind_eq_Panic:
  "act_bind m k w = (Panic, w'') \<longleftrightarrow>
    m w = (Panic, w'') \<or> (\<exists>x w'. m w = (Ok x, w') \<and> k x w' = (Panic, w''))"
  by (auto simp: act_bind_def split: prod.splits res.splits)

text \<open>A sequence either stops in its first call or goes on from where that left the state.\<close>

lemma act_bind_split:
  assumes "act_bind m k w = (r, w'')"
  obtains (continues) x w' where "m w = (Ok x, w')" "k x w' = (r, w'')"
    | (stops) v where "m w = (v, w'')" "\<not> is_ok v" "\<not> is_ok r"
  using assms by (cases "m w"; cases "fst (m w)") (auto simp: act_bind_def)

lemma act_err_eq_Ok [act_simps]: "act_err f m w = (Ok x, w') \<longleftrightarrow> m w = (Ok x, w')"
  by (auto simp: act_err_def res_simps split: prod.splits)

lemma act_err_eq_Panic [act_simps]: "act_err f m w = (Panic, w') \<longleftrightarrow> m w = (Panic, w')"
  by (auto simp: act_err_def split: prod.splits)

lemma act_bind_run [simp]:
  "m w = (Ok x, w') \<Longrightarrow> act_bind m k w = k x w'"
  "m w = (Err e, w') \<Longrightarrow> act_bind m k w = (Err e, w')"
  "m w = (Panic, w') \<Longrightarrow> act_bind m k w = (Panic, w')"
  by (simp_all add: act_bind_def)

lemma act_bind_ret [simp]: "act_bind (ret x) k w = k x w"
  by (simp add: act_bind_def ret_def)

lemma act_bind_lift [simp]:
  "act_bind (lift (Ok x)) k w = k x w"
  "act_bind (lift (Err e)) k w = (Err e, w)"
  "act_bind (lift Panic) k w = (Panic, w)"
  by (simp_all add: act_bind_def lift_def)

section \<open>Properties kept by an action\<close>

definition keeps :: "('w \<Rightarrow> bool) \<Rightarrow> ('w, 'e, 'a) act \<Rightarrow> bool" where
  "keeps P m \<longleftrightarrow> (\<forall>w. P w \<longrightarrow> P (snd (m w)))"

lemma keepsI: "(\<And>w. P w \<Longrightarrow> P (snd (m w))) \<Longrightarrow> keeps P m"
  by (simp add: keeps_def)

lemma keepsD: "keeps P m \<Longrightarrow> P w \<Longrightarrow> m w = (r, w') \<Longrightarrow> P w'"
  by (metis keeps_def snd_conv)

lemma keeps_ret [keeps_intros]: "keeps P (ret x)"
  by (simp add: keeps_def ret_def)

lemma keeps_lift [keeps_intros]: "keeps P (lift r)"
  by (simp add: keeps_def lift_def)

lemma keeps_bind [keeps_intros]:
  "keeps P m \<Longrightarrow> (\<And>x. keeps P (k x)) \<Longrightarrow> keeps P (act_bind m k)"
  by (auto simp: keeps_def act_bind_def split: prod.splits res.splits)

lemma keeps_err [keeps_intros]: "keeps P m \<Longrightarrow> keeps P (act_err f m)"
  by (auto simp: keeps_def act_err_def split: prod.splits)

lemma keeps_match [keeps_intros]:
  "keeps P m \<Longrightarrow> (\<And>x. keeps P (k x)) \<Longrightarrow> (\<And>e. keeps P (h e)) \<Longrightarrow> keeps P (act_match m k h)"
  by (auto simp: keeps_def act_match_def split: prod.splits res.splits)

lemma keeps_modify [keeps_intros]: "(\<And>w. P w \<Longrightarrow> P (f w)) \<Longrightarrow> keeps P (act_modify f)"
  by (simp add: keeps_def act_modify_def)

lemma keeps_if [keeps_intros]:
  "(b \<Longrightarrow> keeps P m) \<Longrightarrow> (\<not> b \<Longrightarrow> keeps P m') \<Longrightarrow> keeps P (if b then m else m')"
  by simp

lemma keeps_option [keeps_intros]:
  "keeps P m \<Longrightarrow> (\<And>x. keeps P (k x)) \<Longrightarrow> keeps P (case v of None \<Rightarrow> m | Some x \<Rightarrow> k x)"
  by (cases v) auto

end
