(* ===== verification/Execution.thy ===== *)
theory Execution
  imports Effects Config
begin

text \<open>
  Execution preparation and life cycle (\<open>src/crates/execution/src/lib.rs\<close>).  An
  \<open>anyhow\<close> error is the outermost message, the one \<open>Display\<close> prints.

  The alloy crates are the parameter \<open>al\<close>: how an address and a 32-byte hash are read
  from text, how an address is printed, and the ABI encoding of the two router calls.
  Addresses and hashes are byte lists.  A transport is a record of calls on a state
  \<open>'w\<close> that stands for everything outside the process; a call made under
  \<open>tokio::time::timeout\<close> takes the limit in seconds and answers \<open>None\<close> when it ran out.
\<close>

type_synonym bytes = "u8 list"

record PreparedExecution =
  pe_attempt :: ExecutionAttempt
  pe_should_submit :: bool

record FinalizedExecution =
  fe_attempt :: ExecutionAttempt
  fe_outcome :: ExecutionOutcome

record SubmissionPayload =
  sp_router_address :: string
  sp_calldata :: bytes
  sp_value :: Amount

datatype ExecutionRunResult =
    Blocked ExecutionAttempt
  | SubmittedPending ExecutionAttempt
  | Finalized FinalizedExecution

record RouterRouteStep =
  rs_venueKind :: u8
  rs_target :: bytes
  rs_tokenIn :: bytes
  rs_tokenOut :: bytes
  rs_fee :: "24 word"
  rs_minAmountOut :: U256
  rs_extraData :: bytes

record RouterExecutionPlan =
  pl_settlementToken :: bytes
  pl_fundingAmount :: U256
  pl_minRepayAmount :: U256
  pl_minSurplus :: U256
  pl_deadline :: U256
  pl_steps :: "RouterRouteStep list"
  pl_riskHash :: bytes

datatype RouterVenueKind = Venue_UniswapV2 | Venue_UniswapV3Single | Venue_AerodromeV2

fun venue_kind_u8 :: "RouterVenueKind \<Rightarrow> u8" where
  "venue_kind_u8 Venue_UniswapV2 = 1"
| "venue_kind_u8 Venue_UniswapV3Single = 2"
| "venue_kind_u8 Venue_AerodromeV2 = 3"

record alloy =
  al_address :: "string \<Rightarrow> bytes option"
  al_show_address :: "bytes \<Rightarrow> string"
  al_bytes32 :: "string \<Rightarrow> bytes option"
  al_encode_plan :: "RouterExecutionPlan \<Rightarrow> bytes"
  al_encode_flashloan :: "RouterExecutionPlan \<Rightarrow> bytes"

datatype EthCallSimulation =
    Sim_Passed "u64 option"
  | Sim_Skipped string

fun is_passed :: "EthCallSimulation \<Rightarrow> bool" where
  "is_passed (Sim_Passed _) = True"
| "is_passed (Sim_Skipped _) = False"

record 'w transport =
  tr_submit :: "SubmissionPayload \<Rightarrow> ExecutionAttempt \<Rightarrow> u64 \<Rightarrow> 'w \<Rightarrow> (string, string) res option \<times> 'w"
  tr_await_receipt ::
    "ExecutionRequest \<Rightarrow> ExecutionAttempt \<Rightarrow> u64 \<Rightarrow> ('w, string, ExecutionReceipt option) act"
  tr_simulate ::
    "SubmissionPayload \<Rightarrow> ExecutionAttempt \<Rightarrow> u64 \<Rightarrow> 'w \<Rightarrow> (string, EthCallSimulation) res option \<times> 'w"

definition default_simulate ::
  "SubmissionPayload \<Rightarrow> ExecutionAttempt \<Rightarrow> u64 \<Rightarrow> 'w \<Rightarrow> (string, EthCallSimulation) res option \<times> 'w" where
  "default_simulate payload att secs w =
    (Some (Ok (Sim_Skipped ''transport does not implement live eth_call simulation'')), w)"

definition unavailable_transport :: "string \<Rightarrow> 'w transport" where
  "unavailable_transport reason =
    \<lparr>tr_submit = (\<lambda>payload att secs w. (Some (Err reason), w)),
     tr_await_receipt = (\<lambda>request att secs. lift (Err reason)),
     tr_simulate = default_simulate\<rparr>"

section \<open>Preparation\<close>

definition padded_gas_limit :: "u64 \<Rightarrow> u32 \<Rightarrow> (string, u64) res" where
  "padded_gas_limit gas_estimate multiplier_bps =
    attempt (ok_or ''gas limit padding overflow''
      (checked_mul (ucast gas_estimate :: u128) (ucast multiplier_bps))) (\<lambda>numerator.
    attempt (ok_or ''gas limit padding overflow'' (checked_add numerator 9999)) (\<lambda>sum.
    ok_or ''padded gas limit does not fit into u64'' (try_narrow (sum div 10000))))"

definition parse_optional_amount :: "string \<Rightarrow> string option \<Rightarrow> (string, Amount option) res" where
  "parse_optional_amount key value =
    transpose_opt (\<lambda>raw. ok_or (''failed to parse '' @ key) (parse_uint raw)) value"

definition parse_required_amount :: "string \<Rightarrow> string option \<Rightarrow> (string, Amount) res" where
  "parse_required_amount key value =
    attempt (ok_or (key @ '' is required for this execution mode'') value) (\<lambda>raw.
    ok_or (''failed to parse '' @ key) (parse_uint raw))"

fun execution_mode_label :: "ExecutionMode \<Rightarrow> string" where
  "execution_mode_label Shadow = ''shadow''"
| "execution_mode_label Canary = ''canary''"
| "execution_mode_label Live = ''live''"

definition submission_policy ::
  "ExecutionConfig \<Rightarrow> Amount \<Rightarrow> Amount \<Rightarrow> (string, bool \<times> string option) res" where
  "submission_policy config requested_notional current_daily =
    (case ex_mode config of
       Shadow \<Rightarrow> Ok (False, Some ''execution mode is configured for build-only operation'')
     | Canary \<Rightarrow>
         attempt (parse_required_amount ''EXECUTION_CANARY_MAX_TRADE_WEI'' (ex_canary_max_trade_wei config))
           (\<lambda>max_trade.
         attempt (parse_required_amount ''EXECUTION_CANARY_MAX_DAILY_WEI'' (ex_canary_max_daily_wei config))
           (\<lambda>max_daily.
         if requested_notional > max_trade
         then Ok (False, Some ''request exceeds canary per-trade notional limit'')
         else
           attempt (ok_or ''canary daily requested notional overflow''
             (checked_add current_daily requested_notional)) (\<lambda>projected_daily.
           if projected_daily > max_daily
           then Ok (False, Some ''request exceeds canary daily notional limit'')
           else Ok (True, None))))
     | Live \<Rightarrow> Ok (True, None))"

definition requested_notional :: "ExecutionRequest \<Rightarrow> Amount" where
  "requested_notional request =
    (case rq_flashloan_amount request of Some a \<Rightarrow> a | None \<Rightarrow> rq_min_repay request)"

definition prepare_execution ::
  "ExecutionConfig \<Rightarrow> ExecutionRequest \<Rightarrow> SimulationResult \<Rightarrow> Amount \<Rightarrow> (string, PreparedExecution) res" where
  "prepare_execution config request simulation current_daily =
    attempt (ensure (rq_steps request \<noteq> []) ''execution request must contain at least one step'') (\<lambda>_.
    attempt (ensure (requested_notional request \<noteq> 0)
      ''execution request notional must be greater than zero'') (\<lambda>_.
    attempt (padded_gas_limit (sim_gas_estimate simulation) (ex_gas_limit_multiplier_bps config)) (\<lambda>gas_limit.
    attempt (parse_optional_amount ''EXECUTION_MAX_FEE_PER_GAS_WEI'' (ex_max_fee_per_gas_wei config)) (\<lambda>max_fee.
    attempt (parse_optional_amount ''EXECUTION_MAX_PRIORITY_FEE_PER_GAS_WEI''
      (ex_max_priority_fee_per_gas_wei config)) (\<lambda>max_priority.
    attempt (submission_policy config (requested_notional request) current_daily) (\<lambda>(allowed, blocked).
    Ok \<lparr>pe_attempt =
          \<lparr>at_request_id = rq_opportunity_id request, at_tx_hash = None, at_status = Built,
           at_execution_mode = execution_mode_label (ex_mode config),
           at_submission_allowed = allowed, at_blocked_reason = blocked,
           at_requested_notional = requested_notional request, at_gas_limit = Some gas_limit,
           at_max_fee_per_gas = max_fee, at_max_priority_fee_per_gas = max_priority\<rparr>,
        pe_should_submit = allowed\<rparr>))))))"

section \<open>Calldata\<close>

definition parse_address :: "alloy \<Rightarrow> string \<Rightarrow> string \<Rightarrow> (string, bytes) res" where
  "parse_address al value context =
    ok_or (''failed to parse '' @ context @ '' `'' @ value @ ''` as an address'') (al_address al value)"

definition parse_risk_hash :: "alloy \<Rightarrow> string \<Rightarrow> (string, bytes) res" where
  "parse_risk_hash al value =
    (let normalized = (if prefix ''0x'' value then value else ''0x'' @ value)
     in ok_or (''failed to parse risk hash `'' @ value @ ''` as bytes32'') (al_bytes32 al normalized))"

text \<open>\<open>U24::from\<close> panics on a value that does not fit.\<close>

definition u24_from :: "u64 \<Rightarrow> ('e, 24 word) res" where
  "u24_from n = (case try_narrow n of Some f \<Rightarrow> Ok f | None \<Rightarrow> Panic)"

definition aerodrome_extra :: "bool \<Rightarrow> bytes \<Rightarrow> bytes" where
  "aerodrome_extra is_stable factory =
    replicate 31 0 @ [if is_stable then 1 else 0] @ replicate 12 0 @ factory"

definition step_message :: "nat \<Rightarrow> string \<Rightarrow> string" where
  "step_message index rest = ''execution step '' @ show_nat index @ rest"

text \<open>The arms of the match on the calldata hint; the flag of the Aerodrome arm is \<open>stable\<close>.\<close>

datatype route_arm = Arm_V3 | Arm_V2 | Arm_Aerodrome bool

definition hint_arm :: "string \<Rightarrow> route_arm option" where
  "hint_arm hint =
    (if hint = ''uniswap_v3_exact_input_single'' \<or> hint = ''v3_exact_input_single'' then Some Arm_V3
     else if hint = ''v2_exact_input'' \<or> hint = ''uniswap_v2_exact_input'' then Some Arm_V2
     else if hint = ''aerodrome_v2_volatile'' \<or> hint = ''aerodrome_v2_stable''
       then Some (Arm_Aerodrome (hint = ''aerodrome_v2_stable''))
     else None)"

definition build_route_step :: "alloy \<Rightarrow> ExecutionStep \<Rightarrow> nat \<Rightarrow> (string, RouterRouteStep) res" where
  "build_route_step al step index =
    attempt (ok_or (step_message index '' is missing calldata_hint'') (st_calldata_hint step)) (\<lambda>hint.
    attempt (parse_address al (st_target step) ''execution step target'') (\<lambda>target.
    attempt (parse_address al (st_token_in step) ''execution step token_in'') (\<lambda>token_in.
    attempt (parse_address al (st_token_out step) ''execution step token_out'') (\<lambda>token_out.
    let mk = (\<lambda>kind fee extra.
      \<lparr>rs_venueKind = venue_kind_u8 kind, rs_target = target, rs_tokenIn = token_in,
       rs_tokenOut = token_out, rs_fee = fee, rs_minAmountOut = ucast (st_min_amount_out step),
       rs_extraData = extra\<rparr>)
    in case hint_arm hint of
      Some Arm_V3 \<Rightarrow>
        attempt (ok_or (step_message index '' v3 swap is missing pool_fee'') (st_pool_fee step)) (\<lambda>fee_bps.
        attempt (ensure (fee_bps \<le> 1000000)
          (step_message index ('' has an invalid v3 pool fee `'' @ show_uint fee_bps @ ''`''))) (\<lambda>_.
        attempt (u24_from (ucast fee_bps)) (\<lambda>fee_u24.
        Ok (mk Venue_UniswapV3Single fee_u24 []))))
    | Some Arm_V2 \<Rightarrow> Ok (mk Venue_UniswapV2 0 [])
    | Some (Arm_Aerodrome is_stable) \<Rightarrow>
        attempt (ok_or (step_message index '' aerodrome swap is missing aux_address (factory)'')
          (st_aux_address step)) (\<lambda>factory_str.
        attempt (parse_address al factory_str ''execution step aerodrome factory'') (\<lambda>factory.
        Ok (mk Venue_AerodromeV2 0 (aerodrome_extra is_stable factory))))
    | None \<Rightarrow> Err (step_message index ('' uses unsupported calldata hint `'' @ hint @ ''`''))))))"

definition build_plan ::
  "alloy \<Rightarrow> ExecutionConfig \<Rightarrow> ExecutionRequest \<Rightarrow> u64 \<Rightarrow> (string, bytes \<times> RouterExecutionPlan) res" where
  "build_plan al config request now_secs =
    attempt (ok_or ''EXECUTION_ROUTER_ADDRESS is required to build calldata'' (ex_router_address config)) (\<lambda>router.
    attempt (parse_address al router ''EXECUTION_ROUTER_ADDRESS'') (\<lambda>router_address.
    attempt (ok_or ''execution request is missing flashloan_asset'' (rq_flashloan_asset request)) (\<lambda>asset.
    attempt (parse_address al asset ''execution request flashloan_asset'') (\<lambda>settlement_token.
    attempt (parse_risk_hash al (rq_risk_hash request)) (\<lambda>risk_hash.
    attempt (ok_or ''execution request is missing flashloan_amount'' (rq_flashloan_amount request)) (\<lambda>funding_amount.
    attempt (map_res (\<lambda>(index, step). build_route_step al step index) (enumerate 0 (rq_steps request))) (\<lambda>steps.
    attempt (ok_or ''plan deadline overflow'' (checked_add now_secs (ex_plan_deadline_secs config))) (\<lambda>deadline.
    Ok (router_address,
        \<lparr>pl_settlementToken = settlement_token, pl_fundingAmount = ucast funding_amount,
         pl_minRepayAmount = ucast (rq_min_repay request), pl_minSurplus = ucast (rq_min_surplus request),
         pl_deadline = ucast deadline, pl_steps = steps, pl_riskHash = risk_hash\<rparr>)))))))))"

definition build_submission_payload_at ::
  "alloy \<Rightarrow> ExecutionConfig \<Rightarrow> ExecutionRequest \<Rightarrow> u64 \<Rightarrow> (string, SubmissionPayload) res" where
  "build_submission_payload_at al config request now_secs =
    attempt (build_plan al config request now_secs) (\<lambda>(router_address, plan).
    let calldata = (if ex_use_flashloan config then al_encode_flashloan al plan else al_encode_plan al plan)
    in Ok \<lparr>sp_router_address = al_show_address al router_address, sp_calldata = calldata, sp_value = 0\<rparr>)"

text \<open>The system clock in seconds since the epoch; \<open>None\<close> when it is set before the epoch.\<close>

definition current_unix_timestamp :: "u64 option \<Rightarrow> (string, u64) res" where
  "current_unix_timestamp clock = ok_or ''system clock is before UNIX epoch'' clock"

definition build_submission_payload ::
  "alloy \<Rightarrow> ExecutionConfig \<Rightarrow> ExecutionRequest \<Rightarrow> u64 option \<Rightarrow> (string, SubmissionPayload) res" where
  "build_submission_payload al config request clock =
    attempt (current_unix_timestamp clock) (build_submission_payload_at al config request)"

section \<open>Life cycle\<close>

definition mark_submitted :: "ExecutionAttempt \<Rightarrow> string \<Rightarrow> (string, ExecutionAttempt) res" where
  "mark_submitted att tx_hash =
    attempt (ensure (at_status att = Built)
      ''only built execution attempts can transition to submitted'') (\<lambda>_.
    attempt (ensure (at_submission_allowed att)
      ''execution attempt is blocked and cannot transition to submitted'') (\<lambda>_.
    attempt (ensure (trim tx_hash \<noteq> []) ''submitted transaction hash must not be empty'') (\<lambda>_.
    Ok (att\<lparr>at_status := Submitted, at_tx_hash := Some tx_hash\<rparr>))))"

definition total_fee_paid :: "ExecutionReceipt \<Rightarrow> (string, Amount option) res" where
  "total_fee_paid receipt =
    (case (rc_gas_used receipt, rc_effective_gas_price receipt) of
       (Some gas_used, Some price) \<Rightarrow>
         attempt (ok_or ''execution fee overflow'' (checked_mul (ucast gas_used) price)) (\<lambda>execution_fee.
         attempt (ok_or ''total fee overflow'' (checked_add execution_fee
           (case rc_l1_fee_paid receipt of Some l1 \<Rightarrow> l1 | None \<Rightarrow> 0))) (\<lambda>fee.
         Ok (Some fee)))
     | _ \<Rightarrow> Ok (rc_l1_fee_paid receipt))"

fun classify_success :: "Amount option \<Rightarrow> Amount \<Rightarrow> ExecutionStatus \<times> string option" where
  "classify_success (Some realized_surplus) min_surplus =
    (if realized_surplus \<ge> min_surplus then (ProfitRealized, None)
     else (Included, Some (''transaction included but realized surplus '' @ show_uint realized_surplus @
       '' is below minimum required '' @ show_uint min_surplus)))"
| "classify_success None min_surplus =
    (Included, Some ''transaction included but realized surplus is not yet known'')"

definition finalize_from_receipt ::
  "ExecutionAttempt \<Rightarrow> ExecutionReceipt \<Rightarrow> Amount option \<Rightarrow> Amount \<Rightarrow> (string, FinalizedExecution) res" where
  "finalize_from_receipt att receipt realized_surplus min_surplus =
    attempt (ensure (at_status att = Submitted \<or> at_status att = Included)
      ''only submitted or included attempts can be finalized from a receipt'') (\<lambda>_.
    attempt (ensure (case at_tx_hash att of Some h \<Rightarrow> h = rc_tx_hash receipt | None \<Rightarrow> True)
      ''receipt transaction hash does not match the attempt'') (\<lambda>_.
    attempt (total_fee_paid receipt) (\<lambda>fee.
    let (final_status, reason) =
      (if rc_success receipt then classify_success realized_surplus min_surplus
       else (Reverted, Some (case rc_revert_reason receipt of
               Some r \<Rightarrow> r | None \<Rightarrow> ''transaction reverted on-chain'')))
    in Ok
      \<lparr>fe_attempt = att\<lparr>at_tx_hash := Some (rc_tx_hash receipt), at_status := final_status\<rparr>,
       fe_outcome =
        \<lparr>oc_request_id = at_request_id att, oc_final_status = final_status,
         oc_tx_hash = rc_tx_hash receipt, oc_block_number = rc_block_number receipt,
         oc_total_fee_paid = fee, oc_realized_surplus = realized_surplus, oc_reason = reason\<rparr>\<rparr>)))"

definition mark_dropped :: "ExecutionAttempt \<Rightarrow> string \<Rightarrow> (string, FinalizedExecution) res" where
  "mark_dropped att reason =
    attempt (ensure (at_status att = Submitted)
      ''only submitted execution attempts can transition to dropped'') (\<lambda>_.
    attempt (ensure (trim reason \<noteq> []) ''dropped execution attempts must record a reason'') (\<lambda>_.
    attempt (ok_or ''submitted execution attempt is missing its transaction hash''
      (at_tx_hash att)) (\<lambda>tx_hash.
    Ok
      \<lparr>fe_attempt = att\<lparr>at_status := Dropped\<rparr>,
       fe_outcome =
        \<lparr>oc_request_id = at_request_id att, oc_final_status = Dropped, oc_tx_hash = tx_hash,
         oc_block_number = None, oc_total_fee_paid = None, oc_realized_surplus = None,
         oc_reason = Some reason\<rparr>\<rparr>)))"

text \<open>A call raced against a timer: the message of the timer when it wins.\<close>

definition under_timer :: "('w \<Rightarrow> ('e, 'a) res option \<times> 'w) \<Rightarrow> 'e \<Rightarrow> ('w, 'e, 'a) act" where
  "under_timer m elapsed w = (case m w of (Some r, w') \<Rightarrow> (r, w') | (None, w') \<Rightarrow> (Err elapsed, w'))"

definition receipt_timeout_reason :: string where
  "receipt_timeout_reason = ''timed out while waiting for execution receipt''"

text \<open>The run after a successful broadcast.\<close>

definition after_submit ::
  "'w transport \<Rightarrow> ExecutionConfig \<Rightarrow> ExecutionRequest \<Rightarrow> ExecutionAttempt \<Rightarrow> ('w, string, ExecutionRunResult) act" where
  "after_submit transport config request submitted =
      act_match (tr_await_receipt transport request submitted (ex_receipt_timeout_secs config))
        (\<lambda>maybe_receipt. case maybe_receipt of
           None \<Rightarrow> act_bind (lift (mark_dropped submitted receipt_timeout_reason)) (\<lambda>f. ret (Finalized f))
         | Some receipt \<Rightarrow>
             act_bind (lift (finalize_from_receipt submitted receipt None (rq_min_surplus request)))
               (\<lambda>f. ret (Finalized f)))
        (\<lambda>error. ret (SubmittedPending submitted))"

definition execute_with_transport ::
  "alloy \<Rightarrow> u64 option \<Rightarrow> 'w transport \<Rightarrow> ExecutionConfig \<Rightarrow> ExecutionRequest \<Rightarrow> SimulationResult \<Rightarrow> Amount
    \<Rightarrow> ('w, string, ExecutionRunResult) act" where
  "execute_with_transport al clock transport config request simulation current_daily =
    act_bind (lift (prepare_execution config request simulation current_daily)) (\<lambda>prepared.
    if \<not> pe_should_submit prepared then ret (Blocked (pe_attempt prepared))
    else
      act_bind (lift (build_submission_payload al config request clock)) (\<lambda>payload.
      act_bind (under_timer (tr_submit transport payload (pe_attempt prepared) (ex_submit_timeout_secs config))
        ''timed out while submitting execution attempt'') (\<lambda>tx_hash.
      act_bind (lift (mark_submitted (pe_attempt prepared) tx_hash)) (after_submit transport config request))))"

section \<open>Gas padding and submission policy\<close>

lemma gas_padding_product: "unat (g :: u64) * unat (m :: u32) + 9999 < 2 ^ 128"
proof -
  have "unat g * unat m \<le> 2 ^ 64 * 2 ^ 32"
    using unat_lt_width[of g] unat_lt_width[of m] by (intro mult_le_mono) simp_all
  then show ?thesis by simp
qed

lemma padded_gas_limit_eq:
  "padded_gas_limit g m =
    (let l = (unat g * unat m + 9999) div 10000
     in if l < 2 ^ 64 then Ok (word_of_nat l) else Err ''padded gas limit does not fit into u64'')"
proof -
  let ?g = "ucast g :: u128" and ?m = "ucast m :: u128"
  have sizes: "unat ?g = unat g" "unat ?m = unat m" by simp_all
  have small: "unat g * unat m + 9999 < 2 ^ 128" by (rule gas_padding_product)
  then have mul: "checked_mul ?g ?m = Some (?g * ?m)" and prod: "unat (?g * ?m) = unat g * unat m"
    by (simp_all add: checked_mul_def unat_times_fits sizes)
  from small have add: "checked_add (?g * ?m) 9999 = Some (?g * ?m + 9999)"
    and sum: "unat (?g * ?m + 9999) = unat g * unat m + 9999"
    by (simp_all add: checked_add_def prod unat_plus_fits)
  define l where "l = (?g * ?m + 9999) div 10000"
  have l: "unat l = (unat g * unat m + 9999) div 10000"
    unfolding l_def by (simp add: unat_div_word sum del: unat_plus_if')
  have "padded_gas_limit g m = ok_or ''padded gas limit does not fit into u64'' (try_narrow l)"
    by (simp add: padded_gas_limit_def mul add l_def)
  also have "\<dots> = (if unat l < 2 ^ 64 then Ok (word_of_nat (unat l)) else
      Err ''padded gas limit does not fit into u64'')"
    by (simp add: try_narrow_def word_of_nat_eqI unat_ucast_fits)
  finally show ?thesis by (simp add: l Let_def)
qed

lemma padded_not_below: "10000 \<le> m \<Longrightarrow> g \<le> (g * m + 9999) div (10000 :: nat)"
proof -
  assume "10000 \<le> m"
  then have "g * 10000 \<le> g * m" by simp
  then show ?thesis by linarith
qed

text \<open>The padded gas limit is the estimate scaled by the multiplier, rounded up.  The only
  failure is a result that does not fit 64 bits, and a multiplier of at least 10,000 basis
  points (which configuration loading enforces) never gives less gas than the estimate.\<close>

theorem gas_padding_exact:
  "case padded_gas_limit g m of
     Ok l \<Rightarrow> unat l = (unat g * unat m + 9999) div 10000 \<and> (10000 \<le> m \<longrightarrow> g \<le> l)
   | Err e \<Rightarrow> 2 ^ 64 \<le> (unat g * unat m + 9999) div 10000
   | Panic \<Rightarrow> False"
  by (auto simp: padded_gas_limit_eq Let_def word_order_unat take_bit_nat_eq_self padded_not_below
      unat_of_nat_fits)


theorem gas_padding_exact_witness:
  "padded_gas_limit 200001 12000 = Ok 240002 \<and> (10000 :: u32) \<le> 12000 \<and> (200001 :: u64) \<le> 240002"
proof -
  have "padded_gas_limit 200001 12000 = Ok 240002"
    by (simp add: padded_gas_limit_eq)
  with gas_padding_exact[of 200001 12000] show ?thesis by simp
qed

lemma prepare_execution_eq_Ok:
  "prepare_execution config request simulation daily = Ok p \<longleftrightarrow>
    (\<exists>gas fee prio allowed blocked.
      rq_steps request \<noteq> [] \<and> requested_notional request \<noteq> 0 \<and>
      padded_gas_limit (sim_gas_estimate simulation) (ex_gas_limit_multiplier_bps config) = Ok gas \<and>
      parse_optional_amount ''EXECUTION_MAX_FEE_PER_GAS_WEI'' (ex_max_fee_per_gas_wei config) = Ok fee \<and>
      parse_optional_amount ''EXECUTION_MAX_PRIORITY_FEE_PER_GAS_WEI''
        (ex_max_priority_fee_per_gas_wei config) = Ok prio \<and>
      submission_policy config (requested_notional request) daily = Ok (allowed, blocked) \<and>
      p = \<lparr>pe_attempt =
          \<lparr>at_request_id = rq_opportunity_id request, at_tx_hash = None, at_status = Built,
           at_execution_mode = execution_mode_label (ex_mode config),
           at_submission_allowed = allowed, at_blocked_reason = blocked,
           at_requested_notional = requested_notional request, at_gas_limit = Some gas,
           at_max_fee_per_gas = fee, at_max_priority_fee_per_gas = prio\<rparr>,
        pe_should_submit = allowed\<rparr>)"
  by (auto simp: prepare_execution_def res_simps)

lemma checked_sum_within:
  "unat a + unat b \<le> unat (d :: 'a::len word) \<longleftrightarrow> (\<exists>s. checked_add a b = Some s \<and> s \<le> d)"
proof
  assume le: "unat a + unat b \<le> unat d"
  then have "unat a + unat b < 2 ^ LENGTH('a)" using unat_lt_width[of d] by (rule le_less_trans)
  then have "checked_add a b = Some (a + b)" "unat (a + b) = unat a + unat b"
    by (simp_all add: checked_add_def unat_plus_fits)
  with le show "\<exists>s. checked_add a b = Some s \<and> s \<le> d" by (simp add: word_le_nat_alt)
qed (auto simp: int_simps word_le_nat_alt)

lemma submission_policy_allowed:
  "submission_policy config n daily = Ok (True, blocked) \<longleftrightarrow> blocked = None \<and>
    (ex_mode config = Live \<or>
     ex_mode config = Canary \<and>
       (\<exists>ts t ds d. ex_canary_max_trade_wei config = Some ts \<and> parse_uint ts = Some (t :: Amount) \<and>
         ex_canary_max_daily_wei config = Some ds \<and> parse_uint ds = Some (d :: Amount) \<and>
         unat n \<le> unat t \<and> unat daily + unat n \<le> unat d))"
  unfolding checked_sum_within word_le_nat_alt[symmetric]
  by (cases "ex_mode config"; cases "checked_add daily n")
    (auto simp: submission_policy_def parse_required_amount_def res_simps not_less split: if_splits)

text \<open>C27: preparation allows submission exactly when the mode is live, or it is canary, both canary
  limits are present and numeric, the trade is within the per-trade limit, and the notional
  already requested today plus this trade is within the daily limit (as exact numbers,
  without wrap-around).  Shadow mode never allows it.\<close>

theorem submission_allowed_iff:
  assumes "prepare_execution config request simulation daily = Ok p"
  shows "pe_should_submit p \<longleftrightarrow>
    ex_mode config = Live \<or>
    ex_mode config = Canary \<and>
      (\<exists>ts t ds d. ex_canary_max_trade_wei config = Some ts \<and> parse_uint ts = Some (t :: Amount) \<and>
        ex_canary_max_daily_wei config = Some ds \<and> parse_uint ds = Some (d :: Amount) \<and>
        unat (requested_notional request) \<le> unat t \<and>
        unat daily + unat (requested_notional request) \<le> unat d)"
proof -
  from assms obtain allowed blocked where
    pol: "submission_policy config (requested_notional request) daily = Ok (allowed, blocked)"
    and p: "pe_should_submit p = allowed"
    by (auto simp: prepare_execution_eq_Ok)
  show ?thesis
  proof (cases allowed)
    case True
    with pol p show ?thesis by (simp add: submission_policy_allowed)
  next
    case False
    with pol have "\<And>b. submission_policy config (requested_notional request) daily \<noteq> Ok (True, b)"
      by simp
    then show ?thesis unfolding submission_policy_allowed using p False by blast
  qed
qed

definition sample_exec_config :: ExecutionConfig where
  "sample_exec_config =
    \<lparr>ex_mode = Canary, ex_submit_timeout_secs = 5, ex_receipt_timeout_secs = 30,
     ex_router_address = Some ''router'', ex_canary_max_trade_wei = Some ''1000'',
     ex_canary_max_daily_wei = Some ''5000'', ex_gas_limit_multiplier_bps = 12000,
     ex_max_fee_per_gas_wei = Some ''100'', ex_max_priority_fee_per_gas_wei = None,
     ex_plan_deadline_secs = 60, ex_use_flashloan = True, ex_ethcall_preflight_required = True,
     ex_ethcall_timeout_secs = 5\<rparr>"

definition sample_step :: ExecutionStep where
  "sample_step =
    \<lparr>st_venue = None, st_protocol = None, st_target = ''a'', st_token_in = ''b'', st_token_out = ''c'',
     st_pool_fee = None, st_amount_in = Some 900, st_min_amount_out = 950,
     st_calldata_hint = Some ''v2_exact_input'', st_aux_address = None\<rparr>"

definition sample_request :: ExecutionRequest where
  "sample_request =
    \<lparr>rq_opportunity_id = ''op'', rq_steps = [sample_step], rq_min_repay = 900, rq_min_surplus = 10,
     rq_flashloan_asset = Some ''b'', rq_flashloan_amount = Some 900, rq_risk_hash = ''00''\<rparr>"

definition sample_exec_sim :: SimulationResult where
  "sample_exec_sim =
    \<lparr>sim_opportunity_id = ''op'', sim_accepted = True, sim_expected_gross_profit = 50,
     sim_expected_net_profit = 20, sim_gas_estimate = 100000, sim_gas_cost_wei = 20,
     sim_l1_data_fee = 10, sim_notes = []\<rparr>"

definition sample_attempt :: ExecutionAttempt where
  "sample_attempt =
    \<lparr>at_request_id = ''op'', at_tx_hash = None, at_status = Built, at_execution_mode = ''canary'',
     at_submission_allowed = True, at_blocked_reason = None, at_requested_notional = 900,
     at_gas_limit = Some 120000, at_max_fee_per_gas = Some 100, at_max_priority_fee_per_gas = None\<rparr>"

lemma sample_amounts:
  "parse_uint ''1000'' = Some (1000 :: Amount)" "parse_uint ''5000'' = Some (5000 :: Amount)"
  "parse_uint ''100'' = Some (100 :: Amount)"
  by (simp_all add: from_str_radix_def digit_val_def word_of_nat_checked_def)

lemma sample_prepared:
  "prepare_execution sample_exec_config sample_request sample_exec_sim 4000 =
    Ok \<lparr>pe_attempt = sample_attempt, pe_should_submit = True\<rparr>"
  by (simp add: prepare_execution_def sample_exec_config_def sample_request_def sample_exec_sim_def
      sample_attempt_def requested_notional_def padded_gas_limit_eq parse_optional_amount_def
      submission_policy_def parse_required_amount_def sample_amounts word_eval)

theorem submission_allowed_iff_witness:
  "prepare_execution sample_exec_config sample_request sample_exec_sim 4000 =
      Ok \<lparr>pe_attempt = sample_attempt, pe_should_submit = True\<rparr> \<and>
    unat (4000 :: Amount) + unat (requested_notional sample_request) \<le> 5000"
  using submission_allowed_iff[OF sample_prepared] sample_prepared
  by (auto simp: sample_exec_config_def sample_amounts)


section \<open>The life cycle of an attempt\<close>

lemma mark_submitted_eq_Ok:
  "mark_submitted a h = Ok b \<longleftrightarrow>
    at_status a = Built \<and> at_submission_allowed a \<and> trim h \<noteq> [] \<and>
    b = a\<lparr>at_status := Submitted, at_tx_hash := Some h\<rparr>"
  by (auto simp: mark_submitted_def res_simps)

lemma mark_dropped_eq_Ok:
  "mark_dropped a r = Ok f \<longleftrightarrow>
    at_status a = Submitted \<and> trim r \<noteq> [] \<and>
    (\<exists>h. at_tx_hash a = Some h \<and>
      f = \<lparr>fe_attempt = a\<lparr>at_status := Dropped\<rparr>,
           fe_outcome = \<lparr>oc_request_id = at_request_id a, oc_final_status = Dropped, oc_tx_hash = h,
             oc_block_number = None, oc_total_fee_paid = None, oc_realized_surplus = None,
             oc_reason = Some r\<rparr>\<rparr>)"
  by (auto simp: mark_dropped_def res_simps)

lemma finalize_from_receiptD:
  assumes "finalize_from_receipt a r s m = Ok f"
  shows "at_status a = Submitted \<or> at_status a = Included"
    and "at_tx_hash a = None \<or> at_tx_hash a = Some (rc_tx_hash r)"
    and "fe_attempt f = a\<lparr>at_tx_hash := Some (rc_tx_hash r), at_status := oc_final_status (fe_outcome f)\<rparr>"
    and "oc_final_status (fe_outcome f) =
      (if rc_success r then fst (classify_success s m) else Reverted)"
    and "total_fee_paid r = Ok (oc_total_fee_paid (fe_outcome f))"
    and "oc_tx_hash (fe_outcome f) = rc_tx_hash r" "oc_request_id (fe_outcome f) = at_request_id a"
  using assms
  by (cases "classify_success s m"; auto simp: finalize_from_receipt_def res_simps split: option.splits if_splits)+

lemma classify_success_status: "fst (classify_success s m) \<in> {Included, ProfitRealized}"
  by (cases s) auto

inductive attempt_step :: "ExecutionAttempt \<Rightarrow> ExecutionAttempt \<Rightarrow> bool" where
  step_submit: "mark_submitted a h = Ok b \<Longrightarrow> attempt_step a b"
| step_finalize: "finalize_from_receipt a r s m = Ok f \<Longrightarrow> attempt_step a (fe_attempt f)"
| step_drop: "mark_dropped a r = Ok f \<Longrightarrow> attempt_step a (fe_attempt f)"

inductive attempt_reach :: "ExecutionConfig \<Rightarrow> ExecutionRequest \<Rightarrow> ExecutionAttempt \<Rightarrow> bool"
  for config request where
  reach_prepared: "prepare_execution config request simulation daily = Ok p \<Longrightarrow>
    attempt_reach config request (pe_attempt p)"
| reach_step: "attempt_reach config request a \<Longrightarrow> attempt_step a b \<Longrightarrow> attempt_reach config request b"

inductive_cases attempt_step_elim: "attempt_step a b"

definition attempt_inv :: "ExecutionConfig \<Rightarrow> ExecutionRequest \<Rightarrow> ExecutionAttempt \<Rightarrow> bool" where
  "attempt_inv config request a \<longleftrightarrow>
    at_request_id a = rq_opportunity_id request \<and>
    at_requested_notional a = requested_notional request \<and> at_requested_notional a \<noteq> 0 \<and>
    at_gas_limit a \<noteq> None \<and>
    (ex_mode config = Shadow \<longrightarrow> \<not> at_submission_allowed a) \<and>
    (case at_status a of
       Built \<Rightarrow> at_tx_hash a = None
     | Replaced \<Rightarrow> False
     | _ \<Rightarrow> at_submission_allowed a \<and> (\<exists>h. at_tx_hash a = Some h \<and> trim h \<noteq> []))"

lemma attempt_inv_prepared:
  "prepare_execution config request simulation daily = Ok p \<Longrightarrow> attempt_inv config request (pe_attempt p)"
  by (auto simp: prepare_execution_eq_Ok attempt_inv_def submission_policy_def)

lemma attempt_step_cases:
  assumes "attempt_step a b"
  shows "(\<exists>h. trim h \<noteq> [] \<and> at_status a = Built \<and> at_submission_allowed a \<and>
      b = a\<lparr>at_status := Submitted, at_tx_hash := Some h\<rparr>) \<or>
    (\<exists>h s. (at_status a = Submitted \<or> at_status a = Included) \<and>
      (at_tx_hash a = None \<or> at_tx_hash a = Some h) \<and> s \<in> {Included, ProfitRealized, Reverted} \<and>
      b = a\<lparr>at_tx_hash := Some h, at_status := s\<rparr>) \<or>
    at_status a = Submitted \<and> at_tx_hash a \<noteq> None \<and> b = a\<lparr>at_status := Dropped\<rparr>"
  using assms
proof (cases rule: attempt_step.cases)
  case (step_finalize r s m f)
  note D = finalize_from_receiptD[OF step_finalize(2)]
  have "oc_final_status (fe_outcome f) \<in> {Included, ProfitRealized, Reverted}"
    using D(4) classify_success_status[of s m] by auto
  with D(1-3) step_finalize(1) show ?thesis by metis
qed (auto simp: mark_submitted_eq_Ok mark_dropped_eq_Ok)

lemma attempt_inv_step: "attempt_inv config request a \<Longrightarrow> attempt_step a b \<Longrightarrow> attempt_inv config request b"
  by (drule attempt_step_cases) (auto simp: attempt_inv_def)

lemma attempt_reach_inv: "attempt_reach config request a \<Longrightarrow> attempt_inv config request a"
  by (induction rule: attempt_reach.induct) (auto intro: attempt_inv_prepared attempt_inv_step)

text \<open>C25: in every state an attempt can reach through submission, receipts and drops, its identity and
  notional are those of the request, it has a gas limit, a transaction hash is present (and
  not blank) exactly when it has left the built state, it has left that state only if
  submission was allowed (never in shadow mode), and no step ever changes a hash once set or
  leaves a reverted, dropped or profit-realized attempt.\<close>

theorem attempt_lifecycle_invariant:
  assumes "attempt_reach config request a"
  shows "at_request_id a = rq_opportunity_id request \<and>
    at_requested_notional a = requested_notional request \<and> at_gas_limit a \<noteq> None \<and>
    (at_status a = Built \<longleftrightarrow> at_tx_hash a = None) \<and>
    (at_status a \<noteq> Built \<longrightarrow> at_submission_allowed a \<and> ex_mode config \<noteq> Shadow) \<and>
    (\<forall>h. at_tx_hash a = Some h \<longrightarrow> trim h \<noteq> []) \<and>
    (\<forall>b. attempt_step a b \<longrightarrow>
      at_status a \<notin> {Reverted, Dropped, ProfitRealized, Replaced} \<and>
      (at_tx_hash a \<noteq> None \<longrightarrow> at_tx_hash b = at_tx_hash a))"
proof -
  have inv: "attempt_inv config request a" by (rule attempt_reach_inv[OF assms])
  have "at_status a \<notin> {Reverted, Dropped, ProfitRealized, Replaced} \<and>
      (at_tx_hash a \<noteq> None \<longrightarrow> at_tx_hash b = at_tx_hash a)" if "attempt_step a b" for b
    using attempt_step_cases[OF that] inv by (auto simp: attempt_inv_def)
  then show ?thesis
    using inv by (auto simp: attempt_inv_def split: ExecutionStatus.splits)
qed

definition sample_receipt :: ExecutionReceipt where
  "sample_receipt =
    \<lparr>rc_request_id = ''op'', rc_tx_hash = ''0xh'', rc_block_number = Some 7, rc_success = True,
     rc_gas_used = Some 90000, rc_effective_gas_price = Some 50, rc_l1_fee_paid = Some 11,
     rc_revert_reason = None\<rparr>"

lemma sample_hash: "trim ''0xh'' = ''0xh''"
  by code_simp

lemma sample_submitted:
  "mark_submitted sample_attempt ''0xh'' =
    Ok (sample_attempt\<lparr>at_status := Submitted, at_tx_hash := Some ''0xh''\<rparr>)"
  by (simp add: mark_submitted_eq_Ok sample_hash sample_attempt_def)

lemma sample_included:
  "finalize_from_receipt (sample_attempt\<lparr>at_status := Submitted, at_tx_hash := Some ''0xh''\<rparr>)
     sample_receipt (Some 40) 10 =
    Ok \<lparr>fe_attempt = sample_attempt\<lparr>at_status := ProfitRealized, at_tx_hash := Some ''0xh''\<rparr>,
        fe_outcome = \<lparr>oc_request_id = ''op'', oc_final_status = ProfitRealized, oc_tx_hash = ''0xh'',
          oc_block_number = Some 7, oc_total_fee_paid = Some 4500011, oc_realized_surplus = Some 40,
          oc_reason = None\<rparr>\<rparr>"
  by (simp add: finalize_from_receipt_def sample_receipt_def sample_attempt_def total_fee_paid_def word_eval)

theorem attempt_lifecycle_invariant_witness:
  "attempt_reach sample_exec_config sample_request
     (sample_attempt\<lparr>at_status := ProfitRealized, at_tx_hash := Some ''0xh''\<rparr>) \<and>
   \<not> attempt_step (sample_attempt\<lparr>at_status := ProfitRealized, at_tx_hash := Some ''0xh''\<rparr>) sample_attempt"
proof -
  have "attempt_reach sample_exec_config sample_request sample_attempt"
    using reach_prepared[OF sample_prepared] by simp
  from reach_step[OF this step_submit[OF sample_submitted]]
  have "attempt_reach sample_exec_config sample_request
      (sample_attempt\<lparr>at_status := Submitted, at_tx_hash := Some ''0xh''\<rparr>)" .
  from reach_step[OF this step_finalize[OF sample_included]]
  have r: "attempt_reach sample_exec_config sample_request
      (sample_attempt\<lparr>at_status := ProfitRealized, at_tx_hash := Some ''0xh''\<rparr>)" by simp
  from attempt_lifecycle_invariant[OF r] show ?thesis using r by auto
qed


section \<open>Calldata carries the request\<close>

lemma u24_from_fee:
  assumes "fee \<le> (1000000 :: u32)"
  shows "u24_from (ucast fee) = Ok (ucast (ucast fee :: u64))"
    and "unat (ucast (ucast fee :: u64) :: 24 word) = unat fee"
  using assms by (simp_all add: u24_from_def try_narrow_def word_le_nat_alt unat_ucast_fits)

text \<open>The hints the router has a venue for.\<close>

definition v3_hint :: "string \<Rightarrow> bool" where
  "v3_hint h \<longleftrightarrow> h = ''uniswap_v3_exact_input_single'' \<or> h = ''v3_exact_input_single''"

definition v2_hint :: "string \<Rightarrow> bool" where
  "v2_hint h \<longleftrightarrow> h = ''v2_exact_input'' \<or> h = ''uniswap_v2_exact_input''"

definition aerodrome_hint :: "string \<Rightarrow> bool" where
  "aerodrome_hint h \<longleftrightarrow> h = ''aerodrome_v2_volatile'' \<or> h = ''aerodrome_v2_stable''"

lemma hint_arm_eq:
  "hint_arm h = (if v3_hint h then Some Arm_V3 else if v2_hint h then Some Arm_V2
    else if aerodrome_hint h then Some (Arm_Aerodrome (h = ''aerodrome_v2_stable'')) else None)"
  by (simp only: hint_arm_def v3_hint_def v2_hint_def aerodrome_hint_def)

text \<open>The router step of a request step: its addresses and minimum, and for each hint the venue, the
  fee and the extra data (for Aerodrome the ABI encoding of the stable flag and the factory).\<close>

definition step_of_request :: "alloy \<Rightarrow> ExecutionStep \<Rightarrow> RouterRouteStep \<Rightarrow> bool" where
  "step_of_request al s r \<longleftrightarrow>
    al_address al (st_target s) = Some (rs_target r) \<and> al_address al (st_token_in s) = Some (rs_tokenIn r) \<and>
    al_address al (st_token_out s) = Some (rs_tokenOut r) \<and>
    unat (rs_minAmountOut r) = unat (st_min_amount_out s) \<and>
    (\<exists>hint. st_calldata_hint s = Some hint \<and>
      (if v3_hint hint then
         rs_venueKind r = 2 \<and> rs_extraData r = [] \<and> (\<exists>fee. st_pool_fee s = Some fee \<and> unat (rs_fee r) = unat fee)
       else if v2_hint hint then
         rs_venueKind r = 1 \<and> rs_extraData r = [] \<and> rs_fee r = 0
       else aerodrome_hint hint \<and> rs_venueKind r = 3 \<and> rs_fee r = 0 \<and>
         (\<exists>aux factory. st_aux_address s = Some aux \<and> al_address al aux = Some factory \<and>
           rs_extraData r = replicate 31 0 @ [if hint = ''aerodrome_v2_stable'' then 1 else 0] @ replicate 12 0 @ factory)))"

lemma build_route_step_sound:
  assumes "build_route_step al s i = Ok r"
  shows "step_of_request al s r"
proof -
  from assms obtain hint where h: "st_calldata_hint s = Some hint"
    by (auto simp: build_route_step_def res_simps)
  show ?thesis
    using assms unfolding build_route_step_def h step_of_request_def Let_def ok_or.simps attempt.simps
    by (cases "v3_hint hint"; cases "v2_hint hint"; cases "aerodrome_hint hint")
      (auto simp: hint_arm_eq parse_address_def res_simps u24_from_fee aerodrome_extra_def)
qed

text \<open>What can be wrong with one step, and the message that says so.\<close>

definition unparsable :: "alloy \<Rightarrow> string \<Rightarrow> string \<Rightarrow> string \<Rightarrow> bool" where
  "unparsable al value context e \<longleftrightarrow>
    al_address al value = None \<and> e = ''failed to parse '' @ context @ '' `'' @ value @ ''` as an address''"

definition step_problem :: "alloy \<Rightarrow> ExecutionStep \<Rightarrow> nat \<Rightarrow> string \<Rightarrow> bool" where
  "step_problem al s i e \<longleftrightarrow>
    (case st_calldata_hint s of
       None \<Rightarrow> e = ''execution step '' @ show_nat i @ '' is missing calldata_hint''
     | Some hint \<Rightarrow>
         unparsable al (st_target s) ''execution step target'' e \<or> unparsable al (st_token_in s) ''execution step token_in'' e \<or>
         unparsable al (st_token_out s) ''execution step token_out'' e \<or>
         (if v3_hint hint then
            (case st_pool_fee s of
               None \<Rightarrow> e = ''execution step '' @ show_nat i @ '' v3 swap is missing pool_fee''
             | Some fee \<Rightarrow> 1000000 < unat fee \<and>
                 e = ''execution step '' @ show_nat i @ '' has an invalid v3 pool fee `'' @ show_uint fee @ ''`'')
          else if aerodrome_hint hint then
            (case st_aux_address s of
               None \<Rightarrow> e = ''execution step '' @ show_nat i @ '' aerodrome swap is missing aux_address (factory)''
             | Some aux \<Rightarrow> unparsable al aux ''execution step aerodrome factory'' e)
          else \<not> v2_hint hint \<and>
            e = ''execution step '' @ show_nat i @ '' uses unsupported calldata hint `'' @ hint @ ''`''))"

lemma v3_fee_problem:
  assumes "attempt (ensure (fee \<le> (1000000 :: u32)) m) (\<lambda>_. attempt (u24_from (ucast fee)) (\<lambda>f. Ok (g f))) = Err e"
  shows "1000000 < unat fee \<and> e = m"
  using assms by (cases "fee \<le> 1000000") (auto simp: ensure_def u24_from_fee word_le_nat_alt)

lemma parse_address_problem: "parse_address al value context = Err e \<longleftrightarrow> unparsable al value context e"
  by (cases "al_address al value") (simp_all only: parse_address_def unparsable_def ok_or.simps res.inject res.distinct
      option.distinct simp_thms eq_commute[of e])

lemma build_route_step_problem:
  assumes "build_route_step al s i = Err e"
  shows "step_problem al s i e"
proof (cases "st_calldata_hint s")
  case None
  with assms show ?thesis
    by (simp only: build_route_step_def step_problem_def step_message_def ok_or.simps attempt.simps option.case res.inject)
next
  case (Some hint)
  define tail where "tail target token_in token_out = (case hint_arm hint of
      Some Arm_V3 \<Rightarrow>
        attempt (ok_or (step_message i '' v3 swap is missing pool_fee'') (st_pool_fee s)) (\<lambda>fee_bps.
        attempt (ensure (fee_bps \<le> 1000000)
          (step_message i ('' has an invalid v3 pool fee `'' @ show_uint fee_bps @ ''`''))) (\<lambda>_.
        attempt (u24_from (ucast fee_bps)) (\<lambda>fee_u24.
        Ok \<lparr>rs_venueKind = venue_kind_u8 Venue_UniswapV3Single, rs_target = target, rs_tokenIn = token_in,
          rs_tokenOut = token_out, rs_fee = fee_u24, rs_minAmountOut = ucast (st_min_amount_out s), rs_extraData = []\<rparr>)))
    | Some Arm_V2 \<Rightarrow> Ok \<lparr>rs_venueKind = venue_kind_u8 Venue_UniswapV2, rs_target = target, rs_tokenIn = token_in,
          rs_tokenOut = token_out, rs_fee = 0, rs_minAmountOut = ucast (st_min_amount_out s), rs_extraData = []\<rparr>
    | Some (Arm_Aerodrome is_stable) \<Rightarrow>
        attempt (ok_or (step_message i '' aerodrome swap is missing aux_address (factory)'')
          (st_aux_address s)) (\<lambda>factory_str.
        attempt (parse_address al factory_str ''execution step aerodrome factory'') (\<lambda>factory.
        Ok \<lparr>rs_venueKind = venue_kind_u8 Venue_AerodromeV2, rs_target = target, rs_tokenIn = token_in,
          rs_tokenOut = token_out, rs_fee = 0, rs_minAmountOut = ucast (st_min_amount_out s),
          rs_extraData = aerodrome_extra is_stable factory\<rparr>))
    | None \<Rightarrow> Err (step_message i ('' uses unsupported calldata hint `'' @ hint @ ''`'')))" for target token_in token_out
  have "unparsable al (st_target s) ''execution step target'' e \<or> unparsable al (st_token_in s) ''execution step token_in'' e \<or>
      unparsable al (st_token_out s) ''execution step token_out'' e \<or> (\<exists>x y z. tail x y z = Err e)"
    using assms unfolding build_route_step_def Some ok_or.simps attempt.simps Let_def tail_def[symmetric]
    by (simp only: attempt_eq_Err parse_address_problem) blast
  moreover have "if v3_hint hint then
            (case st_pool_fee s of
               None \<Rightarrow> e = ''execution step '' @ show_nat i @ '' v3 swap is missing pool_fee''
             | Some fee \<Rightarrow> 1000000 < unat fee \<and>
                 e = ''execution step '' @ show_nat i @ '' has an invalid v3 pool fee `'' @ show_uint fee @ ''`'')
          else if aerodrome_hint hint then
            (case st_aux_address s of
               None \<Rightarrow> e = ''execution step '' @ show_nat i @ '' aerodrome swap is missing aux_address (factory)''
             | Some aux \<Rightarrow> unparsable al aux ''execution step aerodrome factory'' e)
          else \<not> v2_hint hint \<and>
            e = ''execution step '' @ show_nat i @ '' uses unsupported calldata hint `'' @ hint @ ''`''"
    if "tail x y z = Err e" for x y z
    using that unfolding tail_def hint_arm_eq step_message_def[symmetric]
    by (cases "v3_hint hint"; cases "v2_hint hint"; cases "aerodrome_hint hint"; cases "st_pool_fee s"; cases "st_aux_address s")
      (simp_all only: if_True if_False option.case route_arm.case ok_or.simps attempt.simps res.inject res.distinct
        attempt_eq_Err[of "parse_address _ _ _"] parse_address_problem simp_thms, (drule v3_fee_problem, blast)+)
  ultimately show ?thesis unfolding step_problem_def Some option.case by blast
qed

lemma build_route_step_no_panic: "build_route_step al s i \<noteq> Panic"
  by (auto simp: build_route_step_def parse_address_def attempt_eq_Panic res_simps Let_def u24_from_fee
      split: option.split_asm route_arm.split_asm)

lemma map_res_enumerate_Ok:
  "map_res (\<lambda>(i, x). f x i) (enumerate n xs) = Ok ys \<Longrightarrow>
    list_all2 (\<lambda>x y. \<exists>i. f x i = Ok y) xs ys"
  by (induction xs arbitrary: n ys) (auto simp: res_simps)

lemma map_res_enumerate_Err:
  "map_res (\<lambda>(i, x). f x i) (enumerate n xs) = Err e \<Longrightarrow> \<exists>k < length xs. f (xs ! k) (n + k) = Err e"
proof (induction xs arbitrary: n)
  case (Cons x xs)
  show ?case
  proof (cases "f x n = Err e")
    case False
    with Cons.prems have "map_res (\<lambda>(i, x). f x i) (enumerate (Suc n) xs) = Err e" by (auto simp: attempt_eq_Err)
    from Cons.IH[OF this] obtain k where "k < length xs" "f (xs ! k) (Suc n + k) = Err e" by blast
    then show ?thesis by (intro exI[of _ "Suc k"]) simp
  qed auto
qed simp

lemma map_res_no_panic: "(\<And>x. f x \<noteq> Panic) \<Longrightarrow> map_res f xs \<noteq> Panic"
  by (induction xs) (auto simp: attempt_eq_Panic)

lemma build_plan_no_panic: "build_plan al config request now \<noteq> Panic"
proof -
  have "map_res (\<lambda>(i, s). build_route_step al s i) (enumerate 0 (rq_steps request)) \<noteq> Panic"
    by (rule map_res_no_panic) (auto simp: build_route_step_no_panic)
  then show ?thesis
    by (auto simp: build_plan_def attempt_eq_Panic parse_address_def parse_risk_hash_def Let_def)
qed

lemma build_plan_sound:
  assumes "build_plan al config request now = Ok (router, plan)"
  shows "\<exists>rt. ex_router_address config = Some rt \<and> al_address al rt = Some router"
    and "\<exists>a. rq_flashloan_amount request = Some a \<and> unat (pl_fundingAmount plan) = unat a"
    and "unat (pl_minRepayAmount plan) = unat (rq_min_repay request)"
    and "unat (pl_minSurplus plan) = unat (rq_min_surplus request)"
    and "unat (pl_deadline plan) = unat now + unat (ex_plan_deadline_secs config)"
    and "\<exists>asset. rq_flashloan_asset request = Some asset \<and> al_address al asset = Some (pl_settlementToken plan)"
    and "al_bytes32 al (if prefix ''0x'' (rq_risk_hash request) then rq_risk_hash request else ''0x'' @ rq_risk_hash request) =
      Some (pl_riskHash plan)"
    and "list_all2 (step_of_request al) (rq_steps request) (pl_steps plan)"
proof -
  from assms obtain steps where
    "map_res (\<lambda>(i, s). build_route_step al s i) (enumerate 0 (rq_steps request)) = Ok steps"
    "pl_steps plan = steps"
    by (auto simp: build_plan_def res_simps)
  then show "list_all2 (step_of_request al) (rq_steps request) (pl_steps plan)"
    by (auto dest!: map_res_enumerate_Ok elim!: list_all2_mono intro: build_route_step_sound)
qed (use assms in \<open>auto simp: build_plan_def parse_address_def parse_risk_hash_def Let_def res_simps int_simps\<close>)

text \<open>What can be wrong with a request or the configuration, and the message that says so.\<close>

definition payload_problem :: "alloy \<Rightarrow> ExecutionConfig \<Rightarrow> ExecutionRequest \<Rightarrow> u64 \<Rightarrow> string \<Rightarrow> bool" where
  "payload_problem al config request now e \<longleftrightarrow>
    (case ex_router_address config of
       None \<Rightarrow> e = ''EXECUTION_ROUTER_ADDRESS is required to build calldata''
     | Some rt \<Rightarrow> unparsable al rt ''EXECUTION_ROUTER_ADDRESS'' e) \<or>
    (case rq_flashloan_asset request of
       None \<Rightarrow> e = ''execution request is missing flashloan_asset''
     | Some asset \<Rightarrow> unparsable al asset ''execution request flashloan_asset'' e) \<or>
    al_bytes32 al (if prefix ''0x'' (rq_risk_hash request) then rq_risk_hash request else ''0x'' @ rq_risk_hash request) = None \<and>
      e = ''failed to parse risk hash `'' @ rq_risk_hash request @ ''` as bytes32'' \<or>
    rq_flashloan_amount request = None \<and> e = ''execution request is missing flashloan_amount'' \<or>
    (\<exists>i < length (rq_steps request). step_problem al (rq_steps request ! i) i e) \<or>
    2 ^ 64 \<le> unat now + unat (ex_plan_deadline_secs config) \<and> e = ''plan deadline overflow''"

lemma build_plan_problem:
  assumes "build_plan al config request now = Err e"
  shows "payload_problem al config request now e"
proof -
  have deadline: "2 ^ 64 \<le> unat now + unat (ex_plan_deadline_secs config)"
    if "checked_add now (ex_plan_deadline_secs config) = None"
    using that by (simp add: checked_add_def split: if_splits)
  have steps: "\<exists>i < length (rq_steps request). step_problem al (rq_steps request ! i) i e"
    if "map_res (\<lambda>(i, s). build_route_step al s i) (enumerate 0 (rq_steps request)) = Err e"
    using map_res_enumerate_Err[OF that] build_route_step_problem by fastforce
  have hash: "al_bytes32 al (if prefix ''0x'' t then t else ''0x'' @ t) = None \<and>
      e = ''failed to parse risk hash `'' @ t @ ''` as bytes32''" if "parse_risk_hash al t = Err e" for t
    using that unfolding parse_risk_hash_def Let_def ok_or_eq_Err by (simp only: simp_thms)
  from assms show ?thesis
    unfolding build_plan_def attempt_eq_Err payload_problem_def
    by (cases "ex_router_address config"; cases "rq_flashloan_asset request"; cases "rq_flashloan_amount request";
        cases "checked_add now (ex_plan_deadline_secs config)")
      (simp_all only: ok_or.simps res.inject res.distinct option.case parse_address_problem simp_thms,
        (blast dest: hash steps deadline)+)
qed

text \<open>C26: building calldata never panics.  When it succeeds, the calldata is the router's encoding of a
  plan that carries every field of the request: the settlement token is the parsed loan asset,
  funding, repayment and surplus are exactly the request's numbers, the deadline is the clock plus
  the configured seconds, without wrap-around, the risk hash is the parsed one, and every route step
  keeps its target, tokens and minimum output and has the venue, the fee and the extra data its
  hint asks for; it is addressed to the configured router with no value.  When it fails, the
  message names a field that is really missing or unparsable, or the step and what is wrong with it.\<close>

theorem payload_carries_request:
  "case build_submission_payload_at al config request now of
     Ok p \<Rightarrow> \<exists>router plan. (\<exists>rt. ex_router_address config = Some rt \<and> al_address al rt = Some router) \<and>
       sp_router_address p = al_show_address al router \<and> sp_value p = 0 \<and>
       sp_calldata p = (if ex_use_flashloan config then al_encode_flashloan al plan else al_encode_plan al plan) \<and>
       (\<exists>a. rq_flashloan_amount request = Some a \<and> unat (pl_fundingAmount plan) = unat a) \<and>
       unat (pl_minRepayAmount plan) = unat (rq_min_repay request) \<and>
       unat (pl_minSurplus plan) = unat (rq_min_surplus request) \<and>
       unat (pl_deadline plan) = unat now + unat (ex_plan_deadline_secs config) \<and>
       (\<exists>asset. rq_flashloan_asset request = Some asset \<and> al_address al asset = Some (pl_settlementToken plan)) \<and>
       al_bytes32 al (if prefix ''0x'' (rq_risk_hash request) then rq_risk_hash request else ''0x'' @ rq_risk_hash request) =
         Some (pl_riskHash plan) \<and>
       list_all2 (step_of_request al) (rq_steps request) (pl_steps plan)
   | Err e \<Rightarrow> payload_problem al config request now e
   | Panic \<Rightarrow> False"
proof (cases "build_plan al config request now")
  case (Ok rp)
  obtain router plan where rp: "rp = (router, plan)" by (cases rp)
  note sound = build_plan_sound[OF Ok[unfolded rp]]
  have "build_submission_payload_at al config request now = Ok \<lparr>sp_router_address = al_show_address al router,
      sp_calldata = (if ex_use_flashloan config then al_encode_flashloan al plan else al_encode_plan al plan), sp_value = 0\<rparr>"
    by (simp add: build_submission_payload_at_def Ok rp Let_def)
  then show ?thesis
    unfolding \<open>build_submission_payload_at al config request now = _\<close> res.case
    by (intro exI[of _ router] exI[of _ plan] conjI sound) simp_all
qed (auto simp: build_submission_payload_at_def build_plan_no_panic intro: build_plan_problem)

text \<open>The extra data of an Aerodrome step is the ABI encoding of a flag and an address.\<close>

lemma aerodrome_extra_decodes:
  assumes "length factory = 20"
  shows "length (aerodrome_extra s factory) = 64"
    and "drop 44 (aerodrome_extra s factory) = factory"
    and "aerodrome_extra s factory ! 31 = (if s then 1 else 0)"
  using assms by (simp_all add: aerodrome_extra_def nth_append)


section \<open>A run against a transport\<close>

lemma receipt_timeout_reason_present: "trim receipt_timeout_reason \<noteq> []"
  by code_simp

lemma under_timer_eq:
  "under_timer m e w = (r, w') \<longleftrightarrow> (\<exists>v. m w = (v, w') \<and> r = (case v of Some r' \<Rightarrow> r' | None \<Rightarrow> Err e))"
  by (auto simp: under_timer_def split: prod.splits option.splits)

lemma act_match_eq_Ok:
  "act_match m k h w = (Ok y, w'') \<longleftrightarrow>
    (\<exists>x w'. m w = (Ok x, w') \<and> k x w' = (Ok y, w'')) \<or> (\<exists>e w'. m w = (Err e, w') \<and> h e w' = (Ok y, w''))"
  by (auto simp: act_match_def split: prod.splits res.splits)

lemma after_submit_Ok:
  assumes "after_submit transport config request a w = (Ok res, w')"
  shows "res = SubmittedPending a \<or>
    (\<exists>f. res = Finalized f \<and> attempt_step a (fe_attempt f) \<and>
      at_status (fe_attempt f) \<in> {Included, Reverted, Dropped} \<and>
      oc_final_status (fe_outcome f) = at_status (fe_attempt f) \<and>
      at_tx_hash (fe_attempt f) = Some (oc_tx_hash (fe_outcome f)) \<and>
      oc_request_id (fe_outcome f) = at_request_id a)"
proof -
  from assms consider "res = SubmittedPending a"
    | f where "res = Finalized f" "mark_dropped a receipt_timeout_reason = Ok f"
    | f r where "res = Finalized f" "finalize_from_receipt a r None (rq_min_surplus request) = Ok f"
    by (auto simp: after_submit_def act_match_eq_Ok act_simps split: option.splits)
  then show ?thesis
  proof cases
    case 2
    then show ?thesis using step_drop[OF 2(2)] by (auto simp: mark_dropped_eq_Ok)
  next
    case 3
    then show ?thesis using step_finalize[OF 3(2)] finalize_from_receiptD[OF 3(2)] by auto
  qed simp
qed

lemma execute_Ok_cases:
  assumes "execute_with_transport al clock transport config request simulation daily w = (Ok res, w')"
  obtains (blocked) p where "prepare_execution config request simulation daily = Ok p"
      "\<not> pe_should_submit p" "res = Blocked (pe_attempt p)" "w' = w"
    | (submitted) p h b w0 where "prepare_execution config request simulation daily = Ok p"
      "mark_submitted (pe_attempt p) h = Ok b" "after_submit transport config request b w0 = (Ok res, w')"
proof -
  from assms have "(\<exists>p. prepare_execution config request simulation daily = Ok p \<and> \<not> pe_should_submit p \<and>
      res = Blocked (pe_attempt p) \<and> w' = w) \<or>
    (\<exists>p h b w0. prepare_execution config request simulation daily = Ok p \<and>
      mark_submitted (pe_attempt p) h = Ok b \<and> after_submit transport config request b w0 = (Ok res, w'))"
    by (auto simp: execute_with_transport_def act_simps split: if_splits)
  with blocked submitted show thesis by metis
qed

lemma execute_touches_world:
  assumes "execute_with_transport al clock transport config request simulation daily w = (r, w')" "w' \<noteq> w"
  shows "\<exists>p payload. prepare_execution config request simulation daily = Ok p \<and> pe_should_submit p \<and>
    build_submission_payload al config request clock = Ok payload"
proof -
  from assms obtain p where p: "prepare_execution config request simulation daily = Ok p"
    by (cases "prepare_execution config request simulation daily") (auto simp: execute_with_transport_def)
  with assms have "pe_should_submit p"
    by (auto simp: execute_with_transport_def ret_def split: if_splits)
  with assms p show ?thesis
    by (cases "build_submission_payload al config request clock") (auto simp: execute_with_transport_def)
qed

lemma prepared_flags:
  assumes "prepare_execution config request simulation daily = Ok p"
  shows "pe_should_submit p = at_submission_allowed (pe_attempt p)"
    and "pe_should_submit p \<Longrightarrow> ex_mode config \<noteq> Shadow"
  using assms by (auto simp: prepare_execution_eq_Ok submission_policy_def)

text \<open>C24: a run touches the transport only after preparation allowed submission and the calldata was
  built, so never in shadow mode; and whatever it reports is a legal state of the attempt: a
  blocked attempt carries a reason and left the outside world untouched, a pending one is
  submitted, and a finalized one is included, reverted or dropped with the outcome recording
  the same status, hash and request.\<close>

theorem execution_run_sound:
  assumes run: "execute_with_transport al clock transport config request simulation daily w = (r, w')"
  shows "(w' \<noteq> w \<longrightarrow> ex_mode config \<noteq> Shadow \<and>
      (\<exists>p payload. prepare_execution config request simulation daily = Ok p \<and> pe_should_submit p \<and>
        build_submission_payload al config request clock = Ok payload)) \<and>
    (\<forall>res. r = Ok res \<longrightarrow> (case res of
       Blocked a \<Rightarrow> w' = w \<and> attempt_reach config request a \<and> \<not> at_submission_allowed a
     | SubmittedPending a \<Rightarrow> attempt_reach config request a \<and> at_status a = Submitted
     | Finalized f \<Rightarrow> attempt_reach config request (fe_attempt f) \<and>
         at_status (fe_attempt f) \<in> {Included, Reverted, Dropped} \<and>
         oc_final_status (fe_outcome f) = at_status (fe_attempt f) \<and>
         at_tx_hash (fe_attempt f) = Some (oc_tx_hash (fe_outcome f)) \<and>
         oc_request_id (fe_outcome f) = rq_opportunity_id request))"
proof (intro conjI impI allI)
  assume "w' \<noteq> w"
  from execute_touches_world[OF run this] show "\<exists>p payload.
      prepare_execution config request simulation daily = Ok p \<and> pe_should_submit p \<and>
      build_submission_payload al config request clock = Ok payload" .
  then show "ex_mode config \<noteq> Shadow" by (auto dest: prepared_flags)
next
  fix res assume "r = Ok res"
  with run have "execute_with_transport al clock transport config request simulation daily w = (Ok res, w')"
    by simp
  then show "case res of
       Blocked a \<Rightarrow> w' = w \<and> attempt_reach config request a \<and> \<not> at_submission_allowed a
     | SubmittedPending a \<Rightarrow> attempt_reach config request a \<and> at_status a = Submitted
     | Finalized f \<Rightarrow> attempt_reach config request (fe_attempt f) \<and>
         at_status (fe_attempt f) \<in> {Included, Reverted, Dropped} \<and>
         oc_final_status (fe_outcome f) = at_status (fe_attempt f) \<and>
         at_tx_hash (fe_attempt f) = Some (oc_tx_hash (fe_outcome f)) \<and>
         oc_request_id (fe_outcome f) = rq_opportunity_id request"
  proof (cases rule: execute_Ok_cases)
    case (blocked p)
    then show ?thesis using reach_prepared prepared_flags by simp
  next
    case (submitted p h b w0)
    have reach: "attempt_reach config request b"
      by (rule reach_step[OF reach_prepared[OF submitted(1)] step_submit[OF submitted(2)]])
    have "at_status b = Submitted" "at_request_id b = rq_opportunity_id request"
      using submitted(2) attempt_reach_inv[OF reach] by (simp_all add: mark_submitted_eq_Ok attempt_inv_def)
    then show ?thesis
      using after_submit_Ok[OF submitted(3)] reach by (auto intro: reach_step)
  qed
qed

text \<open>A transport whose broadcast answers with a hash and whose receipt arrives.\<close>

definition sample_alloy :: alloy where
  "sample_alloy =
    \<lparr>al_address = (\<lambda>s. Some (replicate 20 (of_nat (length s)))), al_show_address = (\<lambda>b. ''0xrouter''),
     al_bytes32 = (\<lambda>s. Some (replicate 32 0)), al_encode_plan = (\<lambda>p. [1]), al_encode_flashloan = (\<lambda>p. [2])\<rparr>"

definition sample_transport :: "nat transport" where
  "sample_transport =
    \<lparr>tr_submit = (\<lambda>p a s w. (Some (Ok ''0xh''), Suc w)),
     tr_await_receipt = (\<lambda>q a s w. (Ok (Some sample_receipt), w)),
     tr_simulate = default_simulate\<rparr>"

lemma sample_payload:
  "build_submission_payload sample_alloy sample_exec_config sample_request (Some 100) =
    Ok \<lparr>sp_router_address = ''0xrouter'', sp_calldata = [2], sp_value = 0\<rparr>"
  by (simp add: build_submission_payload_def current_unix_timestamp_def build_submission_payload_at_def
      build_plan_def sample_alloy_def sample_exec_config_def sample_request_def sample_step_def
      parse_address_def parse_risk_hash_def build_route_step_def hint_arm_def word_eval)

theorem payload_carries_request_witness:
  "\<exists>p plan. build_submission_payload_at sample_alloy sample_exec_config sample_request 100 = Ok p \<and>
    sp_calldata p = al_encode_flashloan sample_alloy plan \<and> unat (pl_deadline plan) = 160 \<and>
    list_all2 (step_of_request sample_alloy) [sample_step] (pl_steps plan) \<and>
    payload_problem sample_alloy (sample_exec_config\<lparr>ex_router_address := None\<rparr>) sample_request 100
      ''EXECUTION_ROUTER_ADDRESS is required to build calldata''"
proof -
  obtain p where p: "build_submission_payload_at sample_alloy sample_exec_config sample_request 100 = Ok p"
    using sample_payload by (auto simp: build_submission_payload_def current_unix_timestamp_def)
  have c: "ex_use_flashloan sample_exec_config = True" "unat (100 :: u64) + unat (ex_plan_deadline_secs sample_exec_config) = 160"
    "rq_steps sample_request = [sample_step]"
    by (simp_all add: sample_exec_config_def sample_request_def)
  have e: "build_submission_payload_at sample_alloy (sample_exec_config\<lparr>ex_router_address := None\<rparr>) sample_request 100 =
      Err ''EXECUTION_ROUTER_ADDRESS is required to build calldata''"
    by (simp add: build_submission_payload_at_def build_plan_def)
  from payload_carries_request[where al = sample_alloy and config = sample_exec_config and request = sample_request and now = 100, unfolded p c res.case if_True]
    payload_carries_request[where al = sample_alloy and config = "sample_exec_config\<lparr>ex_router_address := None\<rparr>" and
        request = sample_request and now = 100, unfolded e res.case]
  show ?thesis using p by blast
qed

lemma sample_exec_run:
  "\<exists>f. execute_with_transport sample_alloy (Some 100) sample_transport sample_exec_config sample_request
    sample_exec_sim 4000 0 = (Ok (Finalized f), 1)"
  by (simp add: execute_with_transport_def sample_prepared sample_payload after_submit_def
      sample_transport_def under_timer_def act_match_def act_bind_def lift_def ret_def mark_submitted_def sample_hash
      finalize_from_receipt_def sample_receipt_def sample_attempt_def total_fee_paid_def word_eval)

theorem execution_run_sound_witness:
  "\<exists>f. execute_with_transport sample_alloy (Some 100) sample_transport sample_exec_config sample_request
      sample_exec_sim 4000 0 = (Ok (Finalized f), 1) \<and> attempt_reach sample_exec_config sample_request (fe_attempt f)"
proof -
  obtain f where f: "execute_with_transport sample_alloy (Some 100) sample_transport sample_exec_config
      sample_request sample_exec_sim 4000 0 = (Ok (Finalized f), 1)"
    using sample_exec_run by blast
  from execution_run_sound[OF this] show ?thesis using f by auto
qed


section \<open>The contract of a transport\<close>

text \<open>What a client may rely on: a receipt belongs to the attempt it was asked for.\<close>

locale transport_contract =
  fixes transport :: "'w transport"
  assumes receipt_matches:
    "tr_await_receipt transport request att secs w = (Ok (Some r), w') \<Longrightarrow> at_tx_hash att = Some h \<Longrightarrow>
      rc_tx_hash r = h \<and> rc_request_id r = at_request_id att"
begin

text \<open>After a successful broadcast a run either follows the transport to a conclusion, or is left
  pending when the wait fails; it fails only when the fee of the receipt itself does not fit.\<close>

lemma submitted_run_cases:
  assumes "mark_submitted b h = Ok a" "after_submit transport config request a w = (res, w')"
  obtains (pending) e where "tr_await_receipt transport request a (ex_receipt_timeout_secs config) w = (Err e, w')"
      "res = Ok (SubmittedPending a)"
    | (dropped) f where "tr_await_receipt transport request a (ex_receipt_timeout_secs config) w = (Ok None, w')"
      "mark_dropped a receipt_timeout_reason = Ok f" "res = Ok (Finalized f)"
    | (settled) r f where "tr_await_receipt transport request a (ex_receipt_timeout_secs config) w = (Ok (Some r), w')"
      "finalize_from_receipt a r None (rq_min_surplus request) = Ok f" "res = Ok (Finalized f)" "rc_tx_hash r = h"
    | (overflow) r e where "tr_await_receipt transport request a (ex_receipt_timeout_secs config) w = (Ok (Some r), w')"
      "total_fee_paid r = Err e" "res = Err e" "rc_tx_hash r = h"
    | (panics) "tr_await_receipt transport request a (ex_receipt_timeout_secs config) w = (Panic, w')" "res = Panic"
proof -
  from assms(1) have a: "at_status a = Submitted" "at_tx_hash a = Some h"
    by (simp_all add: mark_submitted_eq_Ok)
  obtain v w1 where v: "tr_await_receipt transport request a (ex_receipt_timeout_secs config) w = (v, w1)"
    by (cases "tr_await_receipt transport request a (ex_receipt_timeout_secs config) w")
  show thesis
  proof (cases v)
    case (Ok mr)
    show thesis
    proof (cases mr)
      case None
      with Ok v assms(2) a receipt_timeout_reason_present show thesis
        by (intro dropped) (auto simp: after_submit_def act_match_def mark_dropped_def ret_def)
    next
      case (Some r)
      with Ok v a have hash: "rc_tx_hash r = h" using receipt_matches by blast
      have "total_fee_paid r \<noteq> Panic"
        by (auto simp: total_fee_paid_def attempt_eq_Panic split: option.splits)
      then have fin: "(\<exists>f. finalize_from_receipt a r None (rq_min_surplus request) = Ok f) \<or>
          (\<exists>e. total_fee_paid r = Err e \<and> finalize_from_receipt a r None (rq_min_surplus request) = Err e)"
        using a hash by (cases "total_fee_paid r") (auto simp: finalize_from_receipt_def split: prod.splits)
      have run: "res = attempt (finalize_from_receipt a r None (rq_min_surplus request)) (\<lambda>f. Ok (Finalized f))" "w1 = w'"
        using Ok Some v assms(2)
        by (cases "finalize_from_receipt a r None (rq_min_surplus request)"; auto simp: after_submit_def act_match_def ret_def)+
      from fin show thesis
      proof (elim disjE exE conjE)
        fix f assume "finalize_from_receipt a r None (rq_min_surplus request) = Ok f"
        with run Ok Some v hash show thesis by (intro settled) auto
      next
        fix e assume "total_fee_paid r = Err e" "finalize_from_receipt a r None (rq_min_surplus request) = Err e"
        with run Ok Some v hash show thesis by (intro overflow) auto
      qed
    qed
  next
    case (Err e)
    with v assms(2) show thesis by (intro pending) (auto simp: after_submit_def act_match_def ret_def)
  next
    case Panic
    with v assms(2) show thesis by (intro panics) (auto simp: after_submit_def act_match_def)
  qed
qed

end

interpretation unavailable: transport_contract "unavailable_transport reason" for reason
  by unfold_locales (simp add: unavailable_transport_def lift_def)

end
