(* ===== verification/Nonce.thy ===== *)
theory Nonce
  imports Effects
begin

text \<open>
  The nonce manager (\<open>src/crates/execution/src/nonce.rs\<close>).  Each method locks the state
  for its whole body, so each is one atomic action; \<open>nonce_run\<close> interleaves them freely
  and remembers, beside the state, the nonces reserved and not yet rolled back.
\<close>

record NonceState =
  ns_next :: u64
  ns_initialised :: bool

definition nonce_new :: NonceState where
  "nonce_new = \<lparr>ns_next = 0, ns_initialised = False\<rparr>"

text \<open>The argument is the provider's answer to the pending transaction count.\<close>

definition sync_from_chain :: "(string, u64) res \<Rightarrow> (NonceState, string, u64) act" where
  "sync_from_chain count =
    act_bind (lift (map_err (\<lambda>_. ''failed to fetch pending transaction count from provider'') count)) (\<lambda>pending.
    act_bind (act_modify (\<lambda>s. s\<lparr>ns_next := pending, ns_initialised := True\<rparr>)) (\<lambda>_. ret pending))"

definition nonce_next :: "(NonceState, string, u64) act" where
  "nonce_next s =
    (if \<not> ns_initialised s
     then (Err ''nonce manager has not been initialised; call sync_from_chain first'', s)
     else case checked_add (ns_next s) 1 of
       None \<Rightarrow> (Err ''nonce counter overflow'', s)
     | Some n \<Rightarrow> (Ok (ns_next s), s\<lparr>ns_next := n\<rparr>))"

definition nonce_release :: "u64 \<Rightarrow> NonceState \<Rightarrow> NonceState" where
  "nonce_release expected s =
    (if ns_next s = saturating_add expected 1 then s\<lparr>ns_next := expected\<rparr> else s)"

section \<open>Single calls\<close>

lemma nonce_next_eq_Ok:
  "nonce_next s = (Ok n, s') \<longleftrightarrow>
    ns_initialised s \<and> n = ns_next s \<and> unat n + 1 < 2 ^ 64 \<and> s' = s\<lparr>ns_next := n + 1\<rparr>"
  by (auto simp: nonce_next_def checked_add_def split: option.splits if_splits)

lemma nonce_next_fails:
  "nonce_next s = (Err e, s') \<Longrightarrow> s' = s" "nonce_next s \<noteq> (Panic, s')"
  by (auto simp: nonce_next_def split: option.splits if_splits)

lemma unat_nonce_succ: "unat (n :: u64) + 1 < 2 ^ 64 \<Longrightarrow> unat (n + 1) = unat n + 1"
  by (simp add: unat_plus_fits)

lemma saturating_succ: "unat (n :: u64) + 1 < 2 ^ 64 \<Longrightarrow> saturating_add n 1 = n + 1"
  by (simp add: saturating_add_def checked_add_def)

lemma nonce_release_next: "nonce_next s = (Ok n, s') \<Longrightarrow> nonce_release n s' = s"
  by (auto simp: nonce_next_eq_Ok nonce_release_def saturating_succ)

lemma sync_from_chain_eq_Ok:
  "sync_from_chain count s = (Ok n, s') \<longleftrightarrow> count = Ok n \<and> s' = \<lparr>ns_next = n, ns_initialised = True\<rparr>"
  by (auto simp: sync_from_chain_def act_simps res_simps)

section \<open>Interleaved reservations\<close>

inductive nonce_run :: "NonceState \<Rightarrow> u64 list \<Rightarrow> bool" where
  run_sync: "sync_from_chain count nonce_new = (Ok n, s) \<Longrightarrow> nonce_run s []"
| run_next: "nonce_run s out \<Longrightarrow> nonce_next s = (Ok n, s') \<Longrightarrow> nonce_run s' (n # out)"
| run_next_fails: "nonce_run s out \<Longrightarrow> nonce_next s = (Err e, s') \<Longrightarrow> nonce_run s' out"
| run_release: "nonce_run s out \<Longrightarrow> n \<in> set out \<Longrightarrow> nonce_run (nonce_release n s) (remove1 n out)"

definition nonces_ok :: "NonceState \<Rightarrow> u64 list \<Rightarrow> bool" where
  "nonces_ok s out \<longleftrightarrow> ns_initialised s \<and> distinct out \<and> (\<forall>n \<in> set out. n < ns_next s)"

lemma nonces_ok_next:
  assumes "nonces_ok s out" "nonce_next s = (Ok n, s')"
  shows "nonces_ok s' (n # out)"
proof -
  from assms(2) have s': "n = ns_next s" "ns_next s' = n + 1" "unat (n + 1) = unat n + 1"
    by (auto simp: nonce_next_eq_Ok unat_nonce_succ)
  have "m < ns_next s'" if "m = n \<or> m \<in> set out" for m
    using that s' assms(1) by (force simp: nonces_ok_def word_less_nat_alt)
  moreover have "n \<notin> set out"
    using assms(1) s'(1) by (auto simp: nonces_ok_def)
  ultimately show ?thesis
    using assms by (auto simp: nonces_ok_def nonce_next_eq_Ok)
qed

lemma nonces_ok_release:
  assumes "nonces_ok s out" "n \<in> set out"
  shows "nonces_ok (nonce_release n s) (remove1 n out)"
proof (cases "ns_next s = saturating_add n 1")
  case True
  have "m < n" if "m \<in> set (remove1 n out)" for m
  proof -
    from that assms have "m \<noteq> n" "m < ns_next s" by (auto simp: nonces_ok_def)
    moreover have "unat (saturating_add n 1) \<le> unat n + 1" by (simp add: unat_saturating_add)
    ultimately show ?thesis using True by (auto simp: word_less_nat_alt word_eq_iff_unat)
  qed
  with assms True show ?thesis by (auto simp: nonces_ok_def nonce_release_def)
next
  case False
  with assms show ?thesis by (auto simp: nonces_ok_def nonce_release_def)
qed

lemma nonce_run_ok: "nonce_run s out \<Longrightarrow> nonces_ok s out"
proof (induction rule: nonce_run.induct)
  case (run_sync count n s)
  then show ?case by (auto simp: sync_from_chain_eq_Ok nonces_ok_def)
next
  case (run_next_fails s out e s')
  then show ?case using nonce_next_fails by metis
qed (auto intro: nonces_ok_next nonces_ok_release)

text \<open>C21: however reservations and roll-backs interleave after the initial synchronisation, no two
  outstanding reservations share a nonce and each lies below the counter, so the next
  reservation is fresh; and rolling back the latest reservation restores the counter.\<close>

theorem nonce_reservations_unique:
  assumes "nonce_run s out"
  shows "distinct out \<and> (\<forall>n \<in> set out. n < ns_next s) \<and>
    (\<forall>n s'. nonce_next s = (Ok n, s') \<longrightarrow> n \<notin> set out \<and> nonce_release n s' = s)"
  using nonce_run_ok[OF assms] by (auto simp: nonces_ok_def nonce_release_next nonce_next_eq_Ok saturating_succ nonce_release_def)

text \<open>A run that reserves 5, 6 and 7 and rolls back 7.\<close>

lemma sample_nonce_run: "nonce_run \<lparr>ns_next = 7, ns_initialised = True\<rparr> [6, 5]"
proof -
  have "nonce_run \<lparr>ns_next = 5, ns_initialised = True\<rparr> []"
    by (rule run_sync[of "Ok 5" 5]) (simp add: sync_from_chain_eq_Ok)
  then have "nonce_run \<lparr>ns_next = 6, ns_initialised = True\<rparr> [5]"
    by (rule run_next) (simp add: nonce_next_eq_Ok)
  then have "nonce_run \<lparr>ns_next = 7, ns_initialised = True\<rparr> [6, 5]"
    by (rule run_next) (simp add: nonce_next_eq_Ok)
  then have "nonce_run \<lparr>ns_next = 8, ns_initialised = True\<rparr> [7, 6, 5]"
    by (rule run_next) (simp add: nonce_next_eq_Ok)
  then have "nonce_run (nonce_release 7 \<lparr>ns_next = 8, ns_initialised = True\<rparr>) (remove1 7 [7, 6, 5])"
    by (rule run_release) simp
  then show ?thesis by (simp add: nonce_release_def saturating_add_def checked_add_def)
qed

theorem nonce_reservations_unique_witness:
  "nonce_run \<lparr>ns_next = 7, ns_initialised = True\<rparr> [6, 5] \<and>
   nonce_next \<lparr>ns_next = 7, ns_initialised = True\<rparr> = (Ok 7, \<lparr>ns_next = 8, ns_initialised = True\<rparr>) \<and>
   nonce_release 7 \<lparr>ns_next = 8, ns_initialised = True\<rparr> = \<lparr>ns_next = 7, ns_initialised = True\<rparr>"
proof -
  have n: "nonce_next \<lparr>ns_next = 7, ns_initialised = True\<rparr> = (Ok 7, \<lparr>ns_next = 8, ns_initialised = True\<rparr>)"
    by (simp add: nonce_next_eq_Ok)
  with nonce_reservations_unique[OF sample_nonce_run] sample_nonce_run show ?thesis by blast
qed

text \<open>Rolling back a nonce that is not the latest reservation does nothing: the counter stays
  above it and it is never handed out again until the next synchronisation, which leaves a
  gap that blocks every later transaction of the account.\<close>

theorem nonce_gap_remains:
  assumes "nonce_run s out" "n \<in> set out" "n + 1 < ns_next s"
  shows "nonce_release n s = s \<and> nonce_run s (remove1 n out) \<and>
    (\<forall>m s'. nonce_next s = (Ok m, s') \<longrightarrow> m \<noteq> n)"
proof -
  from assms have "n < ns_next s" using nonce_run_ok by (auto simp: nonces_ok_def)
  then have "unat n + 1 < 2 ^ 64"
    using unat_lt_width[of "ns_next s"] by (simp add: word_less_nat_alt)
  then have "saturating_add n 1 = n + 1" by (rule saturating_succ)
  with assms(3) have same: "nonce_release n s = s" by (auto simp: nonce_release_def)
  with run_release[OF assms(1,2)] \<open>n < ns_next s\<close> show ?thesis by (auto simp: nonce_next_eq_Ok)
qed

theorem nonce_gap_remains_witness:
  "nonce_run \<lparr>ns_next = 7, ns_initialised = True\<rparr> [6, 5] \<and>
   nonce_run \<lparr>ns_next = 7, ns_initialised = True\<rparr> [6] \<and>
   nonce_release 5 \<lparr>ns_next = 7, ns_initialised = True\<rparr> = \<lparr>ns_next = 7, ns_initialised = True\<rparr>"
  using nonce_gap_remains[OF sample_nonce_run, of 5] sample_nonce_run by simp

end
