(* ===== verification/Rpc.thy ===== *)
theory Rpc
  imports Effects Config
begin

text \<open>
  RPC topology and provider (\<open>src/crates/rpc/src/lib.rs\<close>).  URL syntax and the HTTP
  client are parameters; the provider keeps the chain id and the request timeout.
\<close>

datatype RpcEndpoint =
    Ep_Http string
  | Ep_Ws string
  | Ep_Ipc string
  | Ep_FlashblocksWs string

record RpcTopology =
  tp_chain_id :: u64
  tp_primary :: "RpcEndpoint option"
  tp_fallbacks :: "RpcEndpoint list"
  tp_multicall3_address :: "string option"
  tp_retry_initial_ms :: u64
  tp_retry_max_ms :: u64
  tp_request_timeout_ms :: u64

definition ordered_endpoints :: "RpcConfig \<Rightarrow> RpcEndpoint list" where
  "ordered_endpoints c =
    (case rp_ipc_file_path c of Some ipc \<Rightarrow> [Ep_Ipc ipc] | None \<Rightarrow> []) @
    (case rp_ws_url c of Some ws \<Rightarrow> [Ep_Ws ws] | None \<Rightarrow> []) @
    (case rp_http_url c of Some http \<Rightarrow> [Ep_Http http] | None \<Rightarrow> [])"

definition topology_from_config :: "RpcConfig \<Rightarrow> RpcTopology" where
  "topology_from_config c =
    (let ordered = ordered_endpoints c in
     \<lparr>tp_chain_id = rp_chain_id c,
      tp_primary = (case ordered of [] \<Rightarrow> None | e # _ \<Rightarrow> Some e),
      tp_fallbacks = drop 1 ordered,
      tp_multicall3_address = rp_multicall3_address c,
      tp_retry_initial_ms = rp_retry_initial_ms c,
      tp_retry_max_ms = rp_retry_max_ms c,
      tp_request_timeout_ms = rp_request_timeout_ms c\<rparr>)"

definition topology_flashblocks :: "RpcConfig \<Rightarrow> RpcEndpoint option" where
  "topology_flashblocks c = map_option Ep_FlashblocksWs (rp_flashblocks_ws_url c)"

definition endpoints :: "RpcTopology \<Rightarrow> RpcEndpoint list" where
  "endpoints t = (case tp_primary t of Some e \<Rightarrow> [e] | None \<Rightarrow> []) @ tp_fallbacks t"

definition first_http :: "RpcTopology \<Rightarrow> string option" where
  "first_http t = find_map (\<lambda>e. case e of Ep_Http url \<Rightarrow> Some url | _ \<Rightarrow> None) (endpoints t)"

definition first_ws :: "RpcTopology \<Rightarrow> string option" where
  "first_ws t = find_map (\<lambda>e. case e of Ep_Ws url \<Rightarrow> Some url | _ \<Rightarrow> None) (endpoints t)"

record EngineProvider =
  ep_url :: string
  ep_chain_id :: u64
  ep_request_timeout_ms :: u64

text \<open>\<open>url_ok\<close> is the URL parser, \<open>client_ok\<close> whether the HTTP client could be built.\<close>

definition connect_http :: "(string \<Rightarrow> bool) \<Rightarrow> bool \<Rightarrow> RpcTopology \<Rightarrow> (string, EngineProvider) res" where
  "connect_http url_ok client_ok t =
    attempt (ok_or ''no HTTP endpoint configured for the engine provider'' (first_http t)) (\<lambda>url.
    attempt (ensure (url_ok url) (''invalid HTTP rpc URL `'' @ url @ ''`'')) (\<lambda>_.
    attempt (ensure client_ok ''failed to build reqwest http client'') (\<lambda>_.
    Ok \<lparr>ep_url = url, ep_chain_id = tp_chain_id t, ep_request_timeout_ms = max (tp_request_timeout_ms t) 1\<rparr>)))"

text \<open>The second argument is the endpoint's answer to \<open>eth_chainId\<close>.\<close>

definition verify_chain_id :: "EngineProvider \<Rightarrow> (string, u64) res \<Rightarrow> (string, unit) res" where
  "verify_chain_id p answer =
    attempt (map_err (\<lambda>_. ''failed to call eth_chainId during bootstrap'') answer) (\<lambda>observed.
    ensure (observed = ep_chain_id p)
      (''rpc endpoint reports chain_id '' @ show_uint observed @ '' but engine is configured for '' @
       show_uint (ep_chain_id p)))"

lemma endpoints_from_config: "endpoints (topology_from_config c) = ordered_endpoints c"
  by (auto simp: endpoints_def topology_from_config_def Let_def split: list.splits)

text \<open>Whatever order the endpoints are listed in, the topology built from a configuration finds
  exactly the configured HTTP and websocket addresses; so a connection succeeds exactly when
  an HTTP address is configured and usable, and the provider it returns talks to that
  address with the configured chain id and a timeout that is never zero.\<close>

theorem topology_finds_endpoints:
  "first_http (topology_from_config c) = rp_http_url c \<and>
   first_ws (topology_from_config c) = rp_ws_url c \<and>
   (tp_primary (topology_from_config c) = None \<longleftrightarrow>
     rp_http_url c = None \<and> rp_ws_url c = None \<and> rp_ipc_file_path c = None) \<and>
   (connect_http url_ok True (topology_from_config c) = Ok p \<longleftrightarrow>
     (\<exists>url. rp_http_url c = Some url \<and> url_ok url \<and>
       p = \<lparr>ep_url = url, ep_chain_id = rp_chain_id c, ep_request_timeout_ms = max (rp_request_timeout_ms c) 1\<rparr>))"
proof -
  have http: "first_http (topology_from_config c) = rp_http_url c"
    by (simp add: first_http_def endpoints_from_config ordered_endpoints_def split: option.splits)
  moreover have "first_ws (topology_from_config c) = rp_ws_url c"
    by (simp add: first_ws_def endpoints_from_config ordered_endpoints_def split: option.splits)
  moreover have "tp_primary (topology_from_config c) = None \<longleftrightarrow>
      rp_http_url c = None \<and> rp_ws_url c = None \<and> rp_ipc_file_path c = None"
    by (auto simp: topology_from_config_def Let_def ordered_endpoints_def split: list.splits option.splits)
  moreover have "tp_chain_id (topology_from_config c) = rp_chain_id c"
    "tp_request_timeout_ms (topology_from_config c) = rp_request_timeout_ms c"
    by (simp_all add: topology_from_config_def Let_def)
  ultimately show ?thesis by (auto simp: connect_http_def res_simps)
qed

end
