(* ===== verification/Signer.thy ===== *)
theory Signer
  imports Effects Config
begin

text \<open>
  Signer selection (\<open>src/crates/execution/src/signer.rs\<close>).  Building a key from 32
  bytes and decrypting a key store belong to external crates: the parameters \<open>from_bytes\<close> and
  \<open>decrypt\<close>.  Slicing a Rust string off a character boundary panics; \<open>char_start\<close> is
  that boundary test on UTF-8 bytes.
\<close>

definition char_start :: "string \<Rightarrow> nat \<Rightarrow> bool" where
  "char_start s i \<longleftrightarrow> i = length s \<or> i < length s \<and> (of_char (s ! i) < (128 :: nat) \<or> of_char (s ! i) \<ge> (192 :: nat))"

definition str_slice :: "string \<Rightarrow> nat \<Rightarrow> nat \<Rightarrow> ('e, string) res" where
  "str_slice s i j =
    (if i \<le> j \<and> char_start s i \<and> char_start s j then Ok (take (j - i) (drop i s)) else Panic)"

definition hex_pair :: "string \<Rightarrow> nat \<Rightarrow> (string, u8) res" where
  "hex_pair input i =
    attempt (str_slice input (2 * i) (2 * i + 2)) (\<lambda>pair.
    ok_or (''invalid hex byte at offset '' @ show_nat (2 * i)) (from_str_radix 16 pair))"

definition hex_decode_32 :: "string \<Rightarrow> (string, u8 list) res" where
  "hex_decode_32 input =
    attempt (ensure (length input = 64) (''expected 64 hex characters, got '' @ show_nat (length input))) (\<lambda>_.
    map_res (hex_pair input) [0..<32])"

text \<open>\<open>trim_start_matches\<close> removes the prefix as often as it occurs.\<close>

fun strip_0x :: "string \<Rightarrow> string" where
  "strip_0x (a # b # s) = (if a = CHR ''0'' \<and> b = CHR ''x'' then strip_0x s else a # b # s)"
| "strip_0x s = s"

definition signer_from_private_key :: "(u8 list \<Rightarrow> 'key option) \<Rightarrow> string \<Rightarrow> (string, 'key) res" where
  "signer_from_private_key from_bytes raw =
    attempt (map_err (\<lambda>_. ''SIGNER_PRIVATE_KEY must be 32-byte hex (with or without 0x prefix)'')
      (hex_decode_32 (strip_0x (trim raw)))) (\<lambda>bs.
    ok_or ''failed to construct signer from SIGNER_PRIVATE_KEY'' (from_bytes bs))"

definition signer_from_keystore :: "(string \<Rightarrow> string \<Rightarrow> 'key option) \<Rightarrow> string \<Rightarrow> string \<Rightarrow> (string, 'key) res" where
  "signer_from_keystore decrypt path password =
    ok_or (''failed to decrypt keystore at '' @ path) (decrypt path password)"

record 'key EngineSigner =
  es_key :: 'key
  es_chain_id :: "u64 option"

definition load_signer ::
  "(u8 list \<Rightarrow> 'key option) \<Rightarrow> (string \<Rightarrow> string \<Rightarrow> 'key option) \<Rightarrow> SignerConfig \<Rightarrow> u64
    \<Rightarrow> (string, 'key EngineSigner) res" where
  "load_signer from_bytes decrypt config chain_id =
    attempt
      (case sg_private_key config of
         Some raw \<Rightarrow> signer_from_private_key from_bytes raw
       | None \<Rightarrow> (case sg_keystore_path config of
           Some path \<Rightarrow>
             attempt (ok_or ''SIGNER_KEYSTORE_PATH is set but SIGNER_KEYSTORE_PASSWORD is missing''
               (sg_keystore_password config)) (signer_from_keystore decrypt path)
         | None \<Rightarrow>
             (if sg_aws_kms_key_id config \<noteq> None
              then Err ''AWS KMS signer is configured but not yet implemented; provide SIGNER_PRIVATE_KEY or SIGNER_KEYSTORE_PATH instead''
              else Err ''no signer source configured'')))
      (\<lambda>key. Ok \<lparr>es_key = key, es_chain_id = Some chain_id\<rparr>)"

section \<open>Round trip of the key text\<close>

definition hex_u8 :: "u8 \<Rightarrow> string" where
  "hex_u8 b = [digit_char (unat b div 16), digit_char (unat b mod 16)]"

lemma digit_val_hex: "d < 16 \<Longrightarrow> digit_val 16 (digit_char d) = Some d"
proof -
  have "\<forall>d \<in> set [0..<16]. digit_val 16 (digit_char d) = Some d" by code_simp
  then show "d < 16 \<Longrightarrow> digit_val 16 (digit_char d) = Some d" by simp
qed


lemma hex_u8_parses: "from_str_radix 16 (hex_u8 b) = Some b"
proof -
  have d: "digit_val 16 (digit_char (unat b div 16)) = Some (unat b div 16)"
    "digit_val 16 (digit_char (unat b mod 16)) = Some (unat b mod 16)"
    using unat_lt_width[of b] by (simp_all add: digit_val_hex less_mult_imp_div_less)
  then have "digit_char (unat b div 16) \<noteq> CHR ''+''"
    by (auto simp: digit_val_def)
  moreover have "unat b div 16 * 16 + unat b mod 16 = unat b" by simp
  ultimately show ?thesis
    by (simp add: from_str_radix_def hex_u8_def d)
qed

lemma hex_text_slice:
  "i < length bs \<Longrightarrow> take 2 (drop (2 * i) (concat (map hex_u8 bs))) = hex_u8 (bs ! i)"
proof (induction bs arbitrary: i)
  case (Cons b bs)
  then show ?case by (cases i) (auto simp: hex_u8_def)
qed simp

lemma hex_text_length [simp]: "length (concat (map hex_u8 bs)) = 2 * length bs"
  by (induction bs) (auto simp: hex_u8_def)

lemma digit_char_ascii: "d < 16 \<Longrightarrow> of_char (digit_char d) < (128 :: nat) \<and> digit_char d \<noteq> CHR ''x'' \<and> \<not> ws_byte (digit_char d)"
proof -
  have "\<forall>d \<in> set [0..<16]. of_char (digit_char d) < (128 :: nat) \<and> digit_char d \<noteq> CHR ''x'' \<and> \<not> ws_byte (digit_char d)"
    by code_simp
  then show "d < 16 \<Longrightarrow> ?thesis" by simp
qed

lemma hex_text_char:
  assumes "c \<in> set (concat (map hex_u8 bs))"
  shows "of_char c < (128 :: nat)" "c \<noteq> CHR ''x''" "\<not> ws_byte c"
proof -
  from assms obtain b where "c \<in> set (hex_u8 b)" by auto
  then have "c = digit_char (unat b div 16) \<or> c = digit_char (unat b mod 16)"
    by (simp add: hex_u8_def)
  moreover have "unat b div 16 < 16" "unat b mod 16 < 16"
    using unat_lt_width[of b] by (simp_all add: less_mult_imp_div_less)
  ultimately show "of_char c < (128 :: nat)" "c \<noteq> CHR ''x''" "\<not> ws_byte c"
    using digit_char_ascii by metis+
qed

lemma hex_text_boundary: "i \<le> 2 * length bs \<Longrightarrow> char_start (concat (map hex_u8 bs)) i"
  using hex_text_char(1)[of "concat (map hex_u8 bs) ! i" bs]
  by (auto simp: char_start_def le_less nth_mem simp del: set_concat)

lemma map_res_all_Ok: "(\<And>x. x \<in> set xs \<Longrightarrow> f x = Ok (g x)) \<Longrightarrow> map_res f xs = Ok (map g xs)"
  by (induction xs) auto

lemma hex_decode_encode:
  assumes "length bs = 32"
  shows "hex_decode_32 (concat (map hex_u8 bs)) = Ok bs"
proof -
  have "hex_pair (concat (map hex_u8 bs)) i = Ok (bs ! i)" if "i < 32" for i
    using that assms
    by (simp add: hex_pair_def str_slice_def hex_text_boundary hex_text_slice hex_u8_parses)
  then have "map_res (hex_pair (concat (map hex_u8 bs))) [0..<32] = Ok (map ((!) bs) [0..<32])"
    by (intro map_res_all_Ok) simp
  moreover have "map ((!) bs) [0..<32] = bs"
    using assms map_nth[of bs] by simp
  ultimately show ?thesis using assms by (simp add: hex_decode_32_def)
qed


lemma strip_0x_hex: "strip_0x (concat (map hex_u8 bs)) = concat (map hex_u8 bs)"
proof (cases bs)
  case (Cons b bs')
  have "digit_char (unat b mod 16) \<noteq> CHR ''x''"
    using hex_text_char(2)[of "digit_char (unat b mod 16)" "[b]"] by (auto simp: hex_u8_def)
  with Cons show ?thesis by (simp add: hex_u8_def)
qed simp

lemma zero_x_not_space: "\<not> ws_byte (CHR ''0'')"
  by code_simp

text \<open>A private key written as 64 hexadecimal digits behind \<open>0x\<close> is read back byte for byte, the
  signer it gives is bound to the chain, and a private key takes precedence over every other
  signer source.\<close>

theorem private_key_round_trip:
  assumes "length bs = 32" "from_bytes bs = Some key"
    and "sg_private_key config = Some (''0x'' @ concat (map hex_u8 bs))"
  shows "load_signer from_bytes decrypt config chain_id = Ok \<lparr>es_key = key, es_chain_id = Some chain_id\<rparr>"
proof -
  let ?h = "concat (map hex_u8 bs)"
  from assms(1) have ne: "?h \<noteq> []" by (metis hex_text_length length_0_conv mult_is_0 zero_neq_numeral)
  then have "\<not> ws_byte (last ?h)" using hex_text_char(3) last_in_set by blast
  with ne zero_x_not_space have "trim (''0x'' @ ?h) = ''0x'' @ ?h"
    by (intro trim_id) (simp del: concat_eq_Nil_conv)
  then have "signer_from_private_key from_bytes (''0x'' @ ?h) = Ok key"
    using assms(1,2) by (simp add: signer_from_private_key_def strip_0x_hex hex_decode_encode)
  with assms(3) show ?thesis by (simp add: load_signer_def)
qed

definition sample_signer_config :: SignerConfig where
  "sample_signer_config =
    \<lparr>sg_private_key = Some (''0x'' @ concat (map hex_u8 (replicate 32 171))), sg_keystore_path = Some ''/k'',
     sg_keystore_password = None, sg_aws_kms_key_id = None\<rparr>"

theorem private_key_round_trip_witness:
  "load_signer Some (\<lambda>_ _. None) sample_signer_config 8453 =
    Ok \<lparr>es_key = replicate 32 171, es_chain_id = Some 8453\<rparr>"
  by (rule private_key_round_trip) (simp_all add: sample_signer_config_def del: map_replicate)

text \<open>The key decoder reads each pair of characters with the integer parser, which accepts a plus
  sign, so text that is not hexadecimal passes; and a 64-byte text with a multi-byte character
  across a pair boundary makes it panic instead of returning an error.\<close>

theorem key_text_accepts_plus_and_panics:
  "hex_decode_32 (''+f'' @ replicate 62 (CHR ''0'')) = Ok (15 # replicate 31 0) \<and>
   hex_decode_32 (CHR ''0'' # CHR 0xC3 # CHR 0xA9 # replicate 61 (CHR ''0'')) = Panic"
  by code_simp

end
