(* ===== verification/Submit.thy ===== *)
theory Submit
  imports Execution Nonce Rpc Signer
begin

text \<open>
  Gas pricing and the alloy-backed transport (\<open>src/crates/execution/src/gas.rs\<close>,
  \<open>submit.rs\<close>).  The node behind the provider is a record of calls on an external state
  \<open>'p\<close>; each call also says how many milliseconds it took, so that a timer racing the
  submission can win at any network call.  The signer is the parameter \<open>sign\<close>, which
  turns a transaction into its signed encoding.

  The state holds the nonce manager, the node, the clock, and the nonces whose release
  was handed to a spawned task that has not run yet.
\<close>

section \<open>Gas pricing\<close>

record GasPricing =
  gp_max_fee_per_gas :: Amount
  gp_max_priority_fee_per_gas :: Amount

record GasCaps =
  gc_max_fee_cap :: "Amount option"
  gc_max_priority_fee_cap :: "Amount option"

definition gas_caps_from_config :: "ExecutionConfig \<Rightarrow> (string, GasCaps) res" where
  "gas_caps_from_config config =
    attempt (transpose_opt (\<lambda>raw. ok_or ''failed to parse EXECUTION_MAX_FEE_PER_GAS_WEI'' (parse_uint raw))
      (ex_max_fee_per_gas_wei config)) (\<lambda>fee.
    attempt (transpose_opt (\<lambda>raw. ok_or ''failed to parse EXECUTION_MAX_PRIORITY_FEE_PER_GAS_WEI'' (parse_uint raw))
      (ex_max_priority_fee_per_gas_wei config)) (\<lambda>prio.
    Ok \<lparr>gc_max_fee_cap = fee, gc_max_priority_fee_cap = prio\<rparr>))"

text \<open>Clamping the node's estimate \<open>(max_fee, max_priority_fee)\<close>.\<close>

definition clamp_fees :: "GasCaps \<Rightarrow> Amount \<times> Amount \<Rightarrow> GasPricing" where
  "clamp_fees caps est =
    (let (max_fee, max_prio) = est;
         max_fee = (case gc_max_fee_cap caps of Some cap \<Rightarrow> if max_fee > cap then cap else max_fee | None \<Rightarrow> max_fee);
         max_prio = (case gc_max_priority_fee_cap caps of
             Some cap \<Rightarrow> if max_prio > cap then cap else max_prio | None \<Rightarrow> max_prio);
         max_prio = (if max_prio > max_fee then max_fee else max_prio)
     in \<lparr>gp_max_fee_per_gas = max_fee, gp_max_priority_fee_per_gas = max_prio\<rparr>)"

text \<open>The fees offered are the node's estimate cut down to the configured ceilings: the maximum fee
  is the smaller of estimate and ceiling, the priority fee is the smallest of estimate,
  ceiling and maximum fee, so no ceiling is ever exceeded and the priority fee never exceeds
  the maximum fee.\<close>

theorem clamped_fees_exact:
  "gp_max_fee_per_gas (clamp_fees caps (f, p)) = (case gc_max_fee_cap caps of Some c \<Rightarrow> min f c | None \<Rightarrow> f) \<and>
   gp_max_priority_fee_per_gas (clamp_fees caps (f, p)) =
     min (case gc_max_priority_fee_cap caps of Some c \<Rightarrow> min p c | None \<Rightarrow> p)
         (gp_max_fee_per_gas (clamp_fees caps (f, p)))"
  by (auto simp: clamp_fees_def Let_def min_def split: option.splits)

section \<open>The node and the state\<close>

record TxEip1559 =
  tx_chain_id :: u64
  tx_nonce :: u64
  tx_gas_limit :: u64
  tx_max_fee_per_gas :: Amount
  tx_max_priority_fee_per_gas :: Amount
  tx_to :: bytes
  tx_value :: U256
  tx_input :: bytes

record TransactionRequest =
  tq_from :: bytes
  tq_to :: bytes
  tq_input :: bytes
  tq_gas_limit :: "u64 option"
  tq_value :: U256

record NodeReceipt =
  nr_block_number :: "BlockNumber option"
  nr_status :: bool
  nr_gas_used :: u128
  nr_effective_gas_price :: Amount

type_synonym ('p, 'a) rpc = "'p \<Rightarrow> nat \<times> (string, 'a) res \<times> 'p"

record 'p node =
  nd_estimate_fees :: "('p, Amount \<times> Amount) rpc"
  nd_call :: "TransactionRequest \<Rightarrow> ('p, bytes) rpc"
  nd_estimate_gas :: "TransactionRequest \<Rightarrow> ('p, u64) rpc"
  nd_send_raw :: "bytes \<Rightarrow> ('p, bytes) rpc"
  nd_receipt :: "bytes \<Rightarrow> ('p, NodeReceipt option) rpc"

record 'p submit_world =
  sw_nonce :: NonceState
  sw_net :: 'p
  sw_clock :: nat
  sw_spawned :: "u64 list"

record 'p AlloySubmitTransport =
  as_alloy :: alloy
  as_node :: "'p node"
  as_chain_id :: u64
  as_signer_address :: bytes
  as_sign :: "TxEip1559 \<Rightarrow> (string, bytes) res"
  as_caps :: GasCaps
  as_poll_interval_ms :: nat

definition DEFAULT_RECEIPT_POLL_INTERVAL :: nat where
  "DEFAULT_RECEIPT_POLL_INTERVAL = 750"

definition alloy_transport_new ::
  "alloy \<Rightarrow> 'p node \<Rightarrow> u64 \<Rightarrow> bytes \<Rightarrow> (TxEip1559 \<Rightarrow> (string, bytes) res) \<Rightarrow> GasCaps \<Rightarrow> 'p AlloySubmitTransport" where
  "alloy_transport_new al nd chain_id address sign caps =
    \<lparr>as_alloy = al, as_node = nd, as_chain_id = chain_id, as_signer_address = address, as_sign = sign,
     as_caps = caps, as_poll_interval_ms = DEFAULT_RECEIPT_POLL_INTERVAL\<rparr>"

definition with_poll_interval :: "nat \<Rightarrow> 'p AlloySubmitTransport \<Rightarrow> 'p AlloySubmitTransport" where
  "with_poll_interval ms t = t\<lparr>as_poll_interval_ms := ms\<rparr>"

text \<open>Why a call under a timer stopped: it failed, or the timer fired first.\<close>

datatype stop = CallFailed string | TimedOut

fun stop_context :: "string \<Rightarrow> stop \<Rightarrow> stop" where
  "stop_context msg (CallFailed _) = CallFailed msg"
| "stop_context msg TimedOut = TimedOut"

text \<open>One network call: the node's state and the clock advance; past the deadline the
  caller is dropped at this point.\<close>

definition await_net :: "nat \<Rightarrow> ('p, 'a) rpc \<Rightarrow> ('p submit_world, stop, 'a) act" where
  "await_net deadline f w =
    (case f (sw_net w) of (ms, r, p) \<Rightarrow>
       let w' = w\<lparr>sw_net := p, sw_clock := sw_clock w + ms\<rparr>
       in if deadline < sw_clock w' then (Err TimedOut, w') else (map_err CallFailed r, w'))"

definition estimate_fees :: "'p AlloySubmitTransport \<Rightarrow> nat \<Rightarrow> ('p submit_world, stop, GasPricing) act" where
  "estimate_fees t deadline =
    act_bind (act_err (stop_context ''failed to estimate EIP-1559 fees from provider'')
      (await_net deadline (nd_estimate_fees (as_node t)))) (\<lambda>est. ret (clamp_fees (as_caps t) est))"

definition preflight_call ::
  "'p AlloySubmitTransport \<Rightarrow> nat \<Rightarrow> bytes \<Rightarrow> bytes \<Rightarrow> u64 \<Rightarrow> Amount \<Rightarrow> ('p submit_world, stop, unit) act" where
  "preflight_call t deadline to calldata gas_limit value =
    act_match (await_net deadline (nd_call (as_node t)
        \<lparr>tq_from = as_signer_address t, tq_to = to, tq_input = calldata, tq_gas_limit = Some gas_limit,
         tq_value = ucast value\<rparr>))
      (\<lambda>_. ret ())
      (\<lambda>e. lift (Err (case e of CallFailed msg \<Rightarrow> CallFailed (''preflight eth_call reverted: '' @ msg) | TimedOut \<Rightarrow> TimedOut)))"

text \<open>\<open>nonce_release_async\<close> only queues the release; \<open>run_spawned\<close> is the task running later.\<close>

definition nonce_release_async :: "u64 \<Rightarrow> 'p submit_world \<Rightarrow> 'p submit_world" where
  "nonce_release_async n w = w\<lparr>sw_spawned := sw_spawned w @ [n]\<rparr>"

fun run_spawned :: "'p submit_world \<Rightarrow> 'p submit_world" where
  "run_spawned w =
    (case sw_spawned w of [] \<Rightarrow> w
     | n # ns \<Rightarrow> w\<lparr>sw_nonce := nonce_release n (sw_nonce w), sw_spawned := ns\<rparr>)"

definition hash_text :: "bytes \<Rightarrow> string" where
  "hash_text h = ''0x'' @ concat (map hex_u8 h)"

definition reserve_nonce :: "('p submit_world, stop, u64) act" where
  "reserve_nonce w =
    (case nonce_next (sw_nonce w) of (r, s) \<Rightarrow>
      (map_err (\<lambda>_. CallFailed ''failed to reserve nonce for submission'') r, w\<lparr>sw_nonce := s\<rparr>))"

definition broadcast ::
  "'p AlloySubmitTransport \<Rightarrow> nat \<Rightarrow> u64 \<Rightarrow> bytes \<Rightarrow> ('p submit_world, stop, string) act" where
  "broadcast t deadline nonce raw =
    act_match (await_net deadline (nd_send_raw (as_node t) raw))
      (\<lambda>h. ret (hash_text h))
      (\<lambda>e. case e of
         CallFailed _ \<Rightarrow> act_bind (act_modify (nonce_release_async nonce))
           (\<lambda>_. lift (Err (CallFailed ''failed to broadcast raw transaction'')))
       | TimedOut \<Rightarrow> lift (Err TimedOut))"

definition build_tx ::
  "'p AlloySubmitTransport \<Rightarrow> SubmissionPayload \<Rightarrow> bytes \<Rightarrow> GasPricing \<Rightarrow> u64 \<Rightarrow> u64 \<Rightarrow> TxEip1559" where
  "build_tx t payload to pricing nonce gas_limit =
    \<lparr>tx_chain_id = as_chain_id t, tx_nonce = nonce, tx_gas_limit = gas_limit,
     tx_max_fee_per_gas = gp_max_fee_per_gas pricing,
     tx_max_priority_fee_per_gas = gp_max_priority_fee_per_gas pricing,
     tx_to = to, tx_value = ucast (sp_value payload), tx_input = sp_calldata payload\<rparr>"

text \<open>The part after the nonce is reserved.\<close>

definition submit_reserved ::
  "'p AlloySubmitTransport \<Rightarrow> nat \<Rightarrow> SubmissionPayload \<Rightarrow> ExecutionAttempt \<Rightarrow> bytes \<Rightarrow> GasPricing \<Rightarrow> u64
    \<Rightarrow> ('p submit_world, stop, string) act" where
  "submit_reserved t deadline payload att to pricing nonce =
    act_bind (lift (ok_or (CallFailed ''execution attempt is missing gas_limit; refusing to submit'') (at_gas_limit att))) (\<lambda>gas_limit.
    act_bind (preflight_call t deadline to (sp_calldata payload) gas_limit (sp_value payload)) (\<lambda>_.
    act_bind (lift (map_err (\<lambda>_. CallFailed ''failed to sign EIP-1559 transaction hash'')
      (as_sign t (build_tx t payload to pricing nonce gas_limit)))) (\<lambda>raw.
    broadcast t deadline nonce raw)))"

definition submit_inner ::
  "'p AlloySubmitTransport \<Rightarrow> nat \<Rightarrow> SubmissionPayload \<Rightarrow> ExecutionAttempt \<Rightarrow> ('p submit_world, stop, string) act" where
  "submit_inner t deadline payload att =
    act_bind (lift (ok_or (CallFailed (''invalid router address `'' @ sp_router_address payload @ ''`''))
      (al_address (as_alloy t) (sp_router_address payload)))) (\<lambda>to.
    act_bind (act_err (stop_context ''failed to obtain gas pricing for submission'') (estimate_fees t deadline)) (\<lambda>pricing.
    act_bind reserve_nonce (\<lambda>nonce.
    submit_reserved t deadline payload att to pricing nonce)))"

definition translate_receipt :: "string \<Rightarrow> NodeReceipt \<Rightarrow> ExecutionReceipt" where
  "translate_receipt tx_hash_hex r =
    \<lparr>rc_request_id = [], rc_tx_hash = tx_hash_hex, rc_block_number = nr_block_number r,
     rc_success = nr_status r, rc_gas_used = Some (ucast (nr_gas_used r)),
     rc_effective_gas_price = Some (nr_effective_gas_price r), rc_l1_fee_paid = None,
     rc_revert_reason = (if nr_status r then None else Some ''transaction reverted on-chain'')\<rparr>"

text \<open>One query of the receipt loop; \<open>None\<close> when the loop goes round again.\<close>

definition poll_once ::
  "'p AlloySubmitTransport \<Rightarrow> string \<Rightarrow> bytes \<Rightarrow> nat \<Rightarrow> 'p submit_world
    \<Rightarrow> (string, ExecutionReceipt option) res option \<times> 'p submit_world" where
  "poll_once t tx_hash_hex h deadline w =
    (case nd_receipt (as_node t) h (sw_net w) of (ms, r, p) \<Rightarrow>
      let w' = w\<lparr>sw_net := p, sw_clock := sw_clock w + ms\<rparr> in
      (case r of
         Err _ \<Rightarrow> (Some (Err ''failed to query transaction receipt''), w')
       | Panic \<Rightarrow> (Some Panic, w')
       | Ok (Some receipt) \<Rightarrow> (Some (Ok (Some (translate_receipt tx_hash_hex receipt))), w')
       | Ok None \<Rightarrow>
           if deadline \<le> sw_clock w' then (Some (Ok None), w')
           else (None, w'\<lparr>sw_clock := sw_clock w' + as_poll_interval_ms t\<rparr>)))"

partial_function (option) poll_loop ::
  "'p AlloySubmitTransport \<Rightarrow> string \<Rightarrow> bytes \<Rightarrow> nat \<Rightarrow> 'p submit_world
    \<Rightarrow> ((string, ExecutionReceipt option) res \<times> 'p submit_world) option" where
  "poll_loop t tx_hash_hex h deadline w =
    (case poll_once t tx_hash_hex h deadline w of
       (Some r, w') \<Rightarrow> Some (r, w')
     | (None, w') \<Rightarrow> poll_loop t tx_hash_hex h deadline w')"

text \<open>\<open>started + timeout\<close> panics when the seconds of the sum do not fit the signed 64 bits of the clock.\<close>

definition wait_overflows :: "u64 \<Rightarrow> 'p submit_world \<Rightarrow> bool" where
  "wait_overflows timeout_secs w \<longleftrightarrow> 2 ^ 63 \<le> sw_clock w div 1000 + unat timeout_secs"

definition poll_receipt ::
  "'p AlloySubmitTransport \<Rightarrow> string \<Rightarrow> u64 \<Rightarrow> 'p submit_world
    \<Rightarrow> ((string, ExecutionReceipt option) res \<times> 'p submit_world) option" where
  "poll_receipt t tx_hash_hex timeout_secs w =
    (if wait_overflows timeout_secs w then Some (Panic, w)
     else case al_bytes32 (as_alloy t) tx_hash_hex of
       None \<Rightarrow> Some (Err (''invalid tx hash `'' @ tx_hash_hex @ ''`''), w)
     | Some h \<Rightarrow> poll_loop t tx_hash_hex h (sw_clock w + unat timeout_secs * 1000) w)"

section \<open>The transport\<close>

definition timed_call :: "('w, stop, 'a) act \<Rightarrow> 'w \<Rightarrow> (string, 'a) res option \<times> 'w" where
  "timed_call m w = (case m w of
      (Ok x, w') \<Rightarrow> (Some (Ok x), w') | (Err (CallFailed e), w') \<Rightarrow> (Some (Err e), w')
    | (Err TimedOut, w') \<Rightarrow> (None, w') | (Panic, w') \<Rightarrow> (Some Panic, w'))"

definition alloy_submit ::
  "'p AlloySubmitTransport \<Rightarrow> SubmissionPayload \<Rightarrow> ExecutionAttempt \<Rightarrow> u64 \<Rightarrow> 'p submit_world
    \<Rightarrow> (string, string) res option \<times> 'p submit_world" where
  "alloy_submit t payload att secs w = timed_call (submit_inner t (sw_clock w + unat secs * 1000) payload att) w"

definition await_outcome ::
  "'p AlloySubmitTransport \<Rightarrow> ExecutionAttempt \<Rightarrow> u64 \<Rightarrow> 'p submit_world
    \<Rightarrow> ((string, ExecutionReceipt option) res \<times> 'p submit_world) option" where
  "await_outcome t att secs w =
    (case at_tx_hash att of
       None \<Rightarrow> Some (Err ''execution attempt has no tx_hash to await'', w)
     | Some tx_hash \<Rightarrow>
         (case poll_receipt t tx_hash secs w of
            None \<Rightarrow> None
          | Some (Ok receipt, w') \<Rightarrow>
              Some (Ok (map_option (\<lambda>rx. rx\<lparr>rc_request_id := at_request_id att\<rparr>) receipt), w')
          | Some (r, w') \<Rightarrow> Some (r, w')))"

text \<open>The loop returns whenever the poll interval is positive (\<open>await_outcome_returns\<close>
  below), as it is for every transport the engine builds.\<close>

definition alloy_await_receipt ::
  "'p AlloySubmitTransport \<Rightarrow> ExecutionRequest \<Rightarrow> ExecutionAttempt \<Rightarrow> u64
    \<Rightarrow> ('p submit_world, string, ExecutionReceipt option) act" where
  "alloy_await_receipt t request att secs w = the (await_outcome t att secs w)"

definition simulate_request ::
  "'p AlloySubmitTransport \<Rightarrow> SubmissionPayload \<Rightarrow> ExecutionAttempt \<Rightarrow> bytes \<Rightarrow> TransactionRequest" where
  "simulate_request t payload att to =
    \<lparr>tq_from = as_signer_address t, tq_to = to, tq_input = sp_calldata payload,
     tq_gas_limit = at_gas_limit att, tq_value = ucast (sp_value payload)\<rparr>"

definition simulate_inner ::
  "'p AlloySubmitTransport \<Rightarrow> nat \<Rightarrow> SubmissionPayload \<Rightarrow> ExecutionAttempt \<Rightarrow> ('p submit_world, stop, EthCallSimulation) act" where
  "simulate_inner t deadline payload att =
    act_bind (lift (ok_or (CallFailed (''invalid router address `'' @ sp_router_address payload @ ''`''))
      (al_address (as_alloy t) (sp_router_address payload)))) (\<lambda>to.
    act_match (await_net deadline (nd_call (as_node t) (simulate_request t payload att to)))
      (\<lambda>_. act_match (await_net deadline (nd_estimate_gas (as_node t) (simulate_request t payload att to)))
         (\<lambda>gas. ret (Sim_Passed (Some gas)))
         (\<lambda>e. case e of CallFailed _ \<Rightarrow> ret (Sim_Passed None) | TimedOut \<Rightarrow> lift (Err TimedOut)))
      (\<lambda>e. lift (Err (case e of CallFailed msg \<Rightarrow> CallFailed (''eth_call simulation reverted: '' @ msg) | TimedOut \<Rightarrow> TimedOut))))"

definition alloy_simulate ::
  "'p AlloySubmitTransport \<Rightarrow> SubmissionPayload \<Rightarrow> ExecutionAttempt \<Rightarrow> u64 \<Rightarrow> 'p submit_world
    \<Rightarrow> (string, EthCallSimulation) res option \<times> 'p submit_world" where
  "alloy_simulate t payload att secs w = timed_call (simulate_inner t (sw_clock w + unat secs * 1000) payload att) w"

definition alloy_transport :: "'p AlloySubmitTransport \<Rightarrow> 'p submit_world transport" where
  "alloy_transport t =
    \<lparr>tr_submit = alloy_submit t, tr_await_receipt = alloy_await_receipt t, tr_simulate = alloy_simulate t\<rparr>"


section \<open>Waiting for a receipt\<close>

text \<open>The client library itself unwinding while it asks for a receipt.\<close>

definition node_panics :: "'p AlloySubmitTransport \<Rightarrow> bool" where
  "node_panics t \<longleftrightarrow> (\<exists>h p ms p'. nd_receipt (as_node t) h p = (ms, Panic, p'))"

lemma poll_once_again:
  assumes "poll_once t x h deadline w = (None, w')"
  shows "sw_clock w + as_poll_interval_ms t \<le> sw_clock w'" "sw_clock w < deadline"
    "sw_nonce w' = sw_nonce w" "sw_spawned w' = sw_spawned w"
  using assms by (auto simp: poll_once_def Let_def split: prod.splits res.splits option.splits if_splits)

text \<open>A receipt the node gives for a hash.\<close>

definition node_receipt :: "'p AlloySubmitTransport \<Rightarrow> string \<Rightarrow> NodeReceipt \<Rightarrow> bool" where
  "node_receipt t x nr \<longleftrightarrow>
    (\<exists>h ms p p'. al_bytes32 (as_alloy t) x = Some h \<and> nd_receipt (as_node t) h p = (ms, Ok (Some nr), p'))"

definition poll_answer :: "'p AlloySubmitTransport \<Rightarrow> string \<Rightarrow> nat \<Rightarrow> 'p submit_world \<Rightarrow>
    (string, ExecutionReceipt option) res \<Rightarrow> 'p submit_world \<Rightarrow> bool" where
  "poll_answer t x deadline w r w' \<longleftrightarrow>
    sw_nonce w' = sw_nonce w \<and> sw_spawned w' = sw_spawned w \<and> (r = Ok None \<longrightarrow> deadline \<le> sw_clock w') \<and>
    (\<forall>rc. r = Ok (Some rc) \<longrightarrow> (\<exists>nr. node_receipt t x nr \<and> rc = translate_receipt x nr)) \<and> (r = Panic \<longrightarrow> node_panics t)"

lemma poll_once_done:
  assumes "poll_once t x h deadline w = (Some r, w')" "al_bytes32 (as_alloy t) x = Some h"
  shows "poll_answer t x deadline w r w'"
  using assms unfolding poll_answer_def node_panics_def node_receipt_def
  by (auto simp: poll_once_def Let_def split: prod.splits res.splits option.splits if_splits)

lemma poll_loop_returns:
  assumes "0 < as_poll_interval_ms t" "al_bytes32 (as_alloy t) x = Some h"
  shows "\<exists>r w'. poll_loop t x h deadline w = Some (r, w') \<and> poll_answer t x deadline w r w'"
proof (induction "deadline - sw_clock w" arbitrary: w rule: less_induct)
  case less
  obtain v w1 where v: "poll_once t x h deadline w = (v, w1)"
    by (cases "poll_once t x h deadline w")
  show ?case
  proof (cases v)
    case None
    note again = poll_once_again[OF v[unfolded None]]
    with assms have "deadline - sw_clock w1 < deadline - sw_clock w" by simp
    from less.hyps[OF this] again(3,4) show ?thesis
      by (simp add: poll_loop.simps[of t x h deadline w] v None poll_answer_def)
  next
    case (Some r)
    with poll_once_done[OF v[unfolded Some] assms(2)] show ?thesis
      by (auto simp: poll_loop.simps[of t x h deadline w] v)
  qed
qed

definition await_answer :: "'p AlloySubmitTransport \<Rightarrow> ExecutionAttempt \<Rightarrow> u64 \<Rightarrow> 'p submit_world \<Rightarrow>
    (string, ExecutionReceipt option) res \<Rightarrow> 'p submit_world \<Rightarrow> bool" where
  "await_answer t att secs w r w' \<longleftrightarrow>
    sw_nonce w' = sw_nonce w \<and> sw_spawned w' = sw_spawned w \<and>
    (r = Ok None \<longrightarrow> sw_clock w + unat secs * 1000 \<le> sw_clock w') \<and>
    (\<forall>rc. r = Ok (Some rc) \<longrightarrow> (\<exists>x nr. at_tx_hash att = Some x \<and> node_receipt t x nr \<and>
      rc = (translate_receipt x nr)\<lparr>rc_request_id := at_request_id att\<rparr>)) \<and>
    (r = Panic \<longrightarrow> node_panics t \<or> wait_overflows secs w)"

lemma await_outcome_returns:
  assumes "0 < as_poll_interval_ms t"
  shows "\<exists>r w'. await_outcome t att secs w = Some (r, w') \<and> await_answer t att secs w r w'"
proof (cases "at_tx_hash att")
  case None
  then show ?thesis by (simp add: await_outcome_def await_answer_def)
next
  case (Some x)
  show ?thesis
  proof (cases "wait_overflows secs w")
    case True
    with Some show ?thesis by (simp add: await_outcome_def poll_receipt_def await_answer_def)
  next
    case fits: False
    show ?thesis
    proof (cases "al_bytes32 (as_alloy t) x")
      case None
      with Some fits show ?thesis by (simp add: await_outcome_def poll_receipt_def await_answer_def)
    next
      case h: (Some h)
      obtain r w' where "poll_loop t x h (sw_clock w + unat secs * 1000) w = Some (r, w')"
        "poll_answer t x (sw_clock w + unat secs * 1000) w r w'"
        using poll_loop_returns[OF assms h] by blast
      with h fits Some show ?thesis
        by (cases r) (auto simp: await_outcome_def poll_receipt_def await_answer_def poll_answer_def)
    qed
  qed
qed

text \<open>C22: waiting for a receipt always returns when the poll interval is positive (as the engine's
  own 750 ms is), however the node behaves; giving up means the whole timeout has passed; and
  a receipt it returns carries the hash and the request of the attempt it was asked for.  The
  wait never touches the nonces.\<close>

theorem receipt_wait_terminates:
  assumes "0 < as_poll_interval_ms t"
  shows "\<exists>r w'. await_outcome t att secs w = Some (r, w') \<and>
    alloy_await_receipt t request att secs w = (r, w') \<and>
    sw_nonce w' = sw_nonce w \<and> sw_spawned w' = sw_spawned w \<and>
    (r = Ok None \<longrightarrow> sw_clock w + unat secs * 1000 \<le> sw_clock w') \<and>
    (\<forall>rc. r = Ok (Some rc) \<longrightarrow> at_tx_hash att = Some (rc_tx_hash rc) \<and> rc_request_id rc = at_request_id att)"
  using await_outcome_returns[OF assms, of att secs w]
  by (auto simp: alloy_await_receipt_def await_answer_def translate_receipt_def)

text \<open>A node that knows no receipt for the first two queries.\<close>

definition sample_node :: "nat node" where
  "sample_node =
    \<lparr>nd_estimate_fees = (\<lambda>p. (10, Ok (120, 5), p)),
     nd_call = (\<lambda>q p. (10, Ok [], p)),
     nd_estimate_gas = (\<lambda>q p. (10, Ok 90000, p)),
     nd_send_raw = (\<lambda>raw p. (10, Ok (replicate 32 1), p)),
     nd_receipt = (\<lambda>h p. (5, Ok (if p < 2 then None else
        Some \<lparr>nr_block_number = Some 9, nr_status = True, nr_gas_used = 80000, nr_effective_gas_price = 50\<rparr>),
        Suc p))\<rparr>"

definition sample_alloy_transport :: "nat AlloySubmitTransport" where
  "sample_alloy_transport =
    alloy_transport_new sample_alloy sample_node 8453 (replicate 20 7) (\<lambda>tx. Ok [3])
      \<lparr>gc_max_fee_cap = Some 100, gc_max_priority_fee_cap = None\<rparr>"

definition sample_world :: "nat submit_world" where
  "sample_world = \<lparr>sw_nonce = \<lparr>ns_next = 7, ns_initialised = True\<rparr>, sw_net = 0, sw_clock = 0, sw_spawned = []\<rparr>"

theorem receipt_wait_terminates_witness:
  "0 < as_poll_interval_ms sample_alloy_transport \<and>
   (\<exists>r w'. await_outcome sample_alloy_transport (sample_attempt\<lparr>at_tx_hash := Some ''0xh''\<rparr>) 30 sample_world
      = Some (r, w') \<and> sw_nonce w' = sw_nonce sample_world)"
proof -
  have "0 < as_poll_interval_ms sample_alloy_transport"
    by (simp add: sample_alloy_transport_def alloy_transport_new_def DEFAULT_RECEIPT_POLL_INTERVAL_def)
  from this receipt_wait_terminates[OF this] show ?thesis by blast
qed

interpretation alloy: transport_contract "alloy_transport (alloy_transport_new al nd chain_id address sign caps)"
  for al nd chain_id address sign caps
proof
  fix request att secs w r w' h
  let ?t = "alloy_transport_new al nd chain_id address sign caps"
  assume a: "tr_await_receipt (alloy_transport ?t) request att secs w = (Ok (Some r), w')"
    and "at_tx_hash att = Some h"
  have "0 < as_poll_interval_ms ?t"
    by (simp add: alloy_transport_new_def DEFAULT_RECEIPT_POLL_INTERVAL_def)
  from await_outcome_returns[OF this, of att secs w] a \<open>at_tx_hash att = Some h\<close>
  show "rc_tx_hash r = h \<and> rc_request_id r = at_request_id att"
    by (auto simp: alloy_transport_def alloy_await_receipt_def await_answer_def translate_receipt_def)
qed

lemma node_receipt_fee:
  "total_fee_paid ((translate_receipt x nr)\<lparr>rc_request_id := i\<rparr>) = Err e \<longleftrightarrow>
    e = ''execution fee overflow'' \<and> 2 ^ 128 \<le> unat (ucast (nr_gas_used nr) :: u64) * unat (nr_effective_gas_price nr)"
proof (cases "unat (ucast (nr_gas_used nr) :: u64) * unat (nr_effective_gas_price nr) < 2 ^ 128")
  case True
  have "unat fee < 340282366920938463463374607431768211456" for fee :: u128 using unat_lt_width[of fee] by simp
  with True show ?thesis by (auto simp: total_fee_paid_def translate_receipt_def checked_mul_def checked_add_def)
next
  case False
  then show ?thesis by (auto simp: total_fee_paid_def translate_receipt_def checked_mul_def)
qed


lemma sample_node_calm: "\<not> node_panics sample_alloy_transport"
  by (simp add: node_panics_def sample_alloy_transport_def alloy_transport_new_def sample_node_def)



section \<open>Nonces and transactions of a submission\<close>

definition frame :: "'p submit_world \<Rightarrow> 'p submit_world \<Rightarrow> bool" where
  "frame w w' \<longleftrightarrow> sw_nonce w' = sw_nonce w \<and> sw_spawned w' = sw_spawned w"

lemma frame_refl [simp]: "frame w w"
  by (simp add: frame_def)

lemma frame_trans: "frame w w' \<Longrightarrow> frame w' w'' \<Longrightarrow> frame w w''"
  by (simp add: frame_def)

lemma await_net_frame: "await_net d f w = (r, w') \<Longrightarrow> frame w w'"
  by (auto simp: await_net_def frame_def Let_def split: prod.splits if_splits)

lemma await_net_Ok:
  "await_net d f w = (Ok x, w') \<Longrightarrow> (\<exists>ms. f (sw_net w) = (ms, Ok x, sw_net w')) \<and> sw_clock w' \<le> d"
  by (auto simp: await_net_def Let_def res_simps split: prod.splits if_splits)

lemma estimate_fees_frame: "act_err g (estimate_fees t d) w = (r, w') \<Longrightarrow> frame w w'"
  by (auto simp: estimate_fees_def act_err_def act_bind_def ret_def split: prod.splits res.splits
      dest: await_net_frame)

lemma preflight_frame: "preflight_call t d to c g v w = (r, w') \<Longrightarrow> frame w w'"
  by (auto simp: preflight_call_def act_match_def ret_def lift_def split: prod.splits res.splits
      dest: await_net_frame)

text \<open>The stops of a submission: before a nonce is reserved, after it and before the broadcast, and in
  the broadcast.\<close>

definition stops_before_nonce :: "SubmissionPayload \<Rightarrow> stop \<Rightarrow> bool" where
  "stops_before_nonce payload e \<longleftrightarrow>
    e = CallFailed (''invalid router address `'' @ sp_router_address payload @ ''`'') \<or>
    e = CallFailed ''failed to obtain gas pricing for submission'' \<or> e = CallFailed ''failed to reserve nonce for submission''"

definition stops_before_broadcast :: "stop \<Rightarrow> bool" where
  "stops_before_broadcast e \<longleftrightarrow>
    e = CallFailed ''execution attempt is missing gas_limit; refusing to submit'' \<or>
    (\<exists>msg. e = CallFailed (''preflight eth_call reverted: '' @ msg)) \<or>
    e = CallFailed ''failed to sign EIP-1559 transaction hash''"

definition broadcast_failed :: stop where
  "broadcast_failed = CallFailed ''failed to broadcast raw transaction''"

text \<open>The node answered the fee estimate before the timer.\<close>

definition priced_in_time :: "'p AlloySubmitTransport \<Rightarrow> nat \<Rightarrow> 'p submit_world \<Rightarrow> bool" where
  "priced_in_time t deadline w \<longleftrightarrow> (case nd_estimate_fees (as_node t) (sw_net w) of
    (ms, r, _) \<Rightarrow> is_ok r \<and> sw_clock w + ms \<le> deadline)"

lemma estimate_fees_outcome:
  assumes "act_err (stop_context c) (estimate_fees t d) w = (v, w')"
  shows "frame w w'" "is_ok v \<longleftrightarrow> priced_in_time t d w" "v = Err e \<Longrightarrow> e = CallFailed c \<or> e = TimedOut"
proof -
  show "frame w w'" by (rule estimate_fees_frame[OF assms])
  obtain ms r p where n: "nd_estimate_fees (as_node t) (sw_net w) = (ms, r, p)" using prod_cases3 by blast
  from assms n show "is_ok v \<longleftrightarrow> priced_in_time t d w"
    by (cases r) (auto simp: estimate_fees_def act_err_def act_bind_def await_net_def priced_in_time_def ret_def Let_def split: if_splits)
  from assms n show "v = Err e \<Longrightarrow> e = CallFailed c \<or> e = TimedOut"
    by (cases r) (auto simp: estimate_fees_def act_err_def act_bind_def await_net_def ret_def Let_def split: if_splits)
qed

lemma preflight_stops:
  assumes "preflight_call t d to c g v w = (Err e, w')"
  shows "e = TimedOut \<or> (\<exists>msg. e = CallFailed (''preflight eth_call reverted: '' @ msg))"
  using assms unfolding preflight_call_def act_match_def
  by (auto simp: ret_def lift_def split: prod.splits res.splits stop.splits)

lemma broadcast_outcome:
  assumes "broadcast t d n raw w = (r, w')"
  shows "sw_nonce w' = sw_nonce w"
    "sw_spawned w' = sw_spawned w @ (if r = Err broadcast_failed then [n] else [])"
    "r = Err e \<Longrightarrow> e = broadcast_failed \<or> e = TimedOut"
proof -
  obtain v w1 where v: "await_net d (nd_send_raw (as_node t) raw) w = (v, w1)"
    by (cases "await_net d (nd_send_raw (as_node t) raw) w")
  have w1: "sw_nonce w1 = sw_nonce w" "sw_spawned w1 = sw_spawned w" using await_net_frame[OF v] by (simp_all add: frame_def)
  consider h where "v = Ok h" | m where "v = Err (CallFailed m)" | "v = Err TimedOut" | "v = Panic"
    by (cases v; cases "case v of Err e \<Rightarrow> e | _ \<Rightarrow> TimedOut") auto
  then have "r = Err broadcast_failed \<and> w' = w1\<lparr>sw_spawned := sw_spawned w1 @ [n]\<rparr> \<or>
      w' = w1 \<and> r \<noteq> Err broadcast_failed \<and> (\<forall>e. r = Err e \<longrightarrow> e = TimedOut)"
    using assms v unfolding broadcast_def act_match_def
    by cases (auto simp: act_bind_def act_modify_def lift_def ret_def nonce_release_async_def broadcast_failed_def)
  with w1 show "sw_nonce w' = sw_nonce w" "sw_spawned w' = sw_spawned w @ (if r = Err broadcast_failed then [n] else [])"
    "r = Err e \<Longrightarrow> e = broadcast_failed \<or> e = TimedOut" by auto
qed

lemma stops_differ:
  "stops_before_broadcast e \<Longrightarrow> e \<noteq> broadcast_failed" "stops_before_nonce payload e \<Longrightarrow> e \<noteq> broadcast_failed"
  "TimedOut \<noteq> broadcast_failed"
  by (auto simp: stops_before_broadcast_def stops_before_nonce_def broadcast_failed_def)

lemma submit_reserved_outcome:
  assumes "submit_reserved t d payload att to pricing n w = (r, w')"
  shows "sw_nonce w' = sw_nonce w" "sw_spawned w' = sw_spawned w @ (if r = Err broadcast_failed then [n] else [])"
    "r = Err e \<Longrightarrow> e = broadcast_failed \<or> stops_before_broadcast e \<or> e = TimedOut"
proof -
  have "sw_nonce w' = sw_nonce w \<and> sw_spawned w' = sw_spawned w @ (if r = Err broadcast_failed then [n] else []) \<and>
    (\<forall>e. r = Err e \<longrightarrow> e = broadcast_failed \<or> stops_before_broadcast e \<or> e = TimedOut)"
  proof (cases "at_gas_limit att")
    case None
    with assms show ?thesis
      by (auto simp: submit_reserved_def stops_before_broadcast_def broadcast_failed_def)
  next
    case (Some gas)
    obtain v w1 where v: "preflight_call t d to (sp_calldata payload) gas (sp_value payload) w = (v, w1)"
      by (cases "preflight_call t d to (sp_calldata payload) gas (sp_value payload) w")
    have fr: "sw_nonce w1 = sw_nonce w" "sw_spawned w1 = sw_spawned w" using preflight_frame[OF v] by (simp_all add: frame_def)
    show ?thesis
    proof (cases v)
      case (Ok u)
      show ?thesis
      proof (cases "as_sign t (build_tx t payload to pricing n gas)")
        case (Ok raw)
        with \<open>v = Ok u\<close> v Some assms have "broadcast t d n raw w1 = (r, w')"
          by (simp add: submit_reserved_def)
        from broadcast_outcome[OF this] fr show ?thesis by auto
      next
        case (Err m)
        with \<open>v = Ok u\<close> v Some assms fr show ?thesis
          by (auto simp: submit_reserved_def stops_before_broadcast_def broadcast_failed_def)
      next
        case Panic
        with \<open>v = Ok u\<close> v Some assms fr show ?thesis by (auto simp: submit_reserved_def)
      qed
    next
      case (Err e)
      then have "r = Err e" "w' = w1" using v Some assms by (simp_all add: submit_reserved_def)
      moreover have "e = TimedOut \<or> stops_before_broadcast e"
        using preflight_stops[OF v[unfolded Err]] by (auto simp: stops_before_broadcast_def)
      ultimately show ?thesis using fr stops_differ by auto
    next
      case Panic
      with v Some assms fr show ?thesis by (auto simp: submit_reserved_def)
    qed
  qed
  then show "sw_nonce w' = sw_nonce w" "sw_spawned w' = sw_spawned w @ (if r = Err broadcast_failed then [n] else [])"
    "r = Err e \<Longrightarrow> e = broadcast_failed \<or> stops_before_broadcast e \<or> e = TimedOut" by blast+
qed

lemma reserve_nonce_cases:
  obtains (reserved) n s where "nonce_next (sw_nonce w) = (Ok n, s)" "reserve_nonce w = (Ok n, w\<lparr>sw_nonce := s\<rparr>)"
    | (failed) "\<not> is_ok (fst (nonce_next (sw_nonce w)))"
      "reserve_nonce w = (Err (CallFailed ''failed to reserve nonce for submission''), w)"
proof (cases "nonce_next (sw_nonce w)")
  case (Pair r s)
  show thesis
  proof (cases r)
    case (Ok n)
    with Pair show thesis by (intro reserved) (simp_all add: reserve_nonce_def)
  next
    case (Err e)
    with Pair have "s = sw_nonce w" by (simp add: nonce_next_fails)
    with Err Pair show thesis by (intro failed) (simp_all add: reserve_nonce_def)
  next
    case Panic
    with Pair nonce_next_fails(2) show thesis by blast
  qed
qed

text \<open>Whether the submission gets to reserve a nonce: the router address parses, the node prices the
  transaction in time, and the nonce manager has been initialised and can count on.\<close>

definition reserves :: "'p AlloySubmitTransport \<Rightarrow> nat \<Rightarrow> SubmissionPayload \<Rightarrow> 'p submit_world \<Rightarrow> bool" where
  "reserves t deadline payload w \<longleftrightarrow>
    al_address (as_alloy t) (sp_router_address payload) \<noteq> None \<and> priced_in_time t deadline w \<and>
    ns_initialised (sw_nonce w) \<and> unat (ns_next (sw_nonce w)) + 1 < 2 ^ 64"

lemma nonce_next_is_ok: "is_ok (fst (nonce_next s)) \<longleftrightarrow> ns_initialised s \<and> unat (ns_next s) + 1 < 2 ^ 64"
  by (auto simp: nonce_next_def checked_add_def split: if_splits)

lemma submit_inner_outcome:
  assumes "submit_inner t d payload att w = (r, w')"
  shows "if reserves t d payload w then
      nonce_next (sw_nonce w) = (Ok (ns_next (sw_nonce w)), sw_nonce w') \<and>
      sw_spawned w' = sw_spawned w @ (if r = Err broadcast_failed then [ns_next (sw_nonce w)] else []) \<and>
      (\<forall>e. r = Err e \<longrightarrow> e = broadcast_failed \<or> stops_before_broadcast e \<or> e = TimedOut)
    else frame w w' \<and> \<not> is_ok r \<and> (\<forall>e. r = Err e \<longrightarrow> stops_before_nonce payload e \<or> e = TimedOut)"
proof (cases "al_address (as_alloy t) (sp_router_address payload)")
  case None
  with assms show ?thesis by (auto simp: submit_inner_def reserves_def stops_before_nonce_def)
next
  case (Some to)
  let ?m = "act_err (stop_context ''failed to obtain gas pricing for submission'') (estimate_fees t d)"
  obtain v w1 where v: "?m w = (v, w1)" by (cases "?m w")
  note fees = estimate_fees_outcome[OF v]
  have same: "sw_nonce w1 = sw_nonce w" "sw_spawned w1 = sw_spawned w" using fees(1) by (simp_all add: frame_def)
  show ?thesis
  proof (cases v)
    case (Ok pricing)
    with fees(2) have priced: "priced_in_time t d w" by simp
    show ?thesis
    proof (cases w1 rule: reserve_nonce_cases)
      case (reserved n s)
      then have n: "n = ns_next (sw_nonce w)" "nonce_next (sw_nonce w) = (Ok n, s)" using same by (auto simp: nonce_next_eq_Ok)
      then have res: "reserves t d payload w" using Some priced by (auto simp: reserves_def nonce_next_eq_Ok)
      from reserved Ok v Some assms have "submit_reserved t d payload att to pricing n (w1\<lparr>sw_nonce := s\<rparr>) = (r, w')"
        by (simp add: submit_inner_def)
      note out = submit_reserved_outcome[OF this]
      show ?thesis unfolding if_P[OF res] using out n same by auto
    next
      case failed
      then have res: "\<not> reserves t d payload w" using same by (auto simp: reserves_def nonce_next_is_ok)
      from failed Ok v Some assms have "r = Err (CallFailed ''failed to reserve nonce for submission'')" "w' = w1"
        by (simp_all add: submit_inner_def)
      with fees(1) show ?thesis unfolding if_not_P[OF res] by (simp add: stops_before_nonce_def)
    qed
  next
    case (Err e)
    then have res: "\<not> reserves t d payload w" using fees(2) by (simp add: reserves_def)
    from Err v Some assms have "r = Err e" "w' = w1" by (simp_all add: submit_inner_def)
    with fees(1) fees(3)[OF Err] show ?thesis unfolding if_not_P[OF res] by (auto simp: stops_before_nonce_def)
  next
    case Panic
    then have res: "\<not> reserves t d payload w" using fees(2) by (simp add: reserves_def)
    from Panic v Some assms have "r = Panic" "w' = w1" by (simp_all add: submit_inner_def)
    with fees(1) show ?thesis unfolding if_not_P[OF res] by simp
  qed
qed

lemma run_spawned_restores:
  "nonce_next (sw_nonce w) = (Ok n, sw_nonce w') \<Longrightarrow> sw_spawned w' = [n] \<Longrightarrow> sw_nonce (run_spawned w') = sw_nonce w"
  by (simp add: nonce_release_next)

text \<open>C20: the nonces of a submission are accounted for on every path.  If the router address does not
  parse, the node does not price the transaction in time, or the nonce manager cannot count on,
  the nonces are untouched and the error says which.  Otherwise exactly the next nonce is
  reserved.  It is then handed to a release task if and only if the broadcast itself failed, and
  once that task has run and nothing else was reserved the counter is what it was; when the attempt
  has no gas limit, the dry run reverts, signing fails or the timer fires, the nonce stays taken
  and nothing will release it.\<close>

theorem submit_nonce_accounting:
  assumes "submit_inner t deadline payload att w = (r, w')" "sw_spawned w = []"
  shows "if reserves t deadline payload w then
      ns_next (sw_nonce w') = ns_next (sw_nonce w) + 1 \<and>
      (if r = Err broadcast_failed then
         sw_spawned w' = [ns_next (sw_nonce w)] \<and> sw_nonce (run_spawned w') = sw_nonce w
       else sw_spawned w' = [] \<and> sw_nonce (run_spawned w') = sw_nonce w' \<and>
         (\<forall>e. r = Err e \<longrightarrow> stops_before_broadcast e \<or> e = TimedOut))
    else sw_nonce w' = sw_nonce w \<and> sw_spawned w' = [] \<and> \<not> is_ok r \<and>
      (\<forall>e. r = Err e \<longrightarrow> stops_before_nonce payload e \<or> e = TimedOut)"
proof (cases "reserves t deadline payload w")
  case True
  from submit_inner_outcome[OF assms(1)] True assms(2) have out:
    "nonce_next (sw_nonce w) = (Ok (ns_next (sw_nonce w)), sw_nonce w')"
    "sw_spawned w' = (if r = Err broadcast_failed then [ns_next (sw_nonce w)] else [])"
    "\<forall>e. r = Err e \<longrightarrow> e = broadcast_failed \<or> stops_before_broadcast e \<or> e = TimedOut" by simp_all
  show ?thesis
    using out(2,3) True run_spawned_restores[OF out(1)] out(1)[unfolded nonce_next_eq_Ok] by auto
next
  case False
  with submit_inner_outcome[OF assms(1)] assms(2) show ?thesis by (simp add: frame_def)
qed

definition rejecting_node :: "nat node" where
  "rejecting_node = sample_node\<lparr>nd_send_raw := (\<lambda>raw p. (10, Err ''nonce too low'', p))\<rparr>"

definition rejecting_transport :: "nat AlloySubmitTransport" where
  "rejecting_transport = sample_alloy_transport\<lparr>as_node := rejecting_node\<rparr>"

lemmas sample_submit_defs = submit_inner_def estimate_fees_def submit_reserved_def preflight_call_def
  broadcast_def await_net_def act_bind_def act_err_def act_match_def act_modify_def lift_def ret_def
  reserve_nonce_def sample_alloy_transport_def alloy_transport_new_def sample_node_def
  sample_alloy_def sample_world_def sample_attempt_def nonce_next_def nonce_release_async_def

definition sample_payload_text :: SubmissionPayload where
  "sample_payload_text = \<lparr>sp_router_address = ''0xrouter'', sp_calldata = [2], sp_value = 0\<rparr>"

lemma sample_rejected:
  "submit_inner rejecting_transport 5000 sample_payload_text sample_attempt sample_world =
    (Err broadcast_failed, sample_world\<lparr>sw_nonce := \<lparr>ns_next = 8, ns_initialised = True\<rparr>, sw_clock := 30,
      sw_spawned := [7]\<rparr>)"
  by (simp add: sample_submit_defs rejecting_transport_def rejecting_node_def sample_payload_text_def
      broadcast_failed_def word_eval)

theorem submit_nonce_accounting_witness:
  "\<exists>w'. submit_inner rejecting_transport 5000 sample_payload_text sample_attempt sample_world =
      (Err broadcast_failed, w') \<and> sw_spawned w' = [7] \<and> sw_nonce (run_spawned w') = sw_nonce sample_world"
proof -
  have "sw_spawned sample_world = []" by (simp add: sample_world_def)
  note acc = submit_nonce_accounting[OF sample_rejected this]
  have "reserves rejecting_transport 5000 sample_payload_text sample_world"
    by (simp add: reserves_def priced_in_time_def rejecting_transport_def rejecting_node_def sample_alloy_transport_def
        alloy_transport_new_def sample_node_def sample_alloy_def sample_world_def)
  with acc show ?thesis unfolding sample_rejected by (auto simp: sample_world_def)
qed

text \<open>C19: a broadcast transaction is the one that was asked for and checked.  The node sees exactly three
  calls, in this order: a fee estimate, a dry run, and the broadcast, all before the deadline.
  The transaction that is signed is for the configured chain, with the nonce manager's next nonce,
  which is then used up, the attempt's gas limit, the payload's calldata and value and the parsed
  router address; its maximum fee is the estimate cut at the ceiling, and its priority fee the
  estimate cut at its own ceiling and at the maximum fee; the dry run was the very same call
  and did not revert.\<close>

theorem submitted_transaction_sound:
  assumes "submit_inner t deadline payload att w = (Ok h, w')"
  shows "\<exists>to max_fee max_prio gas raw tx ms1 ms2 ms3 net1 net2 out hb.
    al_address (as_alloy t) (sp_router_address payload) = Some to \<and> at_gas_limit att = Some gas \<and>
    ns_initialised (sw_nonce w) \<and> unat (ns_next (sw_nonce w')) = unat (ns_next (sw_nonce w)) + 1 \<and>
    tx_chain_id tx = as_chain_id t \<and> tx_nonce tx = ns_next (sw_nonce w) \<and> tx_gas_limit tx = gas \<and> tx_to tx = to \<and>
    unat (tx_value tx) = unat (sp_value payload) \<and> tx_input tx = sp_calldata payload \<and>
    tx_max_fee_per_gas tx = (case gc_max_fee_cap (as_caps t) of Some c \<Rightarrow> min max_fee c | None \<Rightarrow> max_fee) \<and>
    tx_max_priority_fee_per_gas tx = min (tx_max_fee_per_gas tx)
      (case gc_max_priority_fee_cap (as_caps t) of Some c \<Rightarrow> min max_prio c | None \<Rightarrow> max_prio) \<and>
    as_sign t tx = Ok raw \<and>
    nd_estimate_fees (as_node t) (sw_net w) = (ms1, Ok (max_fee, max_prio), net1) \<and>
    nd_call (as_node t)
       \<lparr>tq_from = as_signer_address t, tq_to = to, tq_input = tx_input tx, tq_gas_limit = Some (tx_gas_limit tx),
        tq_value = tx_value tx\<rparr> net1 = (ms2, Ok out, net2) \<and>
    nd_send_raw (as_node t) raw net2 = (ms3, Ok hb, sw_net w') \<and> h = hash_text hb \<and>
    sw_clock w' \<le> deadline"
proof -
  from assms obtain to pricing n gas raw w1 w2 w3 where
    to: "al_address (as_alloy t) (sp_router_address payload) = Some to"
    and p: "estimate_fees t deadline w = (Ok pricing, w1)" and n: "reserve_nonce w1 = (Ok n, w2)"
    and gas: "at_gas_limit att = Some gas"
    and pre: "preflight_call t deadline to (sp_calldata payload) gas (sp_value payload) w2 = (Ok (), w3)"
    and raw: "as_sign t (build_tx t payload to pricing n gas) = Ok raw"
    and b: "broadcast t deadline n raw w3 = (Ok h, w')"
    by (auto simp: submit_inner_def submit_reserved_def act_simps res_simps)
  from p obtain est ms1 where est: "pricing = clamp_fees (as_caps t) est"
    and fees: "nd_estimate_fees (as_node t) (sw_net w) = (ms1, Ok est, sw_net w1)"
    by (auto simp: estimate_fees_def act_simps dest!: await_net_Ok)
  obtain ms2 out where call: "nd_call (as_node t)
       \<lparr>tq_from = as_signer_address t, tq_to = to, tq_input = sp_calldata payload, tq_gas_limit = Some gas,
        tq_value = ucast (sp_value payload)\<rparr> (sw_net w2) = (ms2, Ok out, sw_net w3)"
    using pre by (auto simp: preflight_call_def act_match_def lift_def ret_def split: prod.splits res.splits
        dest!: await_net_Ok)
  obtain hb where net3: "await_net deadline (nd_send_raw (as_node t) raw) w3 = (Ok hb, w')" and h: "h = hash_text hb"
    using b by (auto simp: broadcast_def act_match_def act_bind_def act_modify_def lift_def ret_def
        split: prod.splits res.splits stop.splits)
  obtain ms3 where send: "nd_send_raw (as_node t) raw (sw_net w3) = (ms3, Ok hb, sw_net w')"
    "h = hash_text hb" "sw_clock w' \<le> deadline" "frame w3 w'"
    using h await_net_Ok[OF net3] await_net_frame[OF net3] by blast
  have "frame w w1" using p estimate_fees_frame[of id t deadline w "Ok pricing" w1] by (simp add: act_err_def)
  moreover have "nonce_next (sw_nonce w1) = (Ok n, sw_nonce w2)" and net: "sw_net w2 = sw_net w1"
    using n by (cases w1 rule: reserve_nonce_cases; auto)+
  moreover have "frame w2 w3" by (rule preflight_frame[OF pre])
  ultimately have "nonce_next (sw_nonce w) = (Ok n, sw_nonce w')" using send(4) by (simp add: frame_def)
  then have nonce: "ns_initialised (sw_nonce w)" "n = ns_next (sw_nonce w)"
      "unat (ns_next (sw_nonce w')) = unat (ns_next (sw_nonce w)) + 1"
    by (auto simp: nonce_next_eq_Ok unat_nonce_succ)
  obtain max_fee max_prio where e: "est = (max_fee, max_prio)" by (cases est)
  show ?thesis
    using to gas raw fees call net send nonce clamped_fees_exact[of "as_caps t" max_fee max_prio]
    by (intro exI[of _ to] exI[of _ max_fee] exI[of _ max_prio] exI[of _ gas] exI[of _ raw]
        exI[of _ "build_tx t payload to pricing n gas"])
      (auto simp: build_tx_def est e min.commute unat_ucast_fits)
qed

lemma sample_submitted_tx:
  "submit_inner sample_alloy_transport 5000 sample_payload_text sample_attempt sample_world =
    (Ok (hash_text (replicate 32 1)), sample_world\<lparr>sw_nonce := \<lparr>ns_next = 8, ns_initialised = True\<rparr>, sw_clock := 30\<rparr>)"
  by (simp add: sample_submit_defs sample_payload_text_def word_eval)

theorem submitted_transaction_sound_witness:
  "\<exists>w' (tx :: TxEip1559). submit_inner sample_alloy_transport 5000 sample_payload_text sample_attempt sample_world =
      (Ok (hash_text (replicate 32 1)), w') \<and> tx_nonce tx = 7 \<and> tx_max_fee_per_gas tx = 100 \<and>
      tx_max_priority_fee_per_gas tx = 5 \<and> unat (ns_next (sw_nonce w')) = 8 \<and> sw_clock w' \<le> 5000"
proof -
  from submitted_transaction_sound[OF sample_submitted_tx] obtain max_fee max_prio ms net and tx :: TxEip1559 where
    tx: "tx_nonce tx = ns_next (sw_nonce sample_world)"
      "tx_max_fee_per_gas tx = (case gc_max_fee_cap (as_caps sample_alloy_transport) of Some c \<Rightarrow> min max_fee c | None \<Rightarrow> max_fee)"
      "tx_max_priority_fee_per_gas tx = min (tx_max_fee_per_gas tx)
        (case gc_max_priority_fee_cap (as_caps sample_alloy_transport) of Some c \<Rightarrow> min max_prio c | None \<Rightarrow> max_prio)"
      "nd_estimate_fees (as_node sample_alloy_transport) (sw_net sample_world) = (ms, Ok (max_fee, max_prio), net)"
    by (elim exE conjE) (rule that; assumption)
  from tx(4) have "max_fee = 120" "max_prio = 5"
    by (simp_all add: sample_alloy_transport_def alloy_transport_new_def sample_node_def)
  with tx(1-3) have "tx_nonce tx = 7" "tx_max_fee_per_gas tx = 100" "tx_max_priority_fee_per_gas tx = 5"
    by (simp_all add: sample_alloy_transport_def alloy_transport_new_def sample_world_def min_def)
  then show ?thesis unfolding sample_submitted_tx
    by (intro exI[of _ "sample_world\<lparr>sw_nonce := \<lparr>ns_next = 8, ns_initialised = True\<rparr>, sw_clock := 30\<rparr>"] exI[of _ tx]) simp
qed

text \<open>A submission that fails after the reservation but before the broadcast (here, the node
  reports that the call would revert) keeps the nonce: it is neither used nor handed back, so
  the next reservation skips it.\<close>

theorem preflight_failure_leaks_nonce:
  assumes "al_address (as_alloy t) (sp_router_address payload) = Some to" "at_gas_limit att = Some gas"
    and "estimate_fees t deadline w = (Ok pricing, w1)" "nonce_next (sw_nonce w) = (Ok n, s)"
    and "preflight_call t deadline to (sp_calldata payload) gas (sp_value payload) (w1\<lparr>sw_nonce := s\<rparr>) =
      (Err (CallFailed e), w2)" "sw_spawned w = []"
  shows "\<exists>w'. submit_inner t deadline payload att w = (Err (CallFailed e), w') \<and>
    sw_nonce (run_spawned w') = s \<and> (\<forall>m s'. nonce_next (sw_nonce (run_spawned w')) = (Ok m, s') \<longrightarrow> m \<noteq> n)"
proof -
  have fr: "frame w w1"
    using assms(3) estimate_fees_frame[of id t deadline w "Ok pricing" w1] by (simp add: act_err_def)
  then have "reserve_nonce w1 = (Ok n, w1\<lparr>sw_nonce := s\<rparr>)"
    using assms(4) by (simp add: reserve_nonce_def frame_def)
  then have run: "submit_inner t deadline payload att w = (Err (CallFailed e), w2)"
    using assms by (simp add: submit_inner_def submit_reserved_def act_err_def act_bind_def lift_def)
  have "frame (w1\<lparr>sw_nonce := s\<rparr>) w2" by (rule preflight_frame[OF assms(5)])
  with fr assms(6) have "sw_spawned w2 = []" "sw_nonce w2 = s" by (simp_all add: frame_def)
  moreover have "m \<noteq> n" if "nonce_next s = (Ok m, s')" for m s'
    using that assms(4) by (auto simp: nonce_next_eq_Ok)
  ultimately show ?thesis using run by auto
qed

definition reverting_transport :: "nat AlloySubmitTransport" where
  "reverting_transport = sample_alloy_transport\<lparr>as_node := sample_node\<lparr>nd_call := (\<lambda>q p. (10, Err ''revert'', p))\<rparr>\<rparr>"

theorem preflight_failure_leaks_nonce_witness:
  "\<exists>w'. submit_inner reverting_transport 5000 sample_payload_text sample_attempt sample_world =
      (Err (CallFailed ''preflight eth_call reverted: revert''), w') \<and>
    sw_nonce (run_spawned w') = \<lparr>ns_next = 8, ns_initialised = True\<rparr>"
proof -
  let ?w1 = "sample_world\<lparr>sw_clock := 10\<rparr>" and ?s = "\<lparr>ns_next = 8, ns_initialised = True\<rparr> :: NonceState"
  have 1: "al_address (as_alloy reverting_transport) (sp_router_address sample_payload_text) = Some (replicate 20 8)"
    and 2: "at_gas_limit sample_attempt = Some 120000"
    and 3: "estimate_fees reverting_transport 5000 sample_world =
      (Ok \<lparr>gp_max_fee_per_gas = 100, gp_max_priority_fee_per_gas = 5\<rparr>, ?w1)"
    and 4: "nonce_next (sw_nonce sample_world) = (Ok 7, ?s)"
    and 5: "preflight_call reverting_transport 5000 (replicate 20 8) (sp_calldata sample_payload_text) 120000
      (sp_value sample_payload_text) (?w1\<lparr>sw_nonce := ?s\<rparr>) =
      (Err (CallFailed ''preflight eth_call reverted: revert''),
       ?w1\<lparr>sw_nonce := ?s, sw_clock := 20\<rparr>)"
    and 6: "sw_spawned sample_world = []"
    by (simp_all add: sample_submit_defs reverting_transport_def sample_payload_text_def clamp_fees_def
        word_eval)
  from preflight_failure_leaks_nonce[OF 1 2 3 4 5 6] show ?thesis by blast
qed

end
