(* ===== verification/Storage.thy ===== *)
theory Storage
  imports Effects Types Rust_Strings Config
begin

text \<open>
  Persistence (\<open>src/crates/storage/src/lib.rs\<close>, tables of
  \<open>src/migration/00000000-00-init.sql\<close>).  The state is \<open>None\<close> when no database is
  configured, otherwise the three tables with their id sequences, the current UTC day,
  and \<open>db_fault\<close>, which says for each query in turn whether the connection fails it.
  Every SQL statement of the source is one function on the tables.  A JSON column holds
  the value it was made from; the JSON text of a block context or a log, and SHA-256, are
  parameters.  Ids are natural numbers, and a \<open>BIGINT\<close> made with \<open>i64::try_from\<close> keeps
  the unsigned value when it fits.
\<close>

record DecisionRunRecord =
  rr_observed_log_id :: "nat option"
  rr_trigger_tx_hash :: "string option"
  rr_opportunity :: Opportunity
  rr_simulation :: SimulationResult
  rr_risk :: RiskDecision
  rr_execution_request :: "ExecutionRequest option"

record ObservedLogRow =
  ol_id :: nat
  ol_fingerprint :: string
  ol_tx_hash :: "string option"
  ol_block_context :: string
  ol_chain_id :: u64
  ol_address :: "string option"
  ol_event_signature :: "string option"
  ol_log_index :: "u64 option"
  ol_removed :: "bool option"
  ol_log_json :: Log

record DecisionRunRow =
  dr_id :: nat
  dr_observed_log_id :: "nat option"
  dr_opportunity_id :: string
  dr_trigger_tx_hash :: "string option"
  dr_block_context :: string
  dr_settlement_token :: string
  dr_input_amount_wei :: string
  dr_expected_output_amount_wei :: string
  dr_expected_net_profit_wei :: string
  dr_simulated_gross_profit_wei :: string
  dr_simulated_net_profit_wei :: string
  dr_gas_estimate :: u64
  dr_gas_cost_wei :: string
  dr_l1_data_fee_wei :: string
  dr_risk_accepted :: bool
  dr_risk_hash :: string
  dr_min_surplus_wei :: string
  dr_opportunity_json :: Opportunity
  dr_simulation_json :: SimulationResult
  dr_risk_json :: RiskDecision
  dr_execution_request_json :: "ExecutionRequest option"

record AttemptRow =
  ar_id :: nat
  ar_observed_day :: nat
  ar_decision_run_id :: "nat option"
  ar_request_id :: string
  ar_status :: string
  ar_execution_mode :: string
  ar_submission_allowed :: bool
  ar_blocked_reason :: "string option"
  ar_requested_notional_wei :: string
  ar_tx_hash :: "string option"
  ar_submitted :: bool
  ar_finalized :: bool
  ar_inclusion_block_number :: "u64 option"
  ar_gas_limit :: "u64 option"
  ar_gas_used :: "u64 option"
  ar_max_fee_per_gas_wei :: "string option"
  ar_max_priority_fee_per_gas_wei :: "string option"
  ar_effective_gas_price_wei :: "string option"
  ar_l1_fee_paid_wei :: "string option"
  ar_total_fee_paid_wei :: "string option"
  ar_realized_surplus_wei :: "string option"
  ar_outcome_reason :: "string option"
  ar_last_error_stage :: "string option"
  ar_last_error :: "string option"
  ar_execution_request_json :: ExecutionRequest
  ar_attempt_json :: ExecutionAttempt
  ar_receipt_json :: "ExecutionReceipt option"
  ar_outcome_json :: "ExecutionOutcome option"

record db =
  db_logs :: "ObservedLogRow list"
  db_runs :: "DecisionRunRow list"
  db_attempts :: "AttemptRow list"
  db_next_log :: nat
  db_next_run :: nat
  db_next_attempt :: nat
  db_day :: nat
  db_queries :: nat
  db_fault :: "nat \<Rightarrow> bool"

type_synonym storage = "db option"

record serde =
  sj_block_context :: "BlockContext \<Rightarrow> string"
  sj_log :: "Log \<Rightarrow> string"

section \<open>Queries\<close>

text \<open>One statement: a fault is reported with the given context and changes no table.\<close>

definition query :: "string \<Rightarrow> (db \<Rightarrow> 'a \<times> db) \<Rightarrow> (db, string, 'a) act" where
  "query context f d =
    (if db_fault d (db_queries d) then (Err context, d\<lparr>db_queries := db_queries d + 1\<rparr>)
     else case f (d\<lparr>db_queries := db_queries d + 1\<rparr>) of (x, d') \<Rightarrow> (Ok x, d'))"

text \<open>The guard that opens every method: without a pool the answer is immediate.\<close>

definition with_pool :: "'a \<Rightarrow> (db, string, 'a) act \<Rightarrow> (storage, string, 'a) act" where
  "with_pool disabled m s =
    (case s of None \<Rightarrow> (Ok disabled, None) | Some d \<Rightarrow> (case m d of (r, d') \<Rightarrow> (r, Some d')))"

definition is_enabled :: "storage \<Rightarrow> bool" where
  "is_enabled s \<longleftrightarrow> s \<noteq> None"

text \<open>\<open>i64::try_from\<close> of an unsigned value.\<close>

definition fits_i64 :: "u64 \<Rightarrow> u64 option" where
  "fits_i64 n = (if unat n < 2 ^ 63 then Some n else None)"

fun status_snake :: "ExecutionStatus \<Rightarrow> string" where
  "status_snake Built = ''built''"
| "status_snake Submitted = ''submitted''"
| "status_snake Included = ''included''"
| "status_snake Reverted = ''reverted''"
| "status_snake Dropped = ''dropped''"
| "status_snake Replaced = ''replaced''"
| "status_snake ProfitRealized = ''profit_realized''"

text \<open>The JSON text of a status is its quoted snake-case name.\<close>

definition status_json :: "ExecutionStatus \<Rightarrow> string" where
  "status_json s = [CHR 0x22] @ status_snake s @ [CHR 0x22]"

text \<open>\<open>connect\<close>: \<open>opened\<close> is the database behind the URL, or the connection error;
  \<open>migrate\<close> applies the schema script.\<close>

definition storage_connect ::
  "(string \<Rightarrow> (string, db) res) \<Rightarrow> (db \<Rightarrow> (string, db) res) \<Rightarrow> StorageConfig \<Rightarrow> (string, storage) res" where
  "storage_connect opened migrate config =
    (case sc_database_url config of
       None \<Rightarrow> Ok None
     | Some url \<Rightarrow>
         attempt (map_err (\<lambda>_. ''failed to connect to postgres'') (opened url)) (\<lambda>d.
         attempt (if sc_auto_migrate config
             then map_err (\<lambda>_. ''failed to apply 00000000-00-init.sql'') (migrate d) else Ok d) (\<lambda>d.
         Ok (Some d))))"

definition le_bytes_u64 :: "u64 \<Rightarrow> string" where
  "le_bytes_u64 w = map (\<lambda>i. char_of (unat w div 256 ^ i mod 256)) [0..<8]"

definition opt_bytes :: "('a \<Rightarrow> string) \<Rightarrow> 'a option \<Rightarrow> string" where
  "opt_bytes f v = (case v of None \<Rightarrow> [] | Some x \<Rightarrow> f x)"

definition fingerprint_bytes :: "serde \<Rightarrow> Log \<Rightarrow> string" where
  "fingerprint_bytes sj lg =
    sj_block_context sj (md_block_context (log_metadata lg)) @
    le_bytes_u64 (md_chain_id (log_metadata lg)) @
    le_bytes_u64 (md_observed_at_ms (log_metadata lg)) @
    opt_bytes id (md_tx_hash (log_metadata lg)) @
    opt_bytes id (log_address lg) @
    opt_bytes id (log_event_signature lg) @
    opt_bytes le_bytes_u64 (log_log_index lg) @
    opt_bytes (\<lambda>b. [char_of (of_bool b :: nat)]) (log_removed lg) @
    sj_log sj lg"

definition observed_log_fingerprint :: "serde \<Rightarrow> (string \<Rightarrow> string) \<Rightarrow> Log \<Rightarrow> string" where
  "observed_log_fingerprint sj sha256_hex lg = sha256_hex (fingerprint_bytes sj lg)"

text \<open>\<open>INSERT .. ON CONFLICT (fingerprint) DO UPDATE\<close>: the existing row keeps its id.\<close>

definition upsert_log :: "(nat \<Rightarrow> ObservedLogRow) \<Rightarrow> db \<Rightarrow> nat \<times> db" where
  "upsert_log mk d =
    (let fresh = db_next_log d; fp = ol_fingerprint (mk fresh);
         d' = d\<lparr>db_next_log := fresh + 1\<rparr>
     in case find (\<lambda>r. ol_fingerprint r = fp) (db_logs d) of
       None \<Rightarrow> (fresh, d'\<lparr>db_logs := db_logs d @ [mk fresh]\<rparr>)
     | Some old \<Rightarrow>
         (ol_id old, d'\<lparr>db_logs := map (\<lambda>r. if ol_fingerprint r = fp then mk (ol_id r) else r) (db_logs d)\<rparr>))"

definition persist_observed_log ::
  "serde \<Rightarrow> (string \<Rightarrow> string) \<Rightarrow> Log \<Rightarrow> (storage, string, nat option) act" where
  "persist_observed_log sj sha256_hex lg =
    with_pool None (
      act_bind (lift (ok_or ''chain_id does not fit into i64'' (fits_i64 (md_chain_id (log_metadata lg))))) (\<lambda>chain.
      act_bind (query ''failed to persist observed log'' (upsert_log (\<lambda>i.
        \<lparr>ol_id = i, ol_fingerprint = observed_log_fingerprint sj sha256_hex lg,
         ol_tx_hash = md_tx_hash (log_metadata lg),
         ol_block_context = sj_block_context sj (md_block_context (log_metadata lg)),
         ol_chain_id = chain, ol_address = log_address lg, ol_event_signature = log_event_signature lg,
         ol_log_index = Option.bind (log_log_index lg) fits_i64, ol_removed = log_removed lg,
         ol_log_json = lg\<rparr>))) (\<lambda>i. ret (Some i))))"

definition insert_run :: "(nat \<Rightarrow> DecisionRunRow) \<Rightarrow> db \<Rightarrow> nat \<times> db" where
  "insert_run mk d =
    (db_next_run d, d\<lparr>db_runs := db_runs d @ [mk (db_next_run d)], db_next_run := db_next_run d + 1\<rparr>)"

definition persist_decision_run :: "serde \<Rightarrow> DecisionRunRecord \<Rightarrow> (storage, string, nat option) act" where
  "persist_decision_run sj rec =
    with_pool None (
      let opp = rr_opportunity rec; sim = rr_simulation rec; risk = rr_risk rec in
      act_bind (lift (ok_or ''gas estimate does not fit into i64'' (fits_i64 (sim_gas_estimate sim)))) (\<lambda>gas.
      act_bind (query ''failed to persist decision run'' (insert_run (\<lambda>i.
        \<lparr>dr_id = i, dr_observed_log_id = rr_observed_log_id rec, dr_opportunity_id = op_id opp,
         dr_trigger_tx_hash = rr_trigger_tx_hash rec,
         dr_block_context = sj_block_context sj (op_block_context opp),
         dr_settlement_token = op_settlement_token opp,
         dr_input_amount_wei = show_uint (op_input_amount opp),
         dr_expected_output_amount_wei = show_uint (op_expected_output_amount opp),
         dr_expected_net_profit_wei = show_uint (op_expected_net_profit opp),
         dr_simulated_gross_profit_wei = show_uint (sim_expected_gross_profit sim),
         dr_simulated_net_profit_wei = show_uint (sim_expected_net_profit sim),
         dr_gas_estimate = gas,
         dr_gas_cost_wei = show_uint (sim_gas_cost_wei sim),
         dr_l1_data_fee_wei = show_uint (sim_l1_data_fee sim),
         dr_risk_accepted = rd_accepted risk, dr_risk_hash = rd_risk_hash risk,
         dr_min_surplus_wei = show_uint (rd_min_surplus risk),
         dr_opportunity_json = opp, dr_simulation_json = sim, dr_risk_json = risk,
         dr_execution_request_json = rr_execution_request rec\<rparr>))) (\<lambda>i. ret (Some i))))"

definition attempt_row ::
  "nat \<Rightarrow> nat option \<Rightarrow> ExecutionAttempt \<Rightarrow> ExecutionRequest \<Rightarrow> nat \<Rightarrow> AttemptRow" where
  "attempt_row day run_id att request i =
    \<lparr>ar_id = i, ar_observed_day = day, ar_decision_run_id = run_id, ar_request_id = at_request_id att,
     ar_status = status_json (at_status att), ar_execution_mode = at_execution_mode att,
     ar_submission_allowed = at_submission_allowed att, ar_blocked_reason = at_blocked_reason att,
     ar_requested_notional_wei = show_uint (at_requested_notional att), ar_tx_hash = at_tx_hash att,
     ar_submitted = False, ar_finalized = False, ar_inclusion_block_number = None,
     ar_gas_limit = Option.bind (at_gas_limit att) fits_i64, ar_gas_used = None,
     ar_max_fee_per_gas_wei = map_option show_uint (at_max_fee_per_gas att),
     ar_max_priority_fee_per_gas_wei = map_option show_uint (at_max_priority_fee_per_gas att),
     ar_effective_gas_price_wei = None, ar_l1_fee_paid_wei = None, ar_total_fee_paid_wei = None,
     ar_realized_surplus_wei = None, ar_outcome_reason = None, ar_last_error_stage = None,
     ar_last_error = None, ar_execution_request_json = request, ar_attempt_json = att,
     ar_receipt_json = None, ar_outcome_json = None\<rparr>"

definition insert_attempt :: "(nat \<Rightarrow> nat \<Rightarrow> AttemptRow) \<Rightarrow> db \<Rightarrow> nat \<times> db" where
  "insert_attempt mk d =
    (db_next_attempt d,
     d\<lparr>db_attempts := db_attempts d @ [mk (db_day d) (db_next_attempt d)], db_next_attempt := db_next_attempt d + 1\<rparr>)"

definition persist_execution_attempt ::
  "nat option \<Rightarrow> ExecutionAttempt \<Rightarrow> ExecutionRequest \<Rightarrow> (storage, string, nat option) act" where
  "persist_execution_attempt run_id att request =
    with_pool None (
      act_bind (query ''failed to persist execution attempt''
        (insert_attempt (\<lambda>day. attempt_row day run_id att request))) (\<lambda>i. ret (Some i)))"

text \<open>\<open>UPDATE execution_attempts SET .. WHERE id = $1\<close> and the check of \<open>rows_affected\<close>.\<close>

definition update_attempt :: "nat \<Rightarrow> (AttemptRow \<Rightarrow> AttemptRow) \<Rightarrow> db \<Rightarrow> nat \<times> db" where
  "update_attempt i f d =
    (length (filter (\<lambda>r. ar_id r = i) (db_attempts d)),
     d\<lparr>db_attempts := map (\<lambda>r. if ar_id r = i then f r else r) (db_attempts d)\<rparr>)"

definition update_found ::
  "nat \<Rightarrow> (AttemptRow \<Rightarrow> AttemptRow) \<Rightarrow> string \<Rightarrow> string \<Rightarrow> (storage, string, unit) act" where
  "update_found i f context missing =
    with_pool () (
      act_bind (query context (update_attempt i f)) (\<lambda>n.
      lift (ensure (n \<noteq> 0) missing)))"

definition mark_execution_submitted :: "nat \<Rightarrow> ExecutionAttempt \<Rightarrow> (storage, string, unit) act" where
  "mark_execution_submitted i att =
    update_found i (\<lambda>r. r\<lparr>ar_status := status_json (at_status att), ar_tx_hash := at_tx_hash att,
        ar_submitted := True, ar_attempt_json := att\<rparr>)
      ''failed to mark execution attempt as submitted'' ''no execution attempt row found for submission update''"

definition finalize_execution_attempt ::
  "nat \<Rightarrow> ExecutionAttempt \<Rightarrow> ExecutionReceipt \<Rightarrow> ExecutionOutcome \<Rightarrow> (storage, string, unit) act" where
  "finalize_execution_attempt i att receipt outcome =
    update_found i (\<lambda>r. r\<lparr>ar_status := status_json (at_status att), ar_tx_hash := at_tx_hash att,
        ar_finalized := True,
        ar_inclusion_block_number := Option.bind (rc_block_number receipt) fits_i64,
        ar_gas_used := Option.bind (rc_gas_used receipt) fits_i64,
        ar_effective_gas_price_wei := map_option show_uint (rc_effective_gas_price receipt),
        ar_l1_fee_paid_wei := map_option show_uint (rc_l1_fee_paid receipt),
        ar_total_fee_paid_wei := map_option show_uint (oc_total_fee_paid outcome),
        ar_realized_surplus_wei := map_option show_uint (oc_realized_surplus outcome),
        ar_outcome_reason := oc_reason outcome, ar_last_error_stage := None, ar_last_error := None,
        ar_attempt_json := att, ar_receipt_json := Some receipt, ar_outcome_json := Some outcome\<rparr>)
      ''failed to finalize execution attempt'' ''no execution attempt row found for finalization update''"

definition finalize_execution_attempt_without_receipt ::
  "nat \<Rightarrow> ExecutionAttempt \<Rightarrow> ExecutionOutcome \<Rightarrow> (storage, string, unit) act" where
  "finalize_execution_attempt_without_receipt i att outcome =
    update_found i (\<lambda>r. r\<lparr>ar_status := status_json (at_status att), ar_tx_hash := at_tx_hash att,
        ar_finalized := True,
        ar_total_fee_paid_wei := map_option show_uint (oc_total_fee_paid outcome),
        ar_realized_surplus_wei := map_option show_uint (oc_realized_surplus outcome),
        ar_outcome_reason := oc_reason outcome, ar_last_error_stage := None, ar_last_error := None,
        ar_attempt_json := att, ar_outcome_json := Some outcome\<rparr>)
      ''failed to finalize execution attempt without receipt''
      ''no execution attempt row found for finalization update without receipt''"

definition record_execution_attempt_error :: "nat \<Rightarrow> string \<Rightarrow> string \<Rightarrow> (storage, string, unit) act" where
  "record_execution_attempt_error i stage error =
    update_found i (\<lambda>r. r\<lparr>ar_last_error_stage := Some stage, ar_last_error := Some error\<rparr>)
      ''failed to record execution attempt error'' ''no execution attempt row found for error update''"

text \<open>\<open>SUM(requested_notional_wei::numeric)\<close> over today's allowed attempts; a text that is
  not a number fails the query.\<close>

definition counted_today :: "db \<Rightarrow> AttemptRow list" where
  "counted_today d = filter (\<lambda>r. ar_submission_allowed r \<and> db_day d \<le> ar_observed_day r) (db_attempts d)"

fun sum_numeric :: "string list \<Rightarrow> nat option" where
  "sum_numeric [] = Some 0"
| "sum_numeric (t # ts) =
    Option.bind (digits_val 10 0 t) (\<lambda>n. Option.bind (sum_numeric ts) (\<lambda>m. Some (n + m)))"

definition todays_submittable_notional_wei :: "(storage, string, Amount) act" where
  "todays_submittable_notional_wei =
    with_pool 0 (
      act_bind (query ''failed to load current daily requested notional'' (\<lambda>d.
        (sum_numeric (map ar_requested_notional_wei (counted_today d)), d))) (\<lambda>total.
      act_bind (lift (ok_or ''failed to load current daily requested notional'' total)) (\<lambda>n.
      lift (ok_or (''failed to parse current daily requested notional `'' @ show_nat n @ ''` into u128'')
        (parse_uint (show_nat n))))))"


section \<open>Well-formed tables\<close>

definition row_notional :: "AttemptRow \<Rightarrow> nat" where
  "row_notional r = (case digits_val 10 0 (ar_requested_notional_wei r) of Some n \<Rightarrow> n | None \<Rightarrow> 0)"

definition row_numeric :: "AttemptRow \<Rightarrow> bool" where
  "row_numeric r \<longleftrightarrow> digits_val 10 0 (ar_requested_notional_wei r) \<noteq> None"

definition db_wf :: "db \<Rightarrow> bool" where
  "db_wf d \<longleftrightarrow> distinct (map ar_id (db_attempts d)) \<and>
    (\<forall>r \<in> set (db_attempts d). ar_id r < db_next_attempt d \<and> row_numeric r)"

text \<open>The notional of today's allowed attempts.\<close>

definition spent_today :: "db \<Rightarrow> nat" where
  "spent_today d = sum_list (map row_notional (counted_today d))"

lemma parse_uint_show_nat: "parse_uint (show_nat n) = word_of_nat_checked n"
proof -
  have "hd (show_nat n) \<noteq> CHR ''+''"
    using show_nat_digit_only[of "hd (show_nat n)" n] by (auto simp: hd_in_set)
  then show ?thesis by (simp add: from_str_radix_def digits_val_show_nat)
qed

lemma query_Ok:
  "query c f d = (Ok x, d') \<longleftrightarrow>
    \<not> db_fault d (db_queries d) \<and> f (d\<lparr>db_queries := db_queries d + 1\<rparr>) = (x, d')"
  by (auto simp: query_def split: prod.splits)

lemma query_Err: "query c f d = (Err e, d') \<Longrightarrow> d' = d\<lparr>db_queries := db_queries d + 1\<rparr>"
  by (auto simp: query_def split: prod.splits if_splits)

lemma query_not_Panic: "query c f d \<noteq> (Panic, d')"
  by (auto simp: query_def split: prod.splits)

lemma db_wf_queries [simp]: "db_wf (d\<lparr>db_queries := n\<rparr>) = db_wf d"
  by (simp add: db_wf_def)

lemma counted_today_queries [simp]: "counted_today (d\<lparr>db_queries := n\<rparr>) = counted_today d"
  by (simp add: counted_today_def)

lemma spent_today_queries [simp]: "spent_today (d\<lparr>db_queries := n\<rparr>) = spent_today d"
  by (simp add: spent_today_def)

lemma sum_numeric_rows:
  "\<forall>r \<in> set rs. row_numeric r \<Longrightarrow>
    sum_numeric (map ar_requested_notional_wei rs) = Some (sum_list (map row_notional rs))"
  by (induction rs) (auto simp: row_numeric_def row_notional_def)

lemma attempt_row_notional [simp]:
  "row_notional (attempt_row day run_id att request i) = unat (at_requested_notional att)"
  "row_numeric (attempt_row day run_id att request i)"
  by (simp_all add: row_notional_def row_numeric_def attempt_row_def show_uint_def digits_val_show_nat)

lemma todays_exact:
  assumes "db_wf d" "todays_submittable_notional_wei (Some d) = (Ok a, s)"
  shows "unat a = spent_today d" "s = Some (d\<lparr>db_queries := db_queries d + 1\<rparr>)"
proof -
  have "\<forall>r \<in> set (counted_today d). row_numeric r"
    using assms(1) by (auto simp: db_wf_def counted_today_def)
  then have "sum_numeric (map ar_requested_notional_wei (counted_today d)) = Some (spent_today d)"
    by (simp add: sum_numeric_rows spent_today_def)
  with assms(2) show "unat a = spent_today d" "s = Some (d\<lparr>db_queries := db_queries d + 1\<rparr>)"
    by (auto simp: todays_submittable_notional_wei_def with_pool_def act_simps query_Ok res_simps
        parse_uint_show_nat int_simps split: prod.splits)
qed

lemma insert_attempt_wf:
  assumes "db_wf d"
  shows "db_wf (snd (insert_attempt (\<lambda>day. attempt_row day run_id att request) d))"
  using assms by (fastforce simp: insert_attempt_def db_wf_def attempt_row_def row_numeric_def show_uint_def digits_val_show_nat)

lemma insert_attempt_spent:
  "spent_today (snd (insert_attempt (\<lambda>day. attempt_row day run_id att request) d)) =
    spent_today d + (if at_submission_allowed att then unat (at_requested_notional att) else 0)"
proof -
  have "ar_submission_allowed (attempt_row day run_id att request i) = at_submission_allowed att"
    "ar_observed_day (attempt_row day run_id att request i) = day" for day i
    by (simp_all add: attempt_row_def)
  then show ?thesis by (simp add: insert_attempt_def spent_today_def counted_today_def)
qed

text \<open>An update of one row never changes what the daily sum counts.\<close>

definition harmless :: "(AttemptRow \<Rightarrow> AttemptRow) \<Rightarrow> bool" where
  "harmless f \<longleftrightarrow> (\<forall>r. ar_id (f r) = ar_id r \<and> ar_submission_allowed (f r) = ar_submission_allowed r \<and>
    ar_observed_day (f r) = ar_observed_day r \<and> ar_requested_notional_wei (f r) = ar_requested_notional_wei r)"

lemma harmless_map:
  assumes "harmless f"
  shows "map row_notional (filter (\<lambda>r. ar_submission_allowed r \<and> n \<le> ar_observed_day r)
      (map (\<lambda>r. if ar_id r = i then f r else r) rs)) =
    map row_notional (filter (\<lambda>r. ar_submission_allowed r \<and> n \<le> ar_observed_day r) rs)"
    and "map ar_id (map (\<lambda>r. if ar_id r = i then f r else r) rs) = map ar_id rs"
  using assms by (induction rs) (auto simp: harmless_def row_notional_def)

lemma update_attempt_spent: "harmless f \<Longrightarrow> spent_today (snd (update_attempt i f d)) = spent_today d"
  by (simp add: update_attempt_def spent_today_def counted_today_def harmless_map(1))

lemma update_attempt_wf:
  assumes "harmless f" "db_wf d"
  shows "db_wf (snd (update_attempt i f d))"
proof -
  have "distinct (map ar_id (map (\<lambda>r. if ar_id r = i then f r else r) (db_attempts d)))"
    using assms(2) unfolding harmless_map(2)[OF assms(1)] by (simp add: db_wf_def)
  with assms show ?thesis
    by (auto simp: update_attempt_def db_wf_def harmless_def row_numeric_def simp del: map_map)
qed


section \<open>The store as the decision loop sees it\<close>

lemma persist_attempt_some:
  assumes "persist_execution_attempt run_id att request (Some d) = (r, s)"
  obtains (stored) "s = Some (snd (insert_attempt (\<lambda>day. attempt_row day run_id att request)
        (d\<lparr>db_queries := db_queries d + 1\<rparr>)))" "r = Ok (Some (db_next_attempt d))"
    | (failed) "s = Some (d\<lparr>db_queries := db_queries d + 1\<rparr>)" "\<exists>e. r = Err e"
  using assms
  by (cases "db_fault d (db_queries d)")
    (auto simp: persist_execution_attempt_def with_pool_def act_bind_def query_def insert_attempt_def ret_def
      split: prod.splits)

lemma update_found_some:
  assumes "update_found i f context missing (Some d) = (r, s)"
  obtains (updated) "s = Some (snd (update_attempt i f (d\<lparr>db_queries := db_queries d + 1\<rparr>)))"
      "r = (if i \<in> ar_id ` set (db_attempts d) then Ok () else Err missing)"
    | (failed) "s = Some (d\<lparr>db_queries := db_queries d + 1\<rparr>)" "r = Err context"
proof (cases "db_fault d (db_queries d)")
  case True
  with assms show thesis
    by (intro failed) (auto simp: update_found_def with_pool_def act_bind_def query_def)
next
  case False
  have "filter (\<lambda>r. ar_id r = i) (db_attempts d) \<noteq> [] \<longleftrightarrow> i \<in> ar_id ` set (db_attempts d)"
    by (auto simp: filter_empty_conv)
  with False assms show thesis
    by (intro updated) (auto simp: update_found_def with_pool_def act_bind_def query_def update_attempt_def
        lift_def ensure_def)
qed

lemma updates_harmless:
  "harmless (\<lambda>r. r\<lparr>ar_status := a, ar_tx_hash := b, ar_submitted := c, ar_attempt_json := e\<rparr>)"
  "harmless (\<lambda>r. r\<lparr>ar_last_error_stage := g, ar_last_error := h\<rparr>)"
  by (simp_all add: harmless_def)

definition store_wf :: "storage \<Rightarrow> bool" where
  "store_wf s \<longleftrightarrow> (\<exists>d. s = Some d \<and> db_wf d)"

definition store_spent :: "storage \<Rightarrow> nat" where
  "store_spent s = (case s of Some d \<Rightarrow> spent_today d | None \<Rightarrow> 0)"

text \<open>A store that accounts for the notional of allowed attempts: what it reports is what
  was persisted, and persisting is the only way the account grows.\<close>

locale exposure_store =
  fixes wf :: "'s \<Rightarrow> bool" and spent :: "'s \<Rightarrow> nat"
    and todays :: "('s, string, Amount) act"
    and persist :: "nat option \<Rightarrow> ExecutionAttempt \<Rightarrow> ExecutionRequest \<Rightarrow> ('s, string, nat option) act"
  assumes todays_reads: "wf s \<Longrightarrow> todays s = (r, s') \<Longrightarrow> wf s' \<and> spent s' = spent s \<and> (\<forall>a. r = Ok a \<longrightarrow> unat a = spent s)"
    and persist_adds: "wf s \<Longrightarrow> persist run_id att request s = (v, s') \<Longrightarrow> wf s' \<and>
      spent s' = spent s + (if is_ok v \<and> at_submission_allowed att then unat (at_requested_notional att) else 0)"
begin

text \<open>Reading after persisting sees exactly the notional just added.\<close>

lemma persist_then_todays:
  assumes "wf s" "persist run_id att request s = (Ok x, s1)" "todays s1 = (Ok a, s2)"
  shows "unat a = spent s + (if at_submission_allowed att then unat (at_requested_notional att) else 0)"
  using persist_adds[OF assms(1,2)] todays_reads[OF _ assms(3)] by simp

end

interpretation pg: exposure_store store_wf store_spent todays_submittable_notional_wei persist_execution_attempt
proof
  fix s r s' assume "store_wf s" and t: "todays_submittable_notional_wei s = (r, s')"
  then obtain d where d: "s = Some d" "db_wf d" by (auto simp: store_wf_def)
  have "s' = Some (d\<lparr>db_queries := db_queries d + 1\<rparr>)"
    using t d by (auto simp: todays_submittable_notional_wei_def with_pool_def act_bind_def query_def lift_def
        split: prod.splits res.splits if_splits)
  then show "store_wf s' \<and> store_spent s' = store_spent s \<and> (\<forall>a. r = Ok a \<longrightarrow> unat a = store_spent s)"
    using d t todays_exact(1)[OF d(2)] by (auto simp: store_wf_def store_spent_def)
next
  fix s run_id att request r s'
  assume "store_wf s" and p: "persist_execution_attempt run_id att request s = (r, s')"
  then obtain d where d: "s = Some d" "db_wf d" by (auto simp: store_wf_def)
  from p[unfolded d(1)] show "store_wf s' \<and> store_spent s' = store_spent s +
      (if is_ok r \<and> at_submission_allowed att then unat (at_requested_notional att) else 0)"
  proof (cases rule: persist_attempt_some)
    case stored
    with d show ?thesis
      using insert_attempt_wf[of "d\<lparr>db_queries := db_queries d + 1\<rparr>" run_id att request]
        insert_attempt_spent[of run_id att request "d\<lparr>db_queries := db_queries d + 1\<rparr>"]
      by (simp add: store_wf_def store_spent_def)
  qed (auto simp: d store_wf_def store_spent_def)
qed

text \<open>The daily exposure read back from the database is exact: after an attempt is stored, the sum
  reported for today is what it was plus the attempt's notional when submission was allowed,
  and unchanged when it was not.\<close>

theorem daily_exposure_exact:
  assumes "db_wf d" "persist_execution_attempt run_id att request (Some d) = (Ok x, s1)"
    and "todays_submittable_notional_wei s1 = (Ok a, s2)"
  shows "unat a = spent_today d + (if at_submission_allowed att then unat (at_requested_notional att) else 0)"
  using pg.persist_then_todays[OF _ assms(2,3)] assms(1) by (simp add: store_wf_def store_spent_def)

definition empty_db :: db where
  "empty_db = \<lparr>db_logs = [], db_runs = [], db_attempts = [], db_next_log = 1, db_next_run = 1,
    db_next_attempt = 1, db_day = 20, db_queries = 0, db_fault = (\<lambda>_. False)\<rparr>"


definition stored_attempt :: ExecutionAttempt where
  "stored_attempt =
    \<lparr>at_request_id = ''op'', at_tx_hash = None, at_status = Built, at_execution_mode = ''canary'',
     at_submission_allowed = True, at_blocked_reason = None, at_requested_notional = 900,
     at_gas_limit = Some 120000, at_max_fee_per_gas = None, at_max_priority_fee_per_gas = None\<rparr>"

definition stored_request :: ExecutionRequest where
  "stored_request =
    \<lparr>rq_opportunity_id = ''op'', rq_steps = [], rq_min_repay = 900, rq_min_surplus = 10,
     rq_flashloan_asset = None, rq_flashloan_amount = Some 900, rq_risk_hash = ''00''\<rparr>"

lemma stored_sample:
  "\<exists>d. persist_execution_attempt None stored_attempt stored_request (Some empty_db) = (Ok (Some 1), Some d) \<and>
    todays_submittable_notional_wei (Some d) = (Ok 900, Some (d\<lparr>db_queries := 2\<rparr>))"
  by (simp add: persist_execution_attempt_def with_pool_def act_bind_def query_def insert_attempt_def ret_def
      empty_db_def stored_attempt_def attempt_row_def todays_submittable_notional_wei_def lift_def
      counted_today_def show_uint_def digits_val_show_nat parse_uint_show_nat word_of_nat_checked_def)

theorem daily_exposure_exact_witness:
  "db_wf empty_db \<and> (\<exists>s1 s2. persist_execution_attempt None stored_attempt stored_request (Some empty_db) = (Ok (Some 1), s1) \<and>
    todays_submittable_notional_wei s1 = (Ok 900, s2) \<and> unat (900 :: Amount) = spent_today empty_db + 900)"
proof -
  have wf: "db_wf empty_db" by (simp add: db_wf_def empty_db_def)
  obtain d where d: "persist_execution_attempt None stored_attempt stored_request (Some empty_db) = (Ok (Some 1), Some d)"
    "todays_submittable_notional_wei (Some d) = (Ok 900, Some (d\<lparr>db_queries := 2\<rparr>))"
    using stored_sample by blast
  from daily_exposure_exact[OF wf d] wf d show ?thesis by (auto simp: stored_attempt_def)
qed

end
