(* ===== verification/App.thy ===== *)
theory App
  imports Risk Submit Storage
begin

text \<open>
  The engine binary (\<open>src/crates/app/src/main.rs\<close>).  The engine's state is the pool
  book, the risk engine's state, the storage, and \<open>'w\<close>, everything behind the execution
  transport.  \<open>runtime\<close> holds what start-up fixes (configuration, policy, transport) and the
  external functions; \<open>instants\<close> holds the clock readings and the kill-switch file probe of
  one event.  Logging and metrics have no effect on the state and are left out, except
  for the arithmetic of the realised profit, which can panic.
\<close>

record BootstrapV2Pool =
  bp_address :: string
  bp_protocol :: Protocol
  bp_exchange :: "Exchange option"
  bp_token0 :: string
  bp_token1 :: string
  bp_reserve0 :: Amount
  bp_reserve1 :: Amount
  bp_fee_bps :: u32

record RuntimeScanConfig =
  sn_settlement_token :: string
  sn_amount_in :: Amount
  sn_simulation :: SimulationConfig

record DecisionPipelineOutput =
  po_observed_log_id :: "nat option"
  po_opportunity :: Opportunity
  po_simulation :: SimulationResult

record 'w runtime =
  ru_execution :: ExecutionConfig
  ru_policy :: RiskPolicy
  ru_scan :: "RuntimeScanConfig option"
  ru_transport :: "'w transport"
  ru_alloy :: alloy
  ru_serde :: serde
  ru_sha256 :: "string \<Rightarrow> string"
  ru_parse_u256 :: "string \<Rightarrow> U256 option"

record instants =
  in_risk :: u64
  in_simulate :: "u64 option"
  in_drive :: "u64 option"
  in_file_exists :: "string \<Rightarrow> bool"

record 'w engine =
  en_book :: PoolBook
  en_risk :: RiskState
  en_store :: storage
  en_net :: 'w

fun market_error_text :: "MarketError \<Rightarrow> string" where
  "market_error_text (InvalidPool why) = ''invalid pool: '' @ why"
| "market_error_text (UnknownToken pool token) = ''token `'' @ token @ ''` is not part of pool `'' @ pool @ ''`''"
| "market_error_text InsufficientInput = ''input amount must be greater than zero''"
| "market_error_text InsufficientLiquidity = ''pool cannot produce a non-zero output for the requested input''"
| "market_error_text ArithmeticOverflow = ''arithmetic overflow while quoting pool''"
| "market_error_text (MissingDecodedField field) = ''decoded log event missing required field `'' @ field @ ''`''"
| "market_error_text MissingLogIdentity =
    ''log is missing tx hash or log index required for deterministic state application''"
| "market_error_text (MissingRevertSnapshot tx index) =
    ''no revert snapshot found for removed log '' @ tx @ '':'' @ show_uint index"

section \<open>Start-up\<close>

text \<open>\<open>read\<close> is the file system together with the JSON parser: it fails at reading or at
  parsing, or yields the entries.\<close>

datatype file_error = Unreadable | Unparsable

definition load_pool_book ::
  "(string \<Rightarrow> (file_error, BootstrapV2Pool list) res) \<Rightarrow> DecisionConfig \<Rightarrow> (string, PoolBook) res" where
  "load_pool_book read config =
    (case dc_v2_bootstrap_path config of
       None \<Rightarrow> Ok book_new
     | Some path \<Rightarrow>
         attempt (map_err (\<lambda>e. case e of
             Unreadable \<Rightarrow> ''failed to read bootstrap pool file `'' @ path @ ''`''
           | Unparsable \<Rightarrow> ''failed to parse bootstrap pool file `'' @ path @ ''`'') (read path)) (\<lambda>entries.
         fold_res (\<lambda>entry book.
           attempt (map_err market_error_text (v2_new (bp_address entry) (bp_protocol entry) (bp_exchange entry)
               (bp_token0 entry) (bp_token1 entry) (bp_reserve0 entry) (bp_reserve1 entry) (bp_fee_bps entry)))
             (\<lambda>pool. Ok (insert_v2_pool pool book))) entries book_new))"

definition runtime_scan_config :: "DecisionConfig \<Rightarrow> (string, RuntimeScanConfig option) res" where
  "runtime_scan_config config =
    (case (dc_settlement_token config, dc_scan_trade_amount_wei config) of
       (Some settlement_token, Some amount) \<Rightarrow>
         attempt (ok_or ''failed to parse DECISION_SCAN_TRADE_AMOUNT_WEI'' (parse_uint amount)) (\<lambda>amount_in.
         attempt (simulation_from_config config) (\<lambda>simulation.
         Ok (Some \<lparr>sn_settlement_token = settlement_token, sn_amount_in = amount_in, sn_simulation = simulation\<rparr>)))
     | _ \<Rightarrow> Ok None)"

fun mode_debug :: "ExecutionMode \<Rightarrow> string" where
  "mode_debug Shadow = ''Shadow''"
| "mode_debug Canary = ''Canary''"
| "mode_debug Live = ''Live''"

text \<open>What start-up learns from outside: the endpoint's chain id and pending count, URL and
  HTTP client checks, and the key functions.\<close>

record ('key, 'p) outside =
  os_url_ok :: "string \<Rightarrow> bool"
  os_client_ok :: bool
  os_chain_id :: "(string, u64) res"
  os_pending_count :: "(string, u64) res"
  os_from_bytes :: "u8 list \<Rightarrow> 'key option"
  os_decrypt :: "string \<Rightarrow> string \<Rightarrow> 'key option"
  os_address :: "'key \<Rightarrow> bytes"
  os_sign :: "'key \<Rightarrow> u64 option \<Rightarrow> TxEip1559 \<Rightarrow> (string, bytes) res"
  os_node :: "string \<Rightarrow> 'p node"

datatype 'p chosen_transport =
    Placeholder string
  | Alloy_Backed "'p AlloySubmitTransport" NonceState

definition build_execution_transport ::
  "alloy \<Rightarrow> ('key, 'p) outside \<Rightarrow> RpcTopology \<Rightarrow> ExecutionConfig \<Rightarrow> SignerConfig \<Rightarrow> (string, 'p chosen_transport) res" where
  "build_execution_transport al ext topology execution signer_config =
    (if ex_mode execution = Shadow then Ok (Placeholder ''shadow mode: submission disabled by configuration'')
     else
       attempt (ensure (first_http topology \<noteq> None)
         (''execution mode `'' @ mode_debug (ex_mode execution) @
          ''` requires a HTTP RPC endpoint; set INGEST_HTTP_URL or its alias'')) (\<lambda>_.
       attempt (map_err (\<lambda>_. ''failed to connect HTTP rpc provider'')
         (connect_http (os_url_ok ext) (os_client_ok ext) topology)) (\<lambda>provider.
       attempt (map_err (\<lambda>_. ''rpc chain id verification failed during bootstrap'')
         (verify_chain_id provider (os_chain_id ext))) (\<lambda>_.
       attempt (map_err (\<lambda>_. ''failed to load signer for execution transport'')
         (load_signer (os_from_bytes ext) (os_decrypt ext) signer_config (tp_chain_id topology))) (\<lambda>signer.
       case sync_from_chain (os_pending_count ext) nonce_new of
         (Ok _, nonce) \<Rightarrow>
           attempt (map_err (\<lambda>_. ''invalid gas cap configuration'') (gas_caps_from_config execution)) (\<lambda>caps.
           Ok (Alloy_Backed (alloy_transport_new al (os_node ext (ep_url provider)) (ep_chain_id provider)
             (os_address ext (es_key signer)) (os_sign ext (es_key signer) (es_chain_id signer)) caps) nonce))
       | (Err _, _) \<Rightarrow> Err ''failed to initialise signer nonce from chain''
       | (Panic, _) \<Rightarrow> Panic)))))"

section \<open>Parts of the engine state\<close>

definition on_store :: "(storage, 'e, 'a) act \<Rightarrow> ('w engine, 'e, 'a) act" where
  "on_store = act_zoom en_store (\<lambda>s w. w\<lparr>en_store := s\<rparr>)"

definition on_net :: "('w, 'e, 'a) act \<Rightarrow> ('w engine, 'e, 'a) act" where
  "on_net = act_zoom en_net (\<lambda>n w. w\<lparr>en_net := n\<rparr>)"

definition note_outcome :: "bool \<Rightarrow> ('w engine, 'e, unit) act" where
  "note_outcome success = act_modify (\<lambda>w. w\<lparr>en_risk := record_outcome success (en_risk w)\<rparr>)"

text \<open>\<open>if let Some(id) = execution_attempt_id { storage.call(id).await?; }\<close>\<close>

definition for_row :: "nat option \<Rightarrow> (nat \<Rightarrow> (storage, string, unit) act) \<Rightarrow> ('w engine, string, unit) act" where
  "for_row row f = (case row of None \<Rightarrow> ret () | Some i \<Rightarrow> on_store (f i))"

section \<open>One log\<close>

definition scan_book ::
  "'w runtime \<Rightarrow> Log \<Rightarrow> nat option \<Rightarrow> PoolBook \<Rightarrow> (string, DecisionPipelineOutput option) res" where
  "scan_book rt l log_id book =
    (case ru_scan rt of
       None \<Rightarrow> Ok None
     | Some scan \<Rightarrow>
         attempt (map_err market_error_text (detect_two_leg_loops_from_book book
           (md_block_context (log_metadata l)) (sn_settlement_token scan) (sn_amount_in scan)
           (md_tx_hash (log_metadata l)))) (\<lambda>opportunities.
         case opportunities of
           [] \<Rightarrow> Ok None
         | best # _ \<Rightarrow>
             (case simulate_two_leg_opportunity best (sn_simulation scan) of
                None \<Rightarrow> Ok None
              | Some simulation \<Rightarrow>
                  Ok (Some \<lparr>po_observed_log_id = log_id, po_opportunity = best, po_simulation = simulation\<rparr>))))"

definition handle_event :: "'w runtime \<Rightarrow> Event \<Rightarrow> ('w engine, string, DecisionPipelineOutput option) act" where
  "handle_event rt event =
    (case event of
       Event_Log l \<Rightarrow>
         act_bind (act_err (\<lambda>_. ''failed to persist observed log'')
           (on_store (persist_observed_log (ru_serde rt) (\<lambda>s. concat (map hex_byte (ru_sha256 rt s))) l))) (\<lambda>log_id.
         act_bind (\<lambda>w. case book_apply_log (ru_parse_u256 rt) l (en_book w) of
             (book, r) \<Rightarrow> (map_err market_error_text r, w\<lparr>en_book := book\<rparr>)) (\<lambda>outcome.
         if outcome = Ignored then ret None
         else (\<lambda>w. (scan_book rt l log_id (en_book w), w))))
     | _ \<Rightarrow> ret None)"

section \<open>Driving an attempt\<close>

definition run_ethcall_simulation ::
  "'w runtime \<Rightarrow> SubmissionPayload \<Rightarrow> ExecutionAttempt \<Rightarrow> ('w, string, EthCallSimulation) act" where
  "run_ethcall_simulation rt payload att =
    (let secs = ex_ethcall_timeout_secs (ru_execution rt) in
     under_timer (tr_simulate (ru_transport rt) payload att secs)
       (''eth_call simulation timed out after '' @ show_uint secs @ ''s''))"

text \<open>The number handed to the profit metric, as a signed 128-bit integer: \<open>value as i128\<close> keeps the bits,
  and the negation wraps at the smallest value.\<close>

definition realized_pnl :: "Amount \<Rightarrow> Amount option \<Rightarrow> 128 word" where
  "realized_pnl fee_paid realized_surplus =
    (case realized_surplus of Some surplus \<Rightarrow> surplus | None \<Rightarrow> - fee_paid)"

definition conclude_receipt ::
  "ExecutionRequest \<Rightarrow> ExecutionAttempt \<Rightarrow> nat option \<Rightarrow> ExecutionReceipt \<Rightarrow> ('w engine, string, unit) act" where
  "conclude_receipt request submitted row receipt =
    act_bind (lift (map_err (\<lambda>_. ''failed to finalize execution receipt'')
      (finalize_from_receipt submitted receipt None (rq_min_surplus request)))) (\<lambda>finalized.
    let outcome = fe_outcome finalized in
    act_bind (note_outcome (oc_final_status outcome = Included \<or> oc_final_status outcome = ProfitRealized)) (\<lambda>_.
    for_row row (\<lambda>i. finalize_execution_attempt i (fe_attempt finalized) receipt outcome)))"

definition conclude_dropped ::
  "ExecutionAttempt \<Rightarrow> nat option \<Rightarrow> ('w engine, string, unit) act" where
  "conclude_dropped submitted row =
    act_bind (lift (map_err (\<lambda>_. ''failed to mark execution attempt as dropped'')
      (mark_dropped submitted receipt_timeout_reason))) (\<lambda>dropped.
    act_bind (note_outcome False) (\<lambda>_.
    for_row row (\<lambda>i. finalize_execution_attempt_without_receipt i (fe_attempt dropped) (fe_outcome dropped))))"

definition drive_submitted ::
  "'w runtime \<Rightarrow> ExecutionRequest \<Rightarrow> ExecutionAttempt \<Rightarrow> nat option \<Rightarrow> string \<Rightarrow> ('w engine, string, unit) act" where
  "drive_submitted rt request built row tx_hash =
    act_bind (lift (map_err (\<lambda>_. ''invalid submitted attempt'') (mark_submitted built tx_hash))) (\<lambda>submitted.
    act_bind (for_row row (\<lambda>i. mark_execution_submitted i submitted)) (\<lambda>_.
    act_match (on_net (tr_await_receipt (ru_transport rt) request submitted (ex_receipt_timeout_secs (ru_execution rt))))
      (\<lambda>maybe_receipt. case maybe_receipt of
         Some receipt \<Rightarrow> conclude_receipt request submitted row receipt
       | None \<Rightarrow> conclude_dropped submitted row)
      (\<lambda>error. for_row row (\<lambda>i. record_execution_attempt_error i ''receipt_wait'' error))))"

text \<open>\<open>submit\<close> under the timer has three answers: a hash, an error, or the timer.\<close>

datatype submit_answer = Sent string | Refused string | Late

definition ask_submit ::
  "'w runtime \<Rightarrow> SubmissionPayload \<Rightarrow> ExecutionAttempt \<Rightarrow> ('w, string, submit_answer) act" where
  "ask_submit rt payload att w =
    (case tr_submit (ru_transport rt) payload att (ex_submit_timeout_secs (ru_execution rt)) w of
       (Some (Ok h), w') \<Rightarrow> (Ok (Sent h), w')
     | (Some (Err e), w') \<Rightarrow> (Ok (Refused e), w')
     | (Some Panic, w') \<Rightarrow> (Panic, w')
     | (None, w') \<Rightarrow> (Ok Late, w'))"

definition drive_execution_attempt ::
  "'w runtime \<Rightarrow> instants \<Rightarrow> ExecutionRequest \<Rightarrow> ExecutionAttempt \<Rightarrow> nat option \<Rightarrow> ('w engine, string, unit) act" where
  "drive_execution_attempt rt at_time request built row =
    act_match (lift (build_submission_payload (ru_alloy rt) (ru_execution rt) request (in_drive at_time)))
      (\<lambda>payload.
        act_bind (on_net (ask_submit rt payload built)) (\<lambda>answer. case answer of
          Sent tx_hash \<Rightarrow> drive_submitted rt request built row tx_hash
        | Refused error \<Rightarrow>
            act_bind (note_outcome False) (\<lambda>_.
            for_row row (\<lambda>i. record_execution_attempt_error i ''submit'' error))
        | Late \<Rightarrow>
            act_bind (note_outcome False) (\<lambda>_.
            for_row row (\<lambda>i. record_execution_attempt_error i ''submit_timeout'' ''deadline has elapsed''))))
      (\<lambda>error. for_row row (\<lambda>i. record_execution_attempt_error i ''build'' error))"

section \<open>From decision to execution\<close>

definition prepare_from_store ::
  "'w runtime \<Rightarrow> SimulationResult \<Rightarrow> ExecutionRequest option \<Rightarrow> (storage, string, PreparedExecution option) act" where
  "prepare_from_store rt simulation execution_request =
    (case execution_request of
       None \<Rightarrow> ret None
     | Some request \<Rightarrow>
         act_bind (act_err (\<lambda>_. ''failed to load current daily execution exposure'') todays_submittable_notional_wei) (\<lambda>daily.
         act_bind (lift (map_err (\<lambda>_. ''failed to prepare execution attempt'')
           (prepare_execution (ru_execution rt) request simulation daily))) (\<lambda>prepared. ret (Some prepared))))"

definition validate_and_drive ::
  "'w runtime \<Rightarrow> instants \<Rightarrow> ExecutionRequest \<Rightarrow> PreparedExecution \<Rightarrow> nat option \<Rightarrow> ('w engine, string, unit) act" where
  "validate_and_drive rt at_time request prepared row =
    act_bind (lift (map_err (\<lambda>_. ''failed to build submission payload for eth_call simulation'')
      (build_submission_payload (ru_alloy rt) (ru_execution rt) request (in_simulate at_time)))) (\<lambda>payload.
    let drive = act_err (\<lambda>_. ''failed to drive execution attempt lifecycle'')
      (drive_execution_attempt rt at_time request (pe_attempt prepared) row) in
    act_match (on_net (run_ethcall_simulation rt payload (pe_attempt prepared)))
      (\<lambda>_. drive)
      (\<lambda>error.
        if ex_ethcall_preflight_required (ru_execution rt) then
          act_bind (note_outcome False) (\<lambda>_.
          for_row row (\<lambda>i. record_execution_attempt_error i ''ethcall_simulate'' error))
        else drive))"

definition assess_output ::
  "'w runtime \<Rightarrow> instants \<Rightarrow> DecisionPipelineOutput \<Rightarrow> ('w engine, string, RiskDecision) act" where
  "assess_output rt at_time output w =
    (case assess (ru_sha256 rt) (ru_policy rt) (in_file_exists at_time) (in_risk at_time) (po_opportunity output)
        (po_simulation output) (en_risk w) of (risk, s) \<Rightarrow> (Ok risk, w\<lparr>en_risk := s\<rparr>))"

definition execute_prepared ::
  "'w runtime \<Rightarrow> instants \<Rightarrow> ExecutionRequest \<Rightarrow> PreparedExecution \<Rightarrow> nat option \<Rightarrow> ('w engine, string, unit) act" where
  "execute_prepared rt at_time q p run_id =
    act_bind (on_store (persist_execution_attempt run_id (pe_attempt p) q)) (\<lambda>row.
    if pe_should_submit p then validate_and_drive rt at_time q p row else ret ())"

definition act_on_decision ::
  "'w runtime \<Rightarrow> instants \<Rightarrow> DecisionPipelineOutput \<Rightarrow> RiskDecision \<Rightarrow> ('w engine, string, unit) act" where
  "act_on_decision rt at_time out risk =
    (let request = build_execution_request (po_opportunity out) risk in
     act_bind (on_store (prepare_from_store rt (po_simulation out) request)) (\<lambda>prepared.
     act_bind (on_store (persist_decision_run (ru_serde rt)
       \<lparr>rr_observed_log_id = po_observed_log_id out,
        rr_trigger_tx_hash = op_trigger_tx_hash (po_opportunity out),
        rr_opportunity = po_opportunity out, rr_simulation = po_simulation out, rr_risk = risk,
        rr_execution_request = request\<rparr>)) (\<lambda>run_id.
     case (request, prepared) of
       (Some q, Some p) \<Rightarrow> execute_prepared rt at_time q p run_id
     | _ \<Rightarrow> ret ())))"

definition maybe_log_decision_output ::
  "'w runtime \<Rightarrow> instants \<Rightarrow> DecisionPipelineOutput option \<Rightarrow> ('w engine, string, unit) act" where
  "maybe_log_decision_output rt at_time maybe_output =
    (case maybe_output of
       None \<Rightarrow> ret ()
     | Some out \<Rightarrow> act_bind (assess_output rt at_time out) (act_on_decision rt at_time out))"

section \<open>The main loop\<close>

definition engine_step :: "'w runtime \<Rightarrow> instants \<Rightarrow> Event \<Rightarrow> ('w engine, string, unit) act" where
  "engine_step rt at_time event =
    act_bind (act_err (\<lambda>_. ''failed to handle ingest event'') (handle_event rt event)) (\<lambda>output.
    act_err (\<lambda>_. ''failed to persist decision output'') (maybe_log_decision_output rt at_time output))"

text \<open>What the loop wakes up on, in the order it is received.\<close>

datatype wakeup =
    Got_Event instants Event
  | Events_Closed
  | Got_Runtime_Event RuntimeEvent
  | Runtime_Closed
  | Ctrl_C "(string, unit) res"

text \<open>The reason the loop ends with; \<open>None\<close> while the received wake-ups are exhausted.\<close>

fun main_loop :: "'w runtime \<Rightarrow> wakeup list \<Rightarrow> ('w engine, string, string option) act" where
  "main_loop rt [] = ret None"
| "main_loop rt (Got_Event at_time event # rest) = act_bind (engine_step rt at_time event) (\<lambda>_. main_loop rt rest)"
| "main_loop rt (Events_Closed # rest) = ret (Some ''event channel closed'')"
| "main_loop rt (Got_Runtime_Event e # rest) = main_loop rt rest"
| "main_loop rt (Runtime_Closed # rest) = ret (Some ''runtime event channel closed'')"
| "main_loop rt (Ctrl_C signal # rest) =
    act_bind (lift (map_err (\<lambda>_. ''failed to listen for ctrl-c'') signal)) (\<lambda>_. ret (Some ''received ctrl-c''))"

fun execution_status_label :: "ExecutionStatus \<Rightarrow> string" where
  "execution_status_label Built = ''built''"
| "execution_status_label Submitted = ''submitted''"
| "execution_status_label Included = ''included''"
| "execution_status_label Reverted = ''reverted''"
| "execution_status_label Dropped = ''dropped''"
| "execution_status_label Replaced = ''replaced''"
| "execution_status_label ProfitRealized = ''profit_realized''"


section \<open>What each part can change\<close>

lemma on_store_eq:
  "on_store m w = (r, w') \<longleftrightarrow> (\<exists>s. m (en_store w) = (r, s) \<and> w' = w\<lparr>en_store := s\<rparr>)"
  by (auto simp: on_store_def act_zoom_def split: prod.splits)

lemma on_net_eq: "on_net m w = (r, w') \<longleftrightarrow> (\<exists>n. m (en_net w) = (r, n) \<and> w' = w\<lparr>en_net := n\<rparr>)"
  by (auto simp: on_net_def act_zoom_def split: prod.splits)

lemma keeps_on_store:
  "(\<And>w s r. P w \<Longrightarrow> m (en_store w) = (r, s) \<Longrightarrow> P (w\<lparr>en_store := s\<rparr>)) \<Longrightarrow> keeps P (on_store m)"
  by (auto simp: keeps_def on_store_def act_zoom_def split: prod.splits)

lemma keeps_on_net:
  "(\<And>w n r. P w \<Longrightarrow> m (en_net w) = (r, n) \<Longrightarrow> P (w\<lparr>en_net := n\<rparr>)) \<Longrightarrow> keeps P (on_net m)"
  by (auto simp: keeps_def on_net_def act_zoom_def split: prod.splits)

text \<open>The part of the state that only submissions and their outcomes may change.\<close>

definition quiet :: "'w \<Rightarrow> RiskState \<Rightarrow> 'w engine \<Rightarrow> bool" where
  "quiet n s w \<longleftrightarrow> en_net w = n \<and> en_risk w = s"

lemma quiet_on_store [keeps_intros]: "keeps (quiet n s) (on_store m)"
  by (rule keeps_on_store) (simp add: quiet_def)

lemma quiet_handle_event: "keeps (quiet n s) (handle_event rt event)"
proof (cases event)
  case (Event_Log l)
  have book: "keeps (quiet n s) (\<lambda>w. case book_apply_log pu l (en_book w) of
      (book, r) \<Rightarrow> (map_err f r, w\<lparr>en_book := book\<rparr>))" for pu and f :: "MarketError \<Rightarrow> string"
    by (auto simp: keeps_def quiet_def split: prod.splits)
  have scan: "keeps (quiet n s) (\<lambda>w. (scan_book rt l i (en_book w), w))" for i
    by (simp add: keeps_def)
  show ?thesis
    unfolding handle_event_def Event_Log Event.case
    by (intro keeps_intros book) (auto intro: keeps_intros scan)
qed (simp_all add: handle_event_def keeps_ret)

section \<open>A halted engine\<close>

definition engine_halted :: "'w runtime \<Rightarrow> RiskState \<Rightarrow> bool" where
  "engine_halted rt s \<longleftrightarrow> rs_operator_killed s \<or> 0 < pol_max_consecutive_reverts (ru_policy rt) \<and>
    pol_max_consecutive_reverts (ru_policy rt) \<le> rs_consecutive_reverts s"

lemma assess_output_halted:
  assumes "engine_halted rt (en_risk w)" "assess_output rt at_time output w = (r, w')"
  shows "w' = w" "\<exists>d. r = Ok d \<and> \<not> rd_accepted d"
proof -
  obtain d s where a: "assess (ru_sha256 rt) (ru_policy rt) (in_file_exists at_time) (in_risk at_time)
      (po_opportunity output) (po_simulation output) (en_risk w) = (d, s)"
    by fastforce
  from halted_engine_rejects[OF assms(1)[unfolded engine_halted_def] a] a assms(2)
  show "w' = w" "\<exists>d. r = Ok d \<and> \<not> rd_accepted d" by (auto simp: assess_output_def)
qed

lemma rejected_decision_quiet: "\<not> rd_accepted risk \<Longrightarrow> keeps (quiet n s) (act_on_decision rt at_time out risk)"
  by (auto simp: act_on_decision_def build_execution_request_def intro!: keeps_intros)

lemma halted_output:
  assumes "engine_halted rt (en_risk w)" "maybe_log_decision_output rt at_time mo w = (r, w')"
  shows "en_net w' = en_net w \<and> en_risk w' = en_risk w"
proof (cases mo)
  case (Some out)
  with assms(2) have "act_bind (assess_output rt at_time out) (act_on_decision rt at_time out) w = (r, w')"
    by (simp add: maybe_log_decision_output_def)
  then show ?thesis
  proof (cases rule: act_bind_split)
    case (continues d w1)
    from assess_output_halted[OF assms(1) continues(1)] have "w1 = w" "\<not> rd_accepted d" by auto
    with keepsD[OF rejected_decision_quiet _ continues(2), of "en_net w" "en_risk w"] show ?thesis
      by (simp add: quiet_def)
  next
    case (stops v)
    with assess_output_halted[OF assms(1) stops(1)] show ?thesis by auto
  qed
qed (use assms in \<open>simp add: maybe_log_decision_output_def ret_def\<close>)

lemma halted_step:
  assumes "engine_halted rt (en_risk w)" "engine_step rt at_time event w = (r, w')"
  shows "en_net w' = en_net w \<and> en_risk w' = en_risk w"
proof -
  obtain v w1 where v: "handle_event rt event w = (v, w1)" by fastforce
  have w1: "en_net w1 = en_net w" "en_risk w1 = en_risk w"
    using keepsD[OF quiet_handle_event _ v, of "en_net w" "en_risk w"] by (simp_all add: quiet_def)
  show ?thesis
  proof (cases v)
    case (Ok mo)
    with assms(2) v have "\<exists>r'. maybe_log_decision_output rt at_time mo w1 = (r', w')"
      by (auto simp: engine_step_def act_bind_def act_err_def split: prod.splits)
    with halted_output[of rt w1] assms(1) w1 show ?thesis by metis
  qed (use assms(2) v w1 in \<open>auto simp: engine_step_def act_bind_def act_err_def\<close>)
qed

text \<open>C4: a halt is permanent.  Once the operator switch is engaged or the failed outcomes in a row have
  reached the breaker's limit, no sequence of events the main loop can receive makes the
  engine touch the execution transport again, and the halted state itself never changes: the
  loop contains no way to close the breaker.\<close>

theorem halted_engine_never_submits:
  assumes "engine_halted rt (en_risk w)" "main_loop rt wakeups w = (r, w')"
  shows "en_net w' = en_net w \<and> en_risk w' = en_risk w"
  using assms
proof (induction rt wakeups arbitrary: w r rule: main_loop.induct)
  case (2 rt at_time event rest)
  obtain v w1 where v: "engine_step rt at_time event w = (v, w1)" by fastforce
  note w1 = halted_step[OF "2.prems"(1) v]
  show ?case
  proof (cases v)
    case (Ok u)
    with "2.prems"(2) v have "main_loop rt rest w1 = (r, w')" by simp
    with "2.IH"[of w1 r] "2.prems"(1) w1 show ?thesis by simp
  qed (use "2.prems"(2) v w1 in auto)
qed (auto simp: act_simps ret_def act_bind_def lift_def split: res.splits)


definition sample_runtime :: "nat runtime" where
  "sample_runtime =
    \<lparr>ru_execution = sample_exec_config, ru_policy = sample_policy, ru_scan = None,
     ru_transport = sample_transport, ru_alloy = sample_alloy,
     ru_serde = \<lparr>sj_block_context = (\<lambda>_. []), sj_log = (\<lambda>_. [])\<rparr>, ru_sha256 = (\<lambda>s. s),
     ru_parse_u256 = (\<lambda>_. None)\<rparr>"

definition sample_instants :: instants where
  "sample_instants =
    \<lparr>in_risk = 1000, in_simulate = Some 100, in_drive = Some 101, in_file_exists = (\<lambda>_. False)\<rparr>"

definition sample_engine :: "RiskState \<Rightarrow> nat engine" where
  "sample_engine s = \<lparr>en_book = sample_book, en_risk = s, en_store = Some empty_db, en_net = 0\<rparr>"

theorem halted_engine_never_submits_witness:
  "\<exists>r w'. engine_halted sample_runtime (trigger_kill_switch risk_state_default) \<and>
    main_loop sample_runtime [Got_Event sample_instants (Event_Log sample_sync_log), Events_Closed]
      (sample_engine (trigger_kill_switch risk_state_default)) = (r, w') \<and> en_net w' = 0"
proof -
  let ?w = "sample_engine (trigger_kill_switch risk_state_default)"
  obtain r w' where run: "main_loop sample_runtime
      [Got_Event sample_instants (Event_Log sample_sync_log), Events_Closed] ?w = (r, w')"
    by fastforce
  have h: "engine_halted sample_runtime (en_risk ?w)"
    by (simp add: engine_halted_def sample_engine_def trigger_kill_switch_def)
  from halted_engine_never_submits[OF h run] h run show ?thesis by (auto simp: sample_engine_def)
qed

section \<open>What a submission requires\<close>

lemma prepare_from_store_eq_Some:
  assumes "prepare_from_store rt sim request s = (Ok (Some p), s')"
  shows "\<exists>q daily. request = Some q \<and> todays_submittable_notional_wei s = (Ok daily, s') \<and>
    prepare_execution (ru_execution rt) q sim daily = Ok p"
  using assms by (auto simp: prepare_from_store_def act_simps res_simps split: option.splits)

text \<open>Everything that has to hold before the engine turns to the transport.\<close>

definition cleared ::
  "'w runtime \<Rightarrow> instants \<Rightarrow> DecisionPipelineOutput \<Rightarrow> RiskState \<Rightarrow> ExecutionRequest \<Rightarrow> PreparedExecution \<Rightarrow> bool" where
  "cleared rt at_time out s q p \<longleftrightarrow>
    (\<exists>d s'. assess (ru_sha256 rt) (ru_policy rt) (in_file_exists at_time) (in_risk at_time) (po_opportunity out)
        (po_simulation out) s = (d, s') \<and> rd_accepted d \<and>
      build_execution_request (po_opportunity out) d = Some q) \<and>
    (\<exists>daily. prepare_execution (ru_execution rt) q (po_simulation out) daily = Ok p) \<and> pe_should_submit p"

lemma on_store_net: "on_store m w = (r, w') \<Longrightarrow> en_net w' = en_net w \<and> en_risk w' = en_risk w \<and> en_book w' = en_book w"
  by (auto simp: on_store_eq)

lemma execute_prepared_reaches:
  assumes "execute_prepared rt at_time q p run_id w = (r, w')" "en_net w' \<noteq> en_net w"
  shows "pe_should_submit p \<and>
    (\<exists>row w1. en_net w1 = en_net w \<and> en_risk w1 = en_risk w \<and> validate_and_drive rt at_time q p row w1 = (r, w'))"
  using assms(1)[unfolded execute_prepared_def]
proof (cases rule: act_bind_split)
  case (continues row w1)
  with on_store_net[OF continues(1)] assms(2) show ?thesis
    by (auto simp: ret_def split: if_splits)
next
  case (stops v)
  with on_store_net assms(2) show ?thesis by blast
qed

lemma act_on_decision_reaches:
  assumes "act_on_decision rt at_time out d w = (r, w')" "en_net w' \<noteq> en_net w"
  shows "\<exists>q p daily run_id w1. build_execution_request (po_opportunity out) d = Some q \<and>
    prepare_execution (ru_execution rt) q (po_simulation out) daily = Ok p \<and>
    en_net w1 = en_net w \<and> en_risk w1 = en_risk w \<and> execute_prepared rt at_time q p run_id w1 = (r, w')"
  using assms(1)[unfolded act_on_decision_def Let_def]
proof (cases rule: act_bind_split)
  case (continues mp w1)
  note w1 = on_store_net[OF continues(1)]
  from continues(2) show ?thesis
  proof (cases rule: act_bind_split)
    case (continues run_id w2)
    note w2 = on_store_net[OF continues(1)]
    from continues(2) assms(2) w1 w2 obtain q p where qp:
      "build_execution_request (po_opportunity out) d = Some q" "mp = Some p"
      "execute_prepared rt at_time q p run_id w2 = (r, w')"
      by (auto simp: ret_def split: option.splits)
    with \<open>on_store (prepare_from_store _ _ _) w = (Ok mp, w1)\<close> obtain daily where
      "prepare_execution (ru_execution rt) q (po_simulation out) daily = Ok p"
      by (auto simp: on_store_eq dest!: prepare_from_store_eq_Some)
    with qp w1 w2 show ?thesis by metis
  next
    case (stops v)
    with on_store_net[OF stops(1)] w1 assms(2) show ?thesis by simp
  qed
next
  case (stops v)
  with on_store_net[OF stops(1)] assms(2) show ?thesis by simp
qed

lemma maybe_log_reaches_drive:
  assumes "maybe_log_decision_output rt at_time mo w = (r, w')" "en_net w' \<noteq> en_net w"
  shows "\<exists>out q p row w1. mo = Some out \<and> cleared rt at_time out (en_risk w) q p \<and> en_net w1 = en_net w \<and>
      validate_and_drive rt at_time q p row w1 = (r, w')"
proof (cases mo)
  case (Some out)
  obtain d s where a: "assess (ru_sha256 rt) (ru_policy rt) (in_file_exists at_time) (in_risk at_time)
      (po_opportunity out) (po_simulation out) (en_risk w) = (d, s)" by fastforce
  with assms(1) Some have "act_on_decision rt at_time out d (w\<lparr>en_risk := s\<rparr>) = (r, w')"
    by (simp add: maybe_log_decision_output_def act_bind_def assess_output_def)
  from act_on_decision_reaches[OF this] assms(2) obtain q p daily run_id w1 where
    q: "build_execution_request (po_opportunity out) d = Some q"
    "prepare_execution (ru_execution rt) q (po_simulation out) daily = Ok p" "en_net w1 = en_net w"
    "execute_prepared rt at_time q p run_id w1 = (r, w')" by auto
  from execute_prepared_reaches[OF q(4)] q(3) assms(2) obtain row w2 where
    v: "pe_should_submit p" "en_net w2 = en_net w" "validate_and_drive rt at_time q p row w2 = (r, w')"
    by auto
  moreover have "cleared rt at_time out (en_risk w) q p"
    using a q v(1) by (auto simp: cleared_def build_execution_request_def split: if_splits)
  ultimately show ?thesis using Some by blast
qed (use assms in \<open>simp add: maybe_log_decision_output_def ret_def\<close>)


lemma validate_and_drive_net:
  assumes "validate_and_drive rt at_time q p row w = (r, w')" "en_net w' \<noteq> en_net w"
  shows "\<exists>payload. build_submission_payload (ru_alloy rt) (ru_execution rt) q (in_simulate at_time) = Ok payload \<and>
    (\<forall>e n. run_ethcall_simulation rt payload (pe_attempt p) (en_net w) = (Err e, n) \<longrightarrow>
      ex_ethcall_preflight_required (ru_execution rt) \<longrightarrow> en_net w' = n)"
proof (cases "build_submission_payload (ru_alloy rt) (ru_execution rt) q (in_simulate at_time)")
  case (Ok payload)
  have "en_net w' = n" if sim: "run_ethcall_simulation rt payload (pe_attempt p) (en_net w) = (Err e, n)"
    and req: "ex_ethcall_preflight_required (ru_execution rt)" for e n
  proof -
    have "act_bind (note_outcome False) (\<lambda>_. for_row row (\<lambda>i. record_execution_attempt_error i ''ethcall_simulate'' e))
        (w\<lparr>en_net := n\<rparr>) = (r, w')"
      using assms(1) Ok sim req
      by (simp add: validate_and_drive_def Let_def act_match_def on_net_def act_zoom_def)
    then show ?thesis
      by (auto simp: note_outcome_def act_bind_def act_modify_def for_row_def ret_def on_store_def act_zoom_def
          split: option.splits prod.splits)
  qed
  with Ok show ?thesis by auto
qed (use assms in \<open>auto simp: validate_and_drive_def\<close>)

lemma scan_book_Some:
  assumes "scan_book rt l i book = Ok (Some out)"
  shows "\<exists>scan rest. ru_scan rt = Some scan \<and>
    detect_two_leg_loops_from_book book (md_block_context (log_metadata l)) (sn_settlement_token scan)
      (sn_amount_in scan) (md_tx_hash (log_metadata l)) = Ok (po_opportunity out # rest) \<and>
    simulate_two_leg_opportunity (po_opportunity out) (sn_simulation scan) = Some (po_simulation out)"
proof -
  from assms obtain scan ops where scan: "ru_scan rt = Some scan" and
    ops: "detect_two_leg_loops_from_book book (md_block_context (log_metadata l)) (sn_settlement_token scan)
      (sn_amount_in scan) (md_tx_hash (log_metadata l)) = Ok ops"
    by (auto simp: scan_book_def res_simps split: option.splits)
  with assms show ?thesis
    by (cases ops) (auto simp: scan_book_def split: option.splits)
qed

lemma handle_event_output:
  assumes "handle_event rt event w = (Ok (Some out), w1)"
  shows "\<exists>l scan rest. event = Event_Log l \<and> ru_scan rt = Some scan \<and>
    detect_two_leg_loops_from_book (en_book w1) (md_block_context (log_metadata l)) (sn_settlement_token scan)
      (sn_amount_in scan) (md_tx_hash (log_metadata l)) = Ok (po_opportunity out # rest) \<and>
    simulate_two_leg_opportunity (po_opportunity out) (sn_simulation scan) = Some (po_simulation out)"
  using assms
  by (cases event) (auto simp: handle_event_def act_simps dest: scan_book_Some split: if_splits)

lemma build_request_surplus: "build_execution_request opp d = Some q \<Longrightarrow> rq_min_surplus q = rd_min_surplus d"
  by (auto simp: build_execution_request_def split: if_splits Option.bind_splits)

lemma assess_surplus: "assess sha policy fe now opp sim s = (d, s') \<Longrightarrow> rd_min_surplus d = pol_min_net_profit_wei policy"
  by (auto simp: assess_def deny_def Let_def split: option.splits if_splits)

text \<open>C3: the engine turns to the execution transport only at the end of the whole chain.  If one
  event changed anything behind the transport, then the event was a log, the scan of the
  updated book put an opportunity first whose simulation succeeded, the risk engine accepted
  it in the state before the event, a request demanding the policy's minimum surplus was
  built from it, preparation allowed submission (so the mode is not shadow) and the calldata
  was built; and if a required dry run failed, the dry run is all that happened outside.\<close>

theorem submission_requires_clearance:
  assumes step: "engine_step rt at_time event w = (r, w')" and net: "en_net w' \<noteq> en_net w"
  shows "\<exists>l out q p w1 scan rest payload. event = Event_Log l \<and> handle_event rt event w = (Ok (Some out), w1) \<and>
    ru_scan rt = Some scan \<and>
    detect_two_leg_loops_from_book (en_book w1) (md_block_context (log_metadata l)) (sn_settlement_token scan)
      (sn_amount_in scan) (md_tx_hash (log_metadata l)) = Ok (po_opportunity out # rest) \<and>
    simulate_two_leg_opportunity (po_opportunity out) (sn_simulation scan) = Some (po_simulation out) \<and>
    cleared rt at_time out (en_risk w) q p \<and> ex_mode (ru_execution rt) \<noteq> Shadow \<and>
    rq_min_surplus q = pol_min_net_profit_wei (ru_policy rt) \<and>
    build_submission_payload (ru_alloy rt) (ru_execution rt) q (in_simulate at_time) = Ok payload \<and>
    (\<forall>e n. run_ethcall_simulation rt payload (pe_attempt p) (en_net w) = (Err e, n) \<longrightarrow>
      ex_ethcall_preflight_required (ru_execution rt) \<longrightarrow> en_net w' = n)"
proof -
  obtain v w1 where v: "handle_event rt event w = (v, w1)" by fastforce
  have w1: "en_net w1 = en_net w" "en_risk w1 = en_risk w"
    using keepsD[OF quiet_handle_event _ v, of "en_net w" "en_risk w"] by (simp_all add: quiet_def)
  from step v net w1 obtain mo r' where mo: "v = Ok mo" "maybe_log_decision_output rt at_time mo w1 = (r', w')"
    by (cases v) (auto simp: engine_step_def act_bind_def act_err_def split: prod.splits)
  from maybe_log_reaches_drive[OF mo(2)] net w1 obtain out q p row w2 where
    out: "mo = Some out" "cleared rt at_time out (en_risk w) q p" "en_net w2 = en_net w"
    "validate_and_drive rt at_time q p row w2 = (r', w')" by auto
  from validate_and_drive_net[OF out(4)] net out(3) obtain payload where
    payload: "build_submission_payload (ru_alloy rt) (ru_execution rt) q (in_simulate at_time) = Ok payload"
    "\<forall>e n. run_ethcall_simulation rt payload (pe_attempt p) (en_net w) = (Err e, n) \<longrightarrow>
      ex_ethcall_preflight_required (ru_execution rt) \<longrightarrow> en_net w' = n" by auto
  from out(2) have "ex_mode (ru_execution rt) \<noteq> Shadow" "rq_min_surplus q = pol_min_net_profit_wei (ru_policy rt)"
    by (auto simp: cleared_def dest: prepared_flags(2) dest!: build_request_surplus assess_surplus)
  with handle_event_output[of rt event w out w1] v mo(1) out payload show ?thesis by blast
qed


text \<open>A full run: a log moves one of two pools, and the engine broadcasts.\<close>

definition live_runtime :: "nat runtime" where
  "live_runtime = sample_runtime
    \<lparr>ru_execution := sample_exec_config\<lparr>ex_mode := Live\<rparr>,
     ru_scan := Some \<lparr>sn_settlement_token = ''0xAA'', sn_amount_in = 10000, sn_simulation = sample_sim_config\<rparr>\<rparr>"

definition live_engine :: "nat engine" where
  "live_engine = \<lparr>en_book = sample_books, en_risk = risk_state_default, en_store = None, en_net = 0\<rparr>"

definition synced_v2 :: V2PoolState where
  "synced_v2 = sample_v2\<lparr>v2_reserve0 := 1100000, v2_reserve1 := 1900000, v2_last_updated_block := Some 7\<rparr>"

definition live_opp :: Opportunity where
  "live_opp =
    \<lparr>op_id = opportunity_id ''0xAA'' ''0xpool'' ''0xpool2'' 10000, op_kind = TwoLegLoop,
     op_block_context = Block_At 7 None, op_settlement_token = ''0xAA'', op_input_amount = 10000,
     op_expected_output_amount = 16730, op_expected_net_profit = 6730,
     op_route =
      [\<lparr>leg_venue = None, leg_protocol = Some UniswapV2, leg_target = ''0xpool'', leg_pool_address = Some ''0xpool'',
        leg_token_in = ''0xAA'', leg_token_out = ''0xBB'', leg_amount_in = Some 10000, leg_min_amount_out = Some 17066\<rparr>,
       \<lparr>leg_venue = None, leg_protocol = Some UniswapV2, leg_target = ''0xpool2'', leg_pool_address = Some ''0xpool2'',
        leg_token_in = ''0xBB'', leg_token_out = ''0xAA'', leg_amount_in = Some 17066, leg_min_amount_out = Some 16730\<rparr>],
     op_trigger_tx_hash = Some ''0xt1''\<rparr>"

lemma live_tokens_differ: "\<not> eq_ignore_ascii_case ''0xBB'' ''0xAA''" "\<not> eq_ignore_ascii_case ''0xAA'' ''0xBB''"
  "\<not> eq_ignore_ascii_case ''0xpool'' ''0xpool2''" "\<not> eq_ignore_ascii_case ''0xpool2'' ''0xpool''"
  by code_simp+

lemma live_detect:
  "detect_two_leg_loop (loop_input (Block_At 7 None) ''0xAA'' 10000 (Some ''0xt1'') (synced_v2, sample_v2b)) =
    Ok (Some live_opp)"
  "detect_two_leg_loop (loop_input (Block_At 7 None) ''0xAA'' 10000 (Some ''0xt1'') (sample_v2b, synced_v2)) = Ok None"
  by (simp_all add: detect_two_leg_loop_def loop_input_def live_opp_def synced_v2_def sample_v2b_def sample_v2_def
      v2_eval live_tokens_differ)

lemma live_book:
  "\<exists>book. book_apply_log pu sample_sync_log sample_books = (book, Ok Applied) \<and>
    v2_pools book = [sample_v2b, synced_v2]"
  by (simp add: book_apply_log_def sample_sync_log_def sample_books_entries hm_insert_def hm_get_def hm_remove_def
      apply_v2_log_def sample_sync_def applied_log_key_def sample_keys sample_key2 sample_metadata_def
      v2_apply_log_def v2_apply_sync_def Let_def v2_pools_def hm_values_def map_filter_def synced_v2_def
      sample_v2_def sample_v2b_def)

lemma live_pairs:
  "loop_pairs [sample_v2b, synced_v2] ''0xAA'' = [(sample_v2b, synced_v2), (synced_v2, sample_v2b)]"
  by (simp add: loop_pairs_def loop_row_def v2_contains_token_def v2_other_token_def synced_v2_def sample_v2b_def
      sample_v2_def live_tokens_differ)

lemma live_scan:
  "v2_pools book = [sample_v2b, synced_v2] \<Longrightarrow>
    detect_two_leg_loops_from_book book (Block_At 7 None) ''0xAA'' 10000 (Some ''0xt1'') = Ok [live_opp]"
  by (simp add: detect_two_leg_loops_from_book_def live_pairs live_detect map_filter_def)

definition live_sim :: SimulationResult where
  "live_sim = the (simulate_two_leg_opportunity live_opp sample_sim_config)"

lemma live_sim_eq:
  "simulate_two_leg_opportunity live_opp sample_sim_config = Some live_sim"
  "sim_accepted live_sim" "sim_expected_net_profit live_sim = 5530" "sim_gas_estimate live_sim = 180000"
  by (simp_all add: live_sim_def simulate_two_leg_opportunity_def live_opp_def sample_sim_config_def word_eval)

lemma live_handled:
  "\<exists>book. handle_event live_runtime (Event_Log sample_sync_log) live_engine =
    (Ok (Some \<lparr>po_observed_log_id = None, po_opportunity = live_opp, po_simulation = live_sim\<rparr>),
     live_engine\<lparr>en_book := book\<rparr>)"
proof -
  obtain book where b: "book_apply_log (\<lambda>_. None) sample_sync_log sample_books = (book, Ok Applied)"
    "v2_pools book = [sample_v2b, synced_v2]" using live_book by blast
  have "handle_event live_runtime (Event_Log sample_sync_log) live_engine =
    (scan_book live_runtime sample_sync_log None book, live_engine\<lparr>en_book := book\<rparr>)"
    by (simp add: handle_event_def live_runtime_def sample_runtime_def live_engine_def act_bind_def act_err_def
        on_store_def act_zoom_def persist_observed_log_def with_pool_def b)
  moreover have "scan_book live_runtime sample_sync_log None book =
    Ok (Some \<lparr>po_observed_log_id = None, po_opportunity = live_opp, po_simulation = live_sim\<rparr>)"
    using b(2) by (simp add: scan_book_def live_runtime_def sample_sync_log_def sample_metadata_def live_scan
        live_sim_eq)
  ultimately show ?thesis by auto
qed

lemma live_stateless: "stateless_reject sample_policy fe live_opp live_sim = None"
proof -
  have "find_map (token_reject sample_policy) ts = None" for ts
    by (simp add: find_map_None_iff token_reject_def sample_policy_def)
  then show ?thesis
    by (simp add: stateless_reject_def sample_policy_def live_opp_def live_sim_eq bps_of_def word_eval)
qed

lemma live_fields:
  "pol_min_net_profit_wei sample_policy = 100" "pol_max_per_block_notional_wei sample_policy = Some 15000"
  "pol_max_daily_notional_wei sample_policy = Some 25000" "pol_max_consecutive_reverts sample_policy = 3"
  "op_input_amount live_opp = 10000" "op_block_context live_opp = Block_At 7 None"
  by (simp_all add: sample_policy_def live_opp_def)

definition live_decision :: RiskDecision where
  "live_decision = \<lparr>rd_opportunity_id = op_id live_opp, rd_accepted = True, rd_reason = None,
      rd_risk_hash = risk_hash (\<lambda>s. s) live_opp live_sim 100, rd_min_surplus = 100\<rparr>"

lemma live_accepted:
  "\<exists>s. assess (\<lambda>s. s) sample_policy fe 1000 live_opp live_sim risk_state_default = (live_decision, s)"
  by (simp add: assess_def live_stateless risk_state_default_def prune_daily_entries_def Let_def block_used_def
      SECONDS_PER_DAY_def live_decision_def live_fields word_eval)

definition live_request :: ExecutionRequest where
  "live_request = the (build_execution_request live_opp live_decision)"

lemma live_request_eq:
  "build_execution_request live_opp live_decision = Some live_request"
  "rq_steps live_request = map (\<lambda>leg. the (step_of_leg leg)) (op_route live_opp)"
  "requested_notional live_request = 10000" "rq_flashloan_amount live_request = Some 10000"
  "rq_flashloan_asset live_request = Some ''0xAA''"
  by (simp_all add: live_request_def build_execution_request_def live_decision_def live_opp_def step_of_leg_def
      requested_notional_def)

lemma live_prepared:
  "\<exists>p. prepare_execution (sample_exec_config\<lparr>ex_mode := Live\<rparr>) live_request live_sim 0 = Ok p \<and> pe_should_submit p \<and>
    at_status (pe_attempt p) = Built \<and> at_submission_allowed (pe_attempt p)"
  by (simp add: prepare_execution_def live_request_eq live_sim_eq sample_exec_config_def padded_gas_limit_eq
      parse_optional_amount_def sample_amounts submission_policy_def live_opp_def)

lemma live_payload:
  assumes "now = 100 \<or> now = 101"
  shows "\<exists>payload. build_submission_payload sample_alloy (sample_exec_config\<lparr>ex_mode := Live\<rparr>) live_request (Some now) = Ok payload"
proof -
  have "build_route_step sample_alloy (the (step_of_leg leg)) i \<noteq> Err e" if "leg \<in> set (op_route live_opp)" for leg i e
    using that by (auto simp: live_opp_def step_of_leg_def build_route_step_def parse_address_def sample_alloy_def
        hint_arm_def)
  then have "\<exists>r. build_route_step sample_alloy (the (step_of_leg leg)) i = Ok r" if "leg \<in> set (op_route live_opp)" for leg i
    using that build_route_step_no_panic by (metis res.exhaust)
  then have "\<exists>rs. map_res (\<lambda>(i, s). build_route_step sample_alloy s i) (enumerate 0 (rq_steps live_request)) = Ok rs"
    by (simp add: live_request_eq live_opp_def) (metis attempt.simps(1))
  with assms show ?thesis
    by (auto simp: build_submission_payload_def current_unix_timestamp_def build_submission_payload_at_def build_plan_def
      live_request_eq sample_exec_config_def parse_address_def parse_risk_hash_def word_eval sample_alloy_def)
qed

lemma keeps_net_drive_submitted:
  assumes "\<And>q a s n r n'. tr_await_receipt (ru_transport rt) q a s n = (r, n') \<Longrightarrow> n' = n"
  shows "keeps (\<lambda>w. en_net w = n) (drive_submitted rt q b row h)"
proof -
  have store: "keeps (\<lambda>w. en_net w = n) (on_store m)" for m :: "(storage, string, 'x) act"
    by (rule keeps_on_store) simp
  have note_: "keeps (\<lambda>w. en_net w = n) (note_outcome b')" for b'
    by (simp add: note_outcome_def keeps_def act_modify_def)
  have net: "keeps (\<lambda>w. en_net w = n) (on_net (tr_await_receipt (ru_transport rt) q a s))" for a s
    by (rule keeps_on_net) (auto dest: assms)
  have row: "keeps (\<lambda>w. en_net w = n) (for_row row f)" for f
    by (auto simp: for_row_def intro!: keeps_intros store split: option.splits)
  show ?thesis
    by (auto simp: drive_submitted_def conclude_receipt_def conclude_dropped_def Let_def
        intro!: keeps_intros store note_ net row split: option.splits)
qed


lemma live_drive:
  assumes "at_status (pe_attempt p) = Built" "pe_should_submit p"
  shows "en_net (snd (validate_and_drive live_runtime sample_instants live_request p row (live_engine\<lparr>en_book := b, en_risk := s\<rparr>))) = 1"
proof -
  obtain payload payload' where pl:
    "build_submission_payload sample_alloy (sample_exec_config\<lparr>ex_mode := Live\<rparr>) live_request (Some 100) = Ok payload"
    "build_submission_payload sample_alloy (sample_exec_config\<lparr>ex_mode := Live\<rparr>) live_request (Some 101) = Ok payload'"
    using live_payload by blast
  let ?w = "live_engine\<lparr>en_book := b, en_risk := s, en_net := 1\<rparr>"
  have "keeps (\<lambda>w. en_net w = 1) (drive_submitted live_runtime live_request (pe_attempt p) row ''0xh'')"
    by (rule keeps_net_drive_submitted) (simp add: live_runtime_def sample_runtime_def sample_transport_def)
  then have "en_net (snd (drive_submitted live_runtime live_request (pe_attempt p) row ''0xh'' ?w)) = 1"
    by (simp add: keeps_def)
  moreover have "snd (validate_and_drive live_runtime sample_instants live_request p row (live_engine\<lparr>en_book := b, en_risk := s\<rparr>)) =
      snd (drive_submitted live_runtime live_request (pe_attempt p) row ''0xh'' ?w)"
    by (simp add: validate_and_drive_def sample_instants_def live_runtime_def sample_runtime_def pl Let_def
        act_match_def act_err_def on_net_def act_zoom_def run_ethcall_simulation_def under_timer_def
        sample_transport_def default_simulate_def drive_execution_attempt_def lift_def act_bind_def ask_submit_def
        live_engine_def split: prod.splits)
  ultimately show ?thesis by simp
qed

lemma live_step: "en_net (snd (engine_step live_runtime sample_instants (Event_Log sample_sync_log) live_engine)) = 1"
proof -
  obtain b where h: "handle_event live_runtime (Event_Log sample_sync_log) live_engine =
    (Ok (Some \<lparr>po_observed_log_id = None, po_opportunity = live_opp, po_simulation = live_sim\<rparr>),
     live_engine\<lparr>en_book := b\<rparr>)" using live_handled by blast
  obtain s where s: "assess (\<lambda>s. s) sample_policy (\<lambda>_. False) 1000 live_opp live_sim risk_state_default = (live_decision, s)"
    using live_accepted by blast
  obtain p where p: "prepare_execution (sample_exec_config\<lparr>ex_mode := Live\<rparr>) live_request live_sim 0 = Ok p"
    "pe_should_submit p" "at_status (pe_attempt p) = Built" using live_prepared by blast
  have gas: "fits_i64 (sim_gas_estimate live_sim) = Some 180000" by (simp add: live_sim_eq fits_i64_def)
  let ?out = "\<lparr>po_observed_log_id = None, po_opportunity = live_opp, po_simulation = live_sim\<rparr>"
  let ?w = "live_engine\<lparr>en_book := b, en_risk := s\<rparr>"
  have decide: "act_on_decision live_runtime sample_instants ?out live_decision ?w =
      validate_and_drive live_runtime sample_instants live_request p None ?w"
    by (simp add: act_on_decision_def execute_prepared_def live_request_eq prepare_from_store_def act_bind_def on_store_def
        act_zoom_def act_err_def todays_submittable_notional_wei_def with_pool_def live_runtime_def p lift_def ret_def
        persist_decision_run_def persist_execution_attempt_def live_engine_def)
  have judged: "assess_output live_runtime sample_instants ?out (live_engine\<lparr>en_book := b\<rparr>) = (Ok live_decision, ?w)"
    by (simp add: assess_output_def s live_runtime_def sample_runtime_def sample_instants_def live_engine_def)
  have "snd (engine_step live_runtime sample_instants (Event_Log sample_sync_log) live_engine) =
      snd (act_on_decision live_runtime sample_instants ?out live_decision ?w)"
    by (simp add: engine_step_def act_bind_def act_err_def h maybe_log_decision_output_def judged split: prod.splits)
  with live_drive[OF p(3,2)] decide show ?thesis by simp
qed

theorem submission_requires_clearance_witness:
  "\<exists>l r w'. engine_step live_runtime sample_instants (Event_Log l) live_engine = (r, w') \<and> en_net w' \<noteq> en_net live_engine \<and>
    (\<exists>out q p. cleared live_runtime sample_instants out (en_risk live_engine) q p \<and> rq_min_surplus q = 100)"
proof -
  obtain r w' where run: "engine_step live_runtime sample_instants (Event_Log sample_sync_log) live_engine = (r, w')"
    by fastforce
  with live_step have net: "en_net w' \<noteq> en_net live_engine" by (simp add: live_engine_def)
  have "pol_min_net_profit_wei (ru_policy live_runtime) = 100"
    by (simp add: live_runtime_def sample_runtime_def sample_policy_def)
  with submission_requires_clearance[OF run net] run net show ?thesis by metis
qed

end
