(* ===== verification/Service.thy ===== *)
theory Service
  imports App
begin

text \<open>
  The daily limit of canary mode, over the whole life of the service.  \<open>prepare_execution\<close>
  compares a request with the sum the database reports for today, and the attempt is stored
  before anything is sent.  Here the two are put together: every other statement the engine
  issues leaves the sum alone, one event adds at most one allowed attempt, and the sum stays
  within the limit through database faults, panics, restarts of the process and changes of day.
  Without a database the comparison is made against zero, and nothing is enforced.
\<close>

section \<open>Statements that leave the daily sum alone\<close>

definition at_spent :: "nat \<Rightarrow> storage \<Rightarrow> bool" where
  "at_spent c s \<longleftrightarrow> store_wf s \<and> store_spent s = c"

lemma at_spent_Some [simp]: "at_spent c (Some d) \<longleftrightarrow> db_wf d \<and> spent_today d = c"
  by (simp add: at_spent_def store_wf_def store_spent_def)

definition db_spent :: "nat \<Rightarrow> db \<Rightarrow> bool" where
  "db_spent c d \<longleftrightarrow> db_wf d \<and> spent_today d = c"

lemma with_pool_neutral: "keeps (db_spent c) m \<Longrightarrow> keeps (at_spent c) (with_pool x m)"
  by (auto simp: keeps_def db_spent_def at_spent_def store_wf_def store_spent_def with_pool_def case_prod_beta)

lemma query_neutral:
  assumes "\<And>d. db_spent c d \<Longrightarrow> db_spent c (snd (f d))"
  shows "keeps (db_spent c) (query context f)"
proof (rule keepsI)
  fix d assume "db_spent c d"
  then have "db_spent c (d\<lparr>db_queries := db_queries d + 1\<rparr>)" by (simp add: db_spent_def)
  with assms[OF this] show "db_spent c (snd (query context f d))" by (simp add: query_def case_prod_beta)
qed

lemma untouched_neutral:
  "db_attempts (snd (f d)) = db_attempts d \<Longrightarrow> db_next_attempt (snd (f d)) = db_next_attempt d \<Longrightarrow>
    db_day (snd (f d)) = db_day d \<Longrightarrow> db_spent c d \<Longrightarrow> db_spent c (snd (f d))"
  by (simp add: db_spent_def db_wf_def spent_today_def counted_today_def)

lemma persist_observed_log_neutral: "keeps (at_spent c) (persist_observed_log sj h lg)"
proof -
  have "db_spent c (snd (upsert_log mk d))" if "db_spent c d" for mk d
    by (rule untouched_neutral[OF _ _ _ that]) (simp_all add: upsert_log_def Let_def split: option.splits)
  then show ?thesis
    unfolding persist_observed_log_def by (intro with_pool_neutral keeps_intros query_neutral)
qed

lemma persist_decision_run_neutral: "keeps (at_spent c) (persist_decision_run sj rec)"
proof -
  have "db_spent c (snd (insert_run mk d))" if "db_spent c d" for mk d
    by (rule untouched_neutral[OF _ _ _ that]) (simp_all add: insert_run_def)
  then show ?thesis
    unfolding persist_decision_run_def Let_def by (intro with_pool_neutral keeps_intros query_neutral)
qed

lemma update_found_neutral: "harmless f \<Longrightarrow> keeps (at_spent c) (update_found i f context missing)"
  unfolding update_found_def
  by (intro with_pool_neutral keeps_intros query_neutral)
    (simp add: db_spent_def update_attempt_wf update_attempt_spent)

lemma row_updates_neutral:
  "keeps (at_spent c) (mark_execution_submitted i att)"
  "keeps (at_spent c) (finalize_execution_attempt i att receipt outcome)"
  "keeps (at_spent c) (finalize_execution_attempt_without_receipt i att outcome)"
  "keeps (at_spent c) (record_execution_attempt_error i stage error)"
  unfolding mark_execution_submitted_def finalize_execution_attempt_def
    finalize_execution_attempt_without_receipt_def record_execution_attempt_error_def
  by (rule update_found_neutral, simp add: harmless_def)+

section \<open>What one event adds\<close>

definition spent_is :: "nat \<Rightarrow> 'w engine \<Rightarrow> bool" where
  "spent_is c w \<longleftrightarrow> at_spent c (en_store w)"

lemma spent_on_store: "keeps (at_spent c) m \<Longrightarrow> keeps (spent_is c) (on_store m)"
  by (rule keeps_on_store) (auto simp: spent_is_def dest: keepsD)

lemma spent_on_net [keeps_intros]: "keeps (spent_is c) (on_net m)"
  by (rule keeps_on_net) (simp add: spent_is_def)

lemma spent_note_outcome [keeps_intros]: "keeps (spent_is c) (note_outcome b)"
  unfolding note_outcome_def by (intro keeps_intros) (simp add: spent_is_def)

lemma spent_for_row: "(\<And>i. keeps (at_spent c) (f i)) \<Longrightarrow> keeps (spent_is c) (for_row row f)"
  unfolding for_row_def by (intro keeps_intros spent_on_store)

lemma spent_handle_event: "keeps (spent_is c) (handle_event rt event)"
proof (cases event)
  case (Event_Log l)
  have book: "keeps (spent_is c) (\<lambda>w. case book_apply_log pu l (en_book w) of
      (book, r) \<Rightarrow> (map_err f r, w\<lparr>en_book := book\<rparr>))" for pu and f :: "MarketError \<Rightarrow> string"
    by (auto simp: keeps_def spent_is_def split: prod.splits)
  have scan: "keeps (spent_is c) (\<lambda>w. (scan_book rt l i (en_book w), w))" for i
    by (simp add: keeps_def)
  show ?thesis
    unfolding handle_event_def Event_Log Event.case
    by (intro keeps_intros book scan spent_on_store persist_observed_log_neutral)
qed (simp_all add: handle_event_def keeps_ret)

lemmas spent_rows = spent_for_row row_updates_neutral

lemma spent_drive_submitted: "keeps (spent_is c) (drive_submitted rt request built row tx_hash)"
  unfolding drive_submitted_def conclude_receipt_def conclude_dropped_def Let_def
  by (intro keeps_intros spent_rows)

lemma spent_validate_and_drive: "keeps (spent_is c) (validate_and_drive rt at_time q p row)"
proof -
  have "keeps (spent_is c) (case a of Sent h \<Rightarrow> drive_submitted rt q (pe_attempt p) row h
      | Refused e \<Rightarrow> act_bind (note_outcome False) (\<lambda>_. for_row row (\<lambda>i. record_execution_attempt_error i ''submit'' e))
      | Late \<Rightarrow> act_bind (note_outcome False)
          (\<lambda>_. for_row row (\<lambda>i. record_execution_attempt_error i ''submit_timeout'' ''deadline has elapsed'')))" for a
    by (cases a) (auto intro!: keeps_intros spent_rows spent_drive_submitted)
  then show ?thesis
    unfolding validate_and_drive_def drive_execution_attempt_def Let_def
    by (intro keeps_intros spent_rows)
qed

abbreviation notional_if_allowed :: "ExecutionAttempt \<Rightarrow> nat" where
  "notional_if_allowed att \<equiv> (if at_submission_allowed att then unat (at_requested_notional att) else 0)"

lemma persist_spends:
  assumes "on_store (persist_execution_attempt run_id att q) w = (v, w1)" "spent_is c w"
  shows "spent_is (c + (if is_ok v then notional_if_allowed att else 0)) w1"
proof -
  from assms(1) obtain s where s: "persist_execution_attempt run_id att q (en_store w) = (v, s)" "w1 = w\<lparr>en_store := s\<rparr>"
    by (auto simp: on_store_eq)
  from pg.persist_adds[OF _ s(1)] assms(2) s(2) show ?thesis by (simp add: spent_is_def at_spent_def)
qed

lemma execute_prepared_spends:
  assumes "execute_prepared rt at_time q p run_id w = (r, w')" "spent_is c w"
  shows "spent_is (c + notional_if_allowed (pe_attempt p)) w' \<or> spent_is c w' \<and> en_net w' = en_net w"
  using assms(1)[unfolded execute_prepared_def]
proof (cases rule: act_bind_split)
  case (continues row w1)
  from persist_spends[OF continues(1) assms(2)] have w1: "spent_is (c + notional_if_allowed (pe_attempt p)) w1" by simp
  have "keeps (spent_is n) (if pe_should_submit p then validate_and_drive rt at_time q p row else ret ())" for n
    by (intro keeps_intros spent_validate_and_drive)
  from keepsD[OF this w1 continues(2)] show ?thesis ..
next
  case (stops v)
  with persist_spends[OF stops(1) assms(2)] on_store_net[OF stops(1)] show ?thesis by simp
qed

text \<open>What an event adds to the sum was compared with the limit before it was added.\<close>

definition allowed_spend :: "ExecutionConfig \<Rightarrow> nat \<Rightarrow> nat \<Rightarrow> bool" where
  "allowed_spend config c n \<longleftrightarrow>
    (\<exists>q sim daily p. unat daily = c \<and> unat (requested_notional q) = n \<and>
      prepare_execution config q sim daily = Ok p \<and> pe_should_submit p)"

lemma prepare_from_store_spent:
  assumes "on_store (prepare_from_store rt sim req) w = (r, w1)" "spent_is c w"
  shows "spent_is c w1" "\<forall>p. r = Ok (Some p) \<longrightarrow> (\<exists>q daily. req = Some q \<and> unat daily = c \<and>
    prepare_execution (ru_execution rt) q sim daily = Ok p)"
proof -
  have "keeps (at_spent c) todays_submittable_notional_wei"
    by (rule keepsI) (metis at_spent_def pg.todays_reads prod.collapse)
  then have "keeps (spent_is c) (on_store (prepare_from_store rt sim req))"
    unfolding prepare_from_store_def by (intro spent_on_store keeps_intros)
  from keepsD[OF this assms(2,1)] show "spent_is c w1" .
  show "\<forall>p. r = Ok (Some p) \<longrightarrow> (\<exists>q daily. req = Some q \<and> unat daily = c \<and>
      prepare_execution (ru_execution rt) q sim daily = Ok p)"
  proof (intro allI impI)
    fix p assume "r = Ok (Some p)"
    with assms(1) obtain s where "prepare_from_store rt sim req (en_store w) = (Ok (Some p), s)"
      by (auto simp: on_store_eq)
    from prepare_from_store_eq_Some[OF this] assms(2) show "\<exists>q daily. req = Some q \<and> unat daily = c \<and>
        prepare_execution (ru_execution rt) q sim daily = Ok p"
      using pg.todays_reads unfolding spent_is_def at_spent_def by metis
  qed
qed

lemma execute_allowed_spend:
  assumes run: "execute_prepared rt at_time q p run_id w = (r, w')" and "spent_is c w"
    and prep: "prepare_execution (ru_execution rt) q sim daily = Ok p" "unat daily = c"
  shows "spent_is c w' \<and> en_net w' = en_net w \<or> (\<exists>n>0. spent_is (c + n) w' \<and> allowed_spend (ru_execution rt) c n)"
proof (cases "pe_should_submit p")
  case True
  from prep(1) have "requested_notional q \<noteq> 0" "at_requested_notional (pe_attempt p) = requested_notional q"
    by (auto simp: prepare_execution_eq_Ok)
  then have n: "notional_if_allowed (pe_attempt p) = unat (requested_notional q)" "0 < unat (requested_notional q)"
    using True prepared_flags(1)[OF prep(1)] by (simp_all add: unat_gt_0)
  have "allowed_spend (ru_execution rt) c (unat (requested_notional q))"
    unfolding allowed_spend_def using prep True by blast
  with n execute_prepared_spends[OF run assms(2)] show ?thesis by metis
next
  case False
  with run have "en_net w' = en_net w" using execute_prepared_reaches[OF run] by blast
  with False prepared_flags(1)[OF prep(1)] execute_prepared_spends[OF run assms(2)] show ?thesis by auto
qed

lemma decision_spend:
  assumes "act_on_decision rt at_time out d w = (r, w')" "spent_is c w"
  shows "spent_is c w' \<and> en_net w' = en_net w \<or> (\<exists>n>0. spent_is (c + n) w' \<and> allowed_spend (ru_execution rt) c n)"
  using assms(1)[unfolded act_on_decision_def Let_def]
proof (cases rule: act_bind_split)
  case (continues mp w1)
  note w1 = prepare_from_store_spent[OF continues(1) assms(2)] on_store_net[OF continues(1)]
  from continues(2) show ?thesis
  proof (cases rule: act_bind_split)
    case (continues run_id w2)
    note w2 = keepsD[OF spent_on_store[OF persist_decision_run_neutral] w1(1) continues(1)] on_store_net[OF continues(1)]
    show ?thesis
    proof (cases "\<exists>q p. build_execution_request (po_opportunity out) d = Some q \<and> mp = Some p")
      case True
      then obtain q p where qp: "build_execution_request (po_opportunity out) d = Some q" "mp = Some p" by auto
      with w1(2) obtain daily where "unat daily = c" "prepare_execution (ru_execution rt) q (po_simulation out) daily = Ok p"
        by auto
      moreover from continues(2) qp have "execute_prepared rt at_time q p run_id w2 = (r, w')" by simp
      ultimately show ?thesis using execute_allowed_spend w1(3) w2 by metis
    next
      case False
      with continues(2) w1(3) w2 show ?thesis by (auto simp: ret_def split: option.splits)
    qed
  next
    case (stops v)
    with keepsD[OF spent_on_store[OF persist_decision_run_neutral] w1(1) stops(1)] on_store_net[OF stops(1)] w1(3)
    show ?thesis by simp
  qed
next
  case (stops v)
  with prepare_from_store_spent(1)[OF stops(1) assms(2)] on_store_net[OF stops(1)] show ?thesis by simp
qed

lemma output_spend:
  assumes "maybe_log_decision_output rt at_time mo w = (r, w')" "spent_is c w"
  shows "spent_is c w' \<and> en_net w' = en_net w \<or> (\<exists>n>0. spent_is (c + n) w' \<and> allowed_spend (ru_execution rt) c n)"
proof (cases mo)
  case (Some out)
  obtain d s where "assess (ru_sha256 rt) (ru_policy rt) (in_file_exists at_time) (in_risk at_time)
      (po_opportunity out) (po_simulation out) (en_risk w) = (d, s)" by fastforce
  with assms(1) Some have "act_on_decision rt at_time out d (w\<lparr>en_risk := s\<rparr>) = (r, w')"
    by (simp add: maybe_log_decision_output_def act_bind_def assess_output_def)
  moreover from assms(2) have "spent_is c (w\<lparr>en_risk := s\<rparr>)" by (simp add: spent_is_def)
  ultimately show ?thesis using decision_spend by fastforce
qed (use assms in \<open>simp add: maybe_log_decision_output_def ret_def\<close>)

lemma step_spend:
  assumes "engine_step rt at_time event w = (r, w')" "spent_is c w"
  shows "spent_is c w' \<and> en_net w' = en_net w \<or> (\<exists>n>0. spent_is (c + n) w' \<and> allowed_spend (ru_execution rt) c n)"
proof -
  obtain v w1 where v: "handle_event rt event w = (v, w1)" by fastforce
  have w1: "spent_is c w1" "en_net w1 = en_net w"
    using keepsD[OF spent_handle_event assms(2) v] keepsD[OF quiet_handle_event _ v, of "en_net w" "en_risk w"]
    by (simp_all add: quiet_def)
  show ?thesis
  proof (cases v)
    case (Ok mo)
    with assms(1) v obtain r' where "maybe_log_decision_output rt at_time mo w1 = (r', w')"
      by (auto simp: engine_step_def act_bind_def act_err_def split: prod.splits)
    from output_spend[OF this w1(1)] w1(2) show ?thesis by simp
  qed (use assms(1) v w1 in \<open>auto simp: engine_step_def act_bind_def act_err_def\<close>)
qed

section \<open>The life of the service\<close>

text \<open>Events, restarts (everything but the database is lost) and the database's clock moving on,
  in any order.  An event may end in an error or a panic; the service then goes on from the
  state it left behind.\<close>

inductive service_run :: "'w runtime \<Rightarrow> 'w engine \<Rightarrow> 'w engine \<Rightarrow> bool" for rt where
  start: "service_run rt w w"
| event: "service_run rt w w1 \<Longrightarrow> engine_step rt at_time e w1 = (r, w2) \<Longrightarrow> service_run rt w w2"
| restart: "service_run rt w w1 \<Longrightarrow> en_store w2 = en_store w1 \<Longrightarrow> service_run rt w w2"
| midnight: "service_run rt w w1 \<Longrightarrow> en_store w1 = Some d \<Longrightarrow> db_day d \<le> day \<Longrightarrow>
    service_run rt w (w1\<lparr>en_store := Some (d\<lparr>db_day := day\<rparr>)\<rparr>)"

lemma later_day_spends_less:
  assumes "db_day d \<le> day"
  shows "spent_today (d\<lparr>db_day := day\<rparr>) \<le> spent_today d"
proof -
  have "sum_list (map row_notional (filter (\<lambda>r. ar_submission_allowed r \<and> day \<le> ar_observed_day r) rs)) \<le>
      sum_list (map row_notional (filter (\<lambda>r. ar_submission_allowed r \<and> db_day d \<le> ar_observed_day r) rs))" for rs
    using assms by (induction rs) auto
  then show ?thesis by (simp add: spent_today_def counted_today_def)
qed

definition canary_capped :: "ExecutionConfig \<Rightarrow> Amount \<Rightarrow> bool" where
  "canary_capped config cap \<longleftrightarrow> ex_mode config = Canary \<and>
    (\<exists>text. ex_canary_max_daily_wei config = Some text \<and> parse_uint text = Some cap)"

lemma allowed_spend_capped: "canary_capped config cap \<Longrightarrow> allowed_spend config c n \<Longrightarrow> c + n \<le> unat cap"
  by (auto simp: canary_capped_def allowed_spend_def prepare_execution_eq_Ok submission_policy_allowed)

lemma service_run_capped:
  assumes "service_run rt w w'" "canary_capped (ru_execution rt) cap"
    and "store_wf (en_store w)" "store_spent (en_store w) \<le> unat cap"
  shows "store_wf (en_store w') \<and> store_spent (en_store w') \<le> unat cap"
  using assms(1,3,4)
proof (induction rule: service_run.induct)
  case (event w w1 at_time e r w2)
  then have "spent_is (store_spent (en_store w1)) w1" by (simp add: spent_is_def at_spent_def)
  from step_spend[OF event(2) this] event allowed_spend_capped[OF assms(2)] show ?case
    by (auto simp: spent_is_def at_spent_def)
next
  case (midnight w w1 d day)
  then show ?case
    using later_day_spends_less[OF midnight(3)] by (auto simp: store_wf_def store_spent_def db_wf_def)
qed auto

text \<open>C2: in canary mode the configured daily limit is never exceeded.  Starting from a database
  within the limit, whatever events, database faults, panics, restarts and changes of day
  follow, the notional of the attempts allowed today stays within the limit; and an event that
  reaches the transport at all has, by then, been added to that sum.\<close>

theorem canary_daily_cap_holds:
  assumes "canary_capped (ru_execution rt) cap" "store_wf (en_store w)" "store_spent (en_store w) \<le> unat cap"
    and "service_run rt w w1" "engine_step rt at_time e w1 = (r, w2)"
  shows "store_spent (en_store w1) \<le> store_spent (en_store w2) \<and> store_spent (en_store w2) \<le> unat cap \<and>
    (en_net w2 \<noteq> en_net w1 \<longrightarrow> store_spent (en_store w1) < store_spent (en_store w2))"
proof -
  from service_run_capped[OF assms(4,1-3)] have "spent_is (store_spent (en_store w1)) w1"
    by (simp add: spent_is_def at_spent_def)
  from step_spend[OF assms(5) this] show ?thesis
    using service_run_capped[OF service_run.event[OF assms(4,5)] assms(1-3)]
    by (auto simp: spent_is_def at_spent_def)
qed


definition canary_runtime :: "nat runtime" where
  "canary_runtime = live_runtime\<lparr>ru_execution := sample_exec_config\<lparr>ex_mode := Canary,
    ex_canary_max_trade_wei := Some ''12000'', ex_canary_max_daily_wei := Some ''15000''\<rparr>\<rparr>"

definition canary_engine :: "nat engine" where
  "canary_engine = live_engine\<lparr>en_store := Some empty_db\<rparr>"

lemma canary_limits: "parse_uint ''12000'' = Some (12000 :: Amount)" "parse_uint ''15000'' = Some (15000 :: Amount)"
  by (simp_all add: from_str_radix_def word_of_nat_checked_def digit_val_def)

lemma canary_runtime_capped: "canary_capped (ru_execution canary_runtime) 15000"
  by (simp add: canary_capped_def canary_runtime_def canary_limits)

lemma empty_store: "store_wf (Some empty_db)" "store_spent (Some empty_db) = 0"
  by (simp_all add: store_wf_def store_spent_def empty_db_def db_wf_def spent_today_def counted_today_def)

theorem canary_daily_cap_holds_witness:
  "\<exists>r w2. canary_capped (ru_execution canary_runtime) 15000 \<and> service_run canary_runtime canary_engine canary_engine \<and>
    engine_step canary_runtime sample_instants (Event_Log sample_sync_log) canary_engine = (r, w2) \<and>
    store_spent (en_store w2) \<le> 15000"
proof -
  obtain r w2 where run: "engine_step canary_runtime sample_instants (Event_Log sample_sync_log) canary_engine = (r, w2)"
    by fastforce
  have store: "store_wf (en_store canary_engine)" "store_spent (en_store canary_engine) \<le> unat (15000 :: Amount)"
    by (simp_all add: canary_engine_def empty_store)
  from canary_daily_cap_holds[OF canary_runtime_capped store service_run.start run] run canary_runtime_capped
  show ?thesis by (auto intro: service_run.start)
qed

section \<open>Without a database\<close>

text \<open>One request prepared and stored, as \<open>maybe_log_decision_output\<close> does it.\<close>

definition prepare_and_store ::
  "'w runtime \<Rightarrow> SimulationResult \<Rightarrow> ExecutionRequest \<Rightarrow> (storage, string, PreparedExecution option) act" where
  "prepare_and_store rt sim q =
    act_bind (prepare_from_store rt sim (Some q)) (\<lambda>prepared.
    case prepared of
      None \<Rightarrow> ret None
    | Some p \<Rightarrow> act_bind (persist_execution_attempt None (pe_attempt p) q) (\<lambda>_. ret prepared))"

fun prepare_repeatedly ::
  "nat \<Rightarrow> 'w runtime \<Rightarrow> SimulationResult \<Rightarrow> ExecutionRequest \<Rightarrow> (storage, string, PreparedExecution option list) act" where
  "prepare_repeatedly 0 rt sim q = ret []"
| "prepare_repeatedly (Suc k) rt sim q =
    act_bind (prepare_and_store rt sim q) (\<lambda>prepared.
    act_bind (prepare_repeatedly k rt sim q) (\<lambda>rest. ret (prepared # rest)))"

lemma prepare_and_store_disabled:
  "prepare_execution (ru_execution rt) q sim 0 = Ok p \<Longrightarrow> prepare_and_store rt sim q None = (Ok (Some p), None)"
  by (simp add: prepare_and_store_def prepare_from_store_def act_bind_def act_err_def lift_def ret_def
      todays_submittable_notional_wei_def with_pool_def persist_execution_attempt_def)

lemma prepare_repeatedly_disabled:
  assumes "prepare_execution (ru_execution rt) q sim 0 = Ok p"
  shows "prepare_repeatedly k rt sim q None = (Ok (replicate k (Some p)), None)"
  by (induction k) (simp_all add: ret_def prepare_and_store_disabled[OF assms])

text \<open>C40: without a database the canary daily limit is not enforced.  The sum is then always read as
  zero, so a request that fits the limit once is allowed every time it is prepared: there is
  a number of preparations, all allowed, whose total notional exceeds the limit.\<close>

theorem canary_cap_unenforced_without_database:
  assumes "canary_capped (ru_execution rt) cap"
    and "prepare_execution (ru_execution rt) q sim 0 = Ok p" "pe_should_submit p"
  shows "\<exists>k. prepare_repeatedly k rt sim q None = (Ok (replicate k (Some p)), None) \<and>
    unat cap < k * unat (at_requested_notional (pe_attempt p))"
proof -
  from assms(2) have "0 < unat (at_requested_notional (pe_attempt p))"
    by (auto simp: prepare_execution_eq_Ok unat_gt_0)
  then have "unat cap < Suc (unat cap) * unat (at_requested_notional (pe_attempt p))"
    by (cases "unat (at_requested_notional (pe_attempt p))") auto
  with prepare_repeatedly_disabled[OF assms(2)] show ?thesis by blast
qed

lemma canary_prepared:
  "\<exists>p. prepare_execution (ru_execution canary_runtime) live_request live_sim 0 = Ok p \<and> pe_should_submit p \<and>
    at_requested_notional (pe_attempt p) = 10000"
  by (simp add: canary_runtime_def prepare_execution_def live_request_eq live_sim_eq sample_exec_config_def
      padded_gas_limit_eq parse_optional_amount_def parse_required_amount_def sample_amounts submission_policy_def
      live_opp_def canary_limits word_eval)

theorem canary_cap_unenforced_without_database_witness:
  "canary_capped (ru_execution canary_runtime) 15000 \<and>
    (\<exists>p k. prepare_execution (ru_execution canary_runtime) live_request live_sim 0 = Ok p \<and> pe_should_submit p \<and>
      prepare_repeatedly k canary_runtime live_sim live_request None = (Ok (replicate k (Some p)), None) \<and>
      15000 < k * unat (10000 :: Amount))"
proof -
  obtain p where p: "prepare_execution (ru_execution canary_runtime) live_request live_sim 0 = Ok p"
    "pe_should_submit p" "at_requested_notional (pe_attempt p) = 10000"
    using canary_prepared by blast
  from canary_cap_unenforced_without_database[OF canary_runtime_capped p(1,2)] p canary_runtime_capped
  show ?thesis by auto
qed

section \<open>Handling an event is total\<close>

lemma persist_observed_log_not_Panic: "persist_observed_log sj h lg s \<noteq> (Panic, s')"
  by (auto simp: persist_observed_log_def with_pool_def act_bind_eq_Panic lift_eq query_not_Panic ret_eq
      split: option.splits prod.splits)

lemma scan_book_total:
  assumes "book_wf book"
  shows "\<exists>out. scan_book rt l i book = Ok out"
  by (simp add: scan_book_def detect_from_book_eq[OF assms] split: option.split list.split)

text \<open>C31: handling a log is total on every book the engine can hold.  It never panics, leaves a
  well-formed book, and fails for one of two reasons only: the log could not be stored, or the
  pool it addresses refused it; the search for opportunities and their simulation never fail.\<close>

theorem event_handling_total:
  assumes "book_wf (en_book w)" "handle_event rt (Event_Log l) w = (r, w')"
  shows "book_wf (en_book w') \<and> r \<noteq> Panic \<and>
    (\<forall>e. r = Err e \<longrightarrow> e = ''failed to persist observed log'' \<or>
      (\<exists>m. snd (book_apply_log (ru_parse_u256 rt) l (en_book w)) = Err m \<and> e = market_error_text m))"
proof -
  obtain u s where u: "persist_observed_log (ru_serde rt) (\<lambda>s. concat (map hex_byte (ru_sha256 rt s))) l (en_store w) = (u, s)"
    by fastforce
  obtain book v where b: "book_apply_log (ru_parse_u256 rt) l (en_book w) = (book, v)" by fastforce
  note wf = book_apply_log_wf[OF b assms(1)]
  from b have v: "v \<noteq> Panic" by (cases rule: book_apply_log_cases) auto
  show ?thesis
  proof (cases u)
    case (Ok log_id)
    with assms(2) u b v wf scan_book_total[OF wf, of rt l log_id] show ?thesis
      by (cases v) (auto simp: handle_event_def act_bind_def act_err_def on_store_def act_zoom_def ret_def split: if_splits)
  next
    case (Err e)
    with assms u show ?thesis by (auto simp: handle_event_def act_bind_def act_err_def on_store_def act_zoom_def)
  next
    case Panic
    with u persist_observed_log_not_Panic show ?thesis by blast
  qed
qed

theorem event_handling_total_witness:
  "\<exists>r w'. book_wf (en_book canary_engine) \<and> handle_event canary_runtime (Event_Log sample_sync_log) canary_engine = (r, w') \<and>
    book_wf (en_book w') \<and> r \<noteq> Panic"
proof -
  obtain r w' where run: "handle_event canary_runtime (Event_Log sample_sync_log) canary_engine = (r, w')" by fastforce
  have wf: "book_wf (en_book canary_engine)"
    by (simp add: canary_engine_def live_engine_def sample_books_wf)
  from event_handling_total[OF wf run] wf run show ?thesis by blast
qed

end
