(* ===== verification/Registry.thy ===== *)
theory Registry
  imports Types Rust_Strings
begin

text \<open>
  The protocol and exchange tables (\<open>src/crates/registry/src\<close>): known addresses, event
  signatures and call selectors, the normalisation of the keys, and the resolution of a
  transaction or a log, where what the address says wins over what the signature says.
\<close>

datatype AddressType = Router | Factory | PositionManager | PoolManager | Bonding | Token

record RegistryMatch =
  rm_protocol :: "Protocol option"
  rm_exchange :: "Exchange option"

definition match_empty :: RegistryMatch where
  "match_empty = \<lparr>rm_protocol = None, rm_exchange = None\<rparr>"

definition or_else :: "'a option \<Rightarrow> 'a option \<Rightarrow> 'a option" where
  "or_else a b = (case a of None \<Rightarrow> b | Some x \<Rightarrow> Some x)"

definition match_merge :: "RegistryMatch \<Rightarrow> RegistryMatch \<Rightarrow> RegistryMatch" where
  "match_merge m fallback =
    \<lparr>rm_protocol = or_else (rm_protocol m) (rm_protocol fallback),
     rm_exchange = or_else (rm_exchange m) (rm_exchange fallback)\<rparr>"

record AddressMetadata =
  am_address :: string
  am_protocol :: "Protocol option"
  am_exchange :: "Exchange option"
  am_address_type :: AddressType
  am_label :: string

definition ADDRESS_BOOK :: "AddressMetadata list" where
  "ADDRESS_BOOK =
    [\<lparr>am_address = ''0x4752ba5dbc23f44d87826276bf6fd6b1c372ad24'', am_protocol = Some UniswapV2, am_exchange = None,
      am_address_type = Router, am_label = ''Uniswap V2 Router02''\<rparr>,
     \<lparr>am_address = ''0x2626664c2603336e57b271c5c0b26f421741e481'', am_protocol = Some UniswapV3, am_exchange = None,
      am_address_type = Router, am_label = ''Uniswap V3 SwapRouter02''\<rparr>,
     \<lparr>am_address = ''0x198ef79f1f515f02dfe9e3115ed9fc07183f02fc'', am_protocol = Some UniswapV4, am_exchange = None,
      am_address_type = Router, am_label = ''Uniswap Universal Router 2''\<rparr>,
     \<lparr>am_address = ''0x33128a8fc17869897dce68ed026d694621f6fdfd'', am_protocol = Some UniswapV3, am_exchange = None,
      am_address_type = Factory, am_label = ''Uniswap V3 Factory''\<rparr>,
     \<lparr>am_address = ''0xfda619b6d20975be80a10332cd39b9a4b0faa8bb'', am_protocol = Some UniswapV2, am_exchange = Some BaseSwap,
      am_address_type = Factory, am_label = ''BaseSwap Factory''\<rparr>,
     \<lparr>am_address = ''0x327df1e6de05895d2ab08513aadd9313fe505d86'', am_protocol = Some UniswapV2, am_exchange = Some BaseSwap,
      am_address_type = Router, am_label = ''BaseSwap Router''\<rparr>,
     \<lparr>am_address = ''0x3e84d913803b02a4a7f027165e8ca42c14c0fde7'', am_protocol = Some UniswapV2, am_exchange = Some AlienBase,
      am_address_type = Factory, am_label = ''AlienBase Factory''\<rparr>,
     \<lparr>am_address = ''0x8c1a3cf8f83074169fe5d7ad50b978e1cd6b37c7'', am_protocol = Some UniswapV2, am_exchange = Some AlienBase,
      am_address_type = Router, am_label = ''AlienBase Router''\<rparr>,
     \<lparr>am_address = ''0x0fd83557b2be93617c9c1c1b6fd549401c74558c'', am_protocol = Some UniswapV3, am_exchange = Some AlienBase,
      am_address_type = Factory, am_label = ''AlienBase Uniswap V3 Factory''\<rparr>,
     \<lparr>am_address = ''0xb20c411fc84fbb27e78608c24d0056d974ea9411'', am_protocol = Some UniswapV3, am_exchange = Some AlienBase,
      am_address_type = Router, am_label = ''AlienBase V3 Smart Router''\<rparr>,
     \<lparr>am_address = ''0xcf77a3ba9a5ca399b7c97c74d54e5b1beb874e43'', am_protocol = Some Protocol_Aerodrome, am_exchange = Some Exchange_Aerodrome,
      am_address_type = Router, am_label = ''Aerodrome Router''\<rparr>,
     \<lparr>am_address = ''0x6cb442acf35158d5eda88fe602221b67b400be3e'', am_protocol = Some Protocol_Aerodrome, am_exchange = Some Exchange_Aerodrome,
      am_address_type = Router, am_label = ''Aerodrome Universal Router''\<rparr>,
     \<lparr>am_address = ''0x678aa4bf4e210cf2166753e054d5b7c31cc7fa86'', am_protocol = Some UniswapV3, am_exchange = Some PancakeSwap,
      am_address_type = Router, am_label = ''PancakeSwap V3 Smart Router''\<rparr>,
     \<lparr>am_address = ''0xf66dea7b3e897cd44a5a231c61b6b4423d613259'', am_protocol = Some Protocol_Virtuals, am_exchange = Some Exchange_Virtuals,
      am_address_type = Bonding, am_label = ''Virtuals Bonding Proxy''\<rparr>,
     \<lparr>am_address = ''0x0b3e328455c4059eeb9e3f84b5543f74e24e7e1b'', am_protocol = Some Protocol_Virtuals, am_exchange = Some Exchange_Virtuals,
      am_address_type = Token, am_label = ''Virtuals Token''\<rparr>]"

record EventSignatureEntry =
  se_signature :: string
  se_protocol :: "Protocol option"
  se_exchange :: "Exchange option"

definition EVENT_SIGNATURE_ENTRIES :: "EventSignatureEntry list" where
  "EVENT_SIGNATURE_ENTRIES =
    [\<lparr>se_signature = ''0xd78ad95fa46c994b6551d0da85fc275fe613ce37657fb8d5e3d130840159d822'', se_protocol = Some UniswapV2, se_exchange = None\<rparr>,
     \<lparr>se_signature = ''0x1c411e9a96e071241c2f21f7726b17ae89e3cab4c78be50e062b03a9fffbbad1'', se_protocol = Some UniswapV2, se_exchange = None\<rparr>,
     \<lparr>se_signature = ''0x4c209b5fc8ad50758f13e2e108bdbdff36c9b4a5d2f30f6a7c2a25d13f0f5e6d'', se_protocol = Some UniswapV2, se_exchange = None\<rparr>,
     \<lparr>se_signature = ''0xdccd412f0b1252819a70d2cd3248e4723d18f7e41ee2b5f7f8ef4e3d5be2f4d8'', se_protocol = Some UniswapV2, se_exchange = None\<rparr>,
     \<lparr>se_signature = ''0xc42079f94a6350d7e6235f29174924f928cc2ac818eb64fed8004e115fbcca67'', se_protocol = Some UniswapV3, se_exchange = None\<rparr>]"

record SelectorEntry =
  sl_selector :: string
  sl_protocol :: "Protocol option"
  sl_exchange :: "Exchange option"

definition SELECTOR_ENTRIES :: "SelectorEntry list" where
  "SELECTOR_ENTRIES =
    [\<lparr>sl_selector = ''0x38ed1739'', sl_protocol = Some UniswapV2, sl_exchange = None\<rparr>,
     \<lparr>sl_selector = ''0x8803dbee'', sl_protocol = Some UniswapV2, sl_exchange = None\<rparr>,
     \<lparr>sl_selector = ''0x7ff36ab5'', sl_protocol = Some UniswapV2, sl_exchange = None\<rparr>,
     \<lparr>sl_selector = ''0xfb3bdb41'', sl_protocol = Some UniswapV2, sl_exchange = None\<rparr>,
     \<lparr>sl_selector = ''0x18cbafe5'', sl_protocol = Some UniswapV2, sl_exchange = None\<rparr>,
     \<lparr>sl_selector = ''0x4a25d94a'', sl_protocol = Some UniswapV2, sl_exchange = None\<rparr>,
     \<lparr>sl_selector = ''0x5c11d795'', sl_protocol = Some UniswapV2, sl_exchange = None\<rparr>,
     \<lparr>sl_selector = ''0xb6f9de95'', sl_protocol = Some UniswapV2, sl_exchange = None\<rparr>,
     \<lparr>sl_selector = ''0x791ac947'', sl_protocol = Some UniswapV2, sl_exchange = None\<rparr>,
     \<lparr>sl_selector = ''0x414bf389'', sl_protocol = Some UniswapV3, sl_exchange = None\<rparr>,
     \<lparr>sl_selector = ''0xc04b8d59'', sl_protocol = Some UniswapV3, sl_exchange = None\<rparr>,
     \<lparr>sl_selector = ''0xdb3e2198'', sl_protocol = Some UniswapV3, sl_exchange = None\<rparr>,
     \<lparr>sl_selector = ''0xf28c0498'', sl_protocol = Some UniswapV3, sl_exchange = None\<rparr>,
     \<lparr>sl_selector = ''0xac9650d8'', sl_protocol = Some UniswapV3, sl_exchange = None\<rparr>,
     \<lparr>sl_selector = ''0x3593564c'', sl_protocol = Some UniswapV4, sl_exchange = None\<rparr>,
     \<lparr>sl_selector = ''0x24856bc3'', sl_protocol = Some UniswapV4, sl_exchange = None\<rparr>]"

definition is_ascii_hexdigit :: "char \<Rightarrow> bool" where
  "is_ascii_hexdigit c = (let n = of_char c :: nat in 48 \<le> n \<and> n \<le> 57 \<or> 65 \<le> n \<and> n \<le> 70 \<or> 97 \<le> n \<and> n \<le> 102)"

definition normalize_hex :: "string \<Rightarrow> string option" where
  "normalize_hex value =
    (let trimmed = trim value;
         hex = (case strip_prefix ''0x'' trimmed of Some h \<Rightarrow> h | None \<Rightarrow> trimmed)
     in if hex = [] \<or> \<not> list_all is_ascii_hexdigit hex then None
        else Some (''0x'' @ to_ascii_lowercase hex))"

definition address_metadata :: "string \<Rightarrow> AddressMetadata option" where
  "address_metadata address =
    Option.bind (normalize_hex address) (\<lambda>normalized. find (\<lambda>entry. am_address entry = normalized) ADDRESS_BOOK)"

definition protocol_from_address :: "string \<Rightarrow> Protocol option" where
  "protocol_from_address address = Option.bind (address_metadata address) am_protocol"

definition exchange_from_address :: "string \<Rightarrow> Exchange option" where
  "exchange_from_address address = Option.bind (address_metadata address) am_exchange"

definition event_signature_entry :: "string \<Rightarrow> EventSignatureEntry option" where
  "event_signature_entry s =
    Option.bind (normalize_hex s) (\<lambda>normalized. find (\<lambda>entry. se_signature entry = normalized) EVENT_SIGNATURE_ENTRIES)"

definition protocol_from_event_signature :: "string \<Rightarrow> Protocol option" where
  "protocol_from_event_signature s = Option.bind (event_signature_entry s) se_protocol"

definition exchange_from_event_signature :: "string \<Rightarrow> Exchange option" where
  "exchange_from_event_signature s = Option.bind (event_signature_entry s) se_exchange"

definition selector_entry :: "string \<Rightarrow> SelectorEntry option" where
  "selector_entry s =
    Option.bind (normalize_hex s) (\<lambda>normalized. find (\<lambda>entry. sl_selector entry = normalized) SELECTOR_ENTRIES)"

definition protocol_from_selector :: "string \<Rightarrow> Protocol option" where
  "protocol_from_selector s = Option.bind (selector_entry s) sl_protocol"

definition exchange_from_selector :: "string \<Rightarrow> Exchange option" where
  "exchange_from_selector s = Option.bind (selector_entry s) sl_exchange"

definition resolve_transaction :: "string option \<Rightarrow> string option \<Rightarrow> RegistryMatch" where
  "resolve_transaction selector to =
    match_merge
      \<lparr>rm_protocol = Option.bind to protocol_from_address, rm_exchange = Option.bind to exchange_from_address\<rparr>
      \<lparr>rm_protocol = Option.bind selector protocol_from_selector,
       rm_exchange = Option.bind selector exchange_from_selector\<rparr>"

definition resolve_log :: "string option \<Rightarrow> string option \<Rightarrow> RegistryMatch" where
  "resolve_log event_signature address =
    match_merge
      \<lparr>rm_protocol = Option.bind address protocol_from_address, rm_exchange = Option.bind address exchange_from_address\<rparr>
      \<lparr>rm_protocol = Option.bind event_signature protocol_from_event_signature,
       rm_exchange = Option.bind event_signature exchange_from_event_signature\<rparr>"

section \<open>Every entry is found, however its key is spelled\<close>

lemma find_unique_key:
  assumes "distinct (map key es)" "e \<in> set es"
  shows "find (\<lambda>x. key x = key e) es = Some e"
  using assms by (induction es) (auto dest: imageI[where f = key])

lemma white_space_no_hexdigit: "list_all (\<lambda>c. \<not> is_ascii_hexdigit c \<and> c \<noteq> CHR ''x'') (concat white_space)"
  by code_simp

lemma hexdigit_not_ws: "is_ascii_hexdigit c \<Longrightarrow> \<not> ws_byte c" "\<not> ws_byte (CHR ''x'')"
  using white_space_no_hexdigit unfolding ws_byte_def list_all_iff by blast+

lemma hexdigit_not_x: "is_ascii_hexdigit c \<Longrightarrow> c \<noteq> CHR ''x''"
  by (auto simp: is_ascii_hexdigit_def)

lemma hexdigit_lower: "is_ascii_hexdigit (lower_char c) \<Longrightarrow> is_ascii_hexdigit c"
  using of_char_lower_char[of c] by (auto simp: is_ascii_hexdigit_def Let_def split: if_splits)

lemma address_keys_distinct: "distinct (map am_address ADDRESS_BOOK)"
  by code_simp

lemma address_keys_normal:
  "list_all (\<lambda>e. take 2 (am_address e) = ''0x'' \<and> drop 2 (am_address e) \<noteq> [] \<and>
    list_all is_ascii_hexdigit (drop 2 (am_address e))) ADDRESS_BOOK"
  by code_simp

lemma normalize_hex_spelled:
  assumes "h \<noteq> []" "list_all is_ascii_hexdigit h"
  shows "normalize_hex (''0x'' @ h) = Some (''0x'' @ to_ascii_lowercase h)"
    "normalize_hex h = Some (''0x'' @ to_ascii_lowercase h)"
proof -
  have no_x: "CHR ''x'' \<notin> set h" and ws: "\<forall>c \<in> set h. \<not> ws_byte c"
    using assms(2) hexdigit_not_ws(1) hexdigit_not_x by (auto simp: list_all_iff)
  have "\<not> ws_byte (CHR ''0'')" by (rule hexdigit_not_ws(1)) (simp add: is_ascii_hexdigit_def)
  with ws assms(1) have "trim (''0x'' @ h) = ''0x'' @ h" "trim h = h" by (auto intro!: trim_id)
  moreover have "strip_prefix ''0x'' h = None"
  proof (rule ccontr)
    assume "strip_prefix ''0x'' h \<noteq> None"
    then have "take 2 h = ''0x''" by (auto simp: strip_prefix_def numeral_2_eq_2 split: if_splits)
    then have "CHR ''x'' \<in> set (take 2 h)" by simp
    with no_x set_take_subset show False by fastforce
  qed
  ultimately show "normalize_hex (''0x'' @ h) = Some (''0x'' @ to_ascii_lowercase h)"
    "normalize_hex h = Some (''0x'' @ to_ascii_lowercase h)"
    using assms by (simp_all add: normalize_hex_def strip_prefix_def Let_def)
qed

lemma address_metadata_spelled:
  assumes "e \<in> set ADDRESS_BOOK" "to_ascii_lowercase h = drop 2 (am_address e)"
  shows "address_metadata (''0x'' @ h) = Some e" "address_metadata h = Some e"
proof -
  have e: "take 2 (am_address e) = ''0x''" "drop 2 (am_address e) \<noteq> []"
    "list_all is_ascii_hexdigit (drop 2 (am_address e))"
    using address_keys_normal assms(1) by (auto simp: list_all_iff)
  have "list_all is_ascii_hexdigit (to_ascii_lowercase h)" using e(3) assms(2) by simp
  then have "list_all is_ascii_hexdigit h" by (auto simp: list_all_iff to_ascii_lowercase_def dest: hexdigit_lower)
  moreover have "h \<noteq> []" using e(2) assms(2) by auto
  moreover have "''0x'' @ to_ascii_lowercase h = am_address e"
    using e(1) assms(2) by (metis append_take_drop_id)
  ultimately show "address_metadata (''0x'' @ h) = Some e" "address_metadata h = Some e"
    using normalize_hex_spelled find_unique_key[OF address_keys_distinct assms(1)]
    by (simp_all add: address_metadata_def)
qed

text \<open>A log or transaction of a known contract is classified by its address, in any letter case
  and with or without the leading 0x; the event signature or selector only fills in what the
  address entry leaves open.\<close>

theorem known_address_wins:
  assumes "e \<in> set ADDRESS_BOOK" "to_ascii_lowercase h = drop 2 (am_address e)" "spelled \<in> {''0x'' @ h, h}"
  shows "resolve_log sig (Some spelled) =
      match_merge \<lparr>rm_protocol = am_protocol e, rm_exchange = am_exchange e\<rparr> (resolve_log sig None) \<and>
    resolve_transaction sel (Some spelled) =
      match_merge \<lparr>rm_protocol = am_protocol e, rm_exchange = am_exchange e\<rparr> (resolve_transaction sel None)"
proof -
  have "address_metadata spelled = Some e" using address_metadata_spelled[OF assms(1,2)] assms(3) by auto
  then show ?thesis
    by (simp add: resolve_log_def resolve_transaction_def protocol_from_address_def exchange_from_address_def
        match_merge_def or_else_def split: option.splits)
qed


theorem known_address_wins_witness:
  "resolve_log None (Some ''0x4752BA5DBC23F44D87826276BF6FD6B1C372AD24'') = \<lparr>rm_protocol = Some UniswapV2, rm_exchange = None\<rparr>"
proof -
  let ?e = "hd ADDRESS_BOOK" and ?h = "''4752BA5DBC23F44D87826276BF6FD6B1C372AD24''"
  have e: "?e \<in> set ADDRESS_BOOK" by (simp add: ADDRESS_BOOK_def)
  have h: "to_ascii_lowercase ?h = drop 2 (am_address ?e)" by code_simp
  have "am_protocol ?e = Some UniswapV2" "am_exchange ?e = None" by (simp_all add: ADDRESS_BOOK_def)
  with known_address_wins[OF e h, of "''0x'' @ ?h" None None] show ?thesis
    by (simp add: resolve_log_def match_merge_def or_else_def)
qed

end
