(* ===== verification/Raw.thy ===== *)
theory Raw
  imports Registry Signer Execution
begin

text \<open>
  Decoding of node messages (\<open>src/crates/ingest/src/raw\<close>): JSON objects into raw blocks,
  logs and transactions, and from there into the engine's events.  The JSON value is the
  library's tree; the ABI decoders generated from the Solidity declarations, the hex and
  address parsers and the decimal printers of the wide integers belong to an external crate
  and are the fields of \<open>abi\<close>.
\<close>

section \<open>JSON values\<close>

datatype Number = PosInt u64 | NegInt "64 word" | Float "64 word"

datatype Value =
    JNull
  | JBool bool
  | JNumber Number
  | JString string
  | JArray "Value list"
  | JObject "(string \<times> Value) list"

fun as_object :: "Value \<Rightarrow> (string \<times> Value) list option" where
  "as_object (JObject m) = Some m"
| "as_object _ = None"

fun as_str :: "Value \<Rightarrow> string option" where
  "as_str (JString s) = Some s"
| "as_str _ = None"

fun as_bool :: "Value \<Rightarrow> bool option" where
  "as_bool (JBool b) = Some b"
| "as_bool _ = None"

fun as_array :: "Value \<Rightarrow> Value list option" where
  "as_array (JArray vs) = Some vs"
| "as_array _ = None"

fun as_u64 :: "Number \<Rightarrow> u64 option" where
  "as_u64 (PosInt n) = Some n"
| "as_u64 _ = None"

definition string_field :: "(string \<times> Value) list \<Rightarrow> string \<Rightarrow> string option" where
  "string_field m key = Option.bind (map_of m key) as_str"

definition bool_field :: "(string \<times> Value) list \<Rightarrow> string \<Rightarrow> bool option" where
  "bool_field m key = Option.bind (map_of m key) as_bool"

definition parse_u64 :: "string \<Rightarrow> u64 option" where
  "parse_u64 raw =
    (case strip_prefix ''0x'' raw of Some hex \<Rightarrow> from_str_radix 16 hex | None \<Rightarrow> parse_uint raw)"

definition u64_field :: "(string \<times> Value) list \<Rightarrow> string \<Rightarrow> u64 option" where
  "u64_field m key =
    Option.bind (map_of m key) (\<lambda>v. case v of JString raw \<Rightarrow> parse_u64 raw | JNumber n \<Rightarrow> as_u64 n | _ \<Rightarrow> None)"

section \<open>External decoders\<close>

record V2SwapEvent =
  sw2_sender :: bytes
  sw2_to :: bytes
  sw2_amount0_in :: U256
  sw2_amount1_in :: U256
  sw2_amount0_out :: U256
  sw2_amount1_out :: U256

record V2LiquidityEvent =
  li2_sender :: bytes
  li2_to :: bytes
  li2_amount0 :: U256
  li2_amount1 :: U256

record V3SwapEvent =
  sw3_sender :: bytes
  sw3_recipient :: bytes
  sw3_amount0 :: U256
  sw3_amount1 :: U256
  sw3_sqrt_price_x96 :: "160 word"
  sw3_liquidity :: u128
  sw3_tick :: "24 word"

record V3LiquidityEvent =
  li3_sender :: bytes
  li3_owner :: bytes
  li3_tick_lower :: "24 word"
  li3_tick_upper :: "24 word"
  li3_amount :: u128
  li3_amount0 :: U256
  li3_amount1 :: U256

record ExactSingleParams =
  xs_token_in :: bytes
  xs_token_out :: bytes
  xs_recipient :: bytes
  xs_amount :: U256
  xs_limit :: U256

record ExactPathParams =
  xp_path :: bytes
  xp_recipient :: bytes
  xp_amount :: U256
  xp_limit :: U256

text \<open>The two amounts of a V2 router call are its first two arguments; the calls that take
  their input as value have one.\<close>

type_synonym v2_call = "bytes \<Rightarrow> (U256 \<times> U256 \<times> bytes list \<times> bytes) option"
type_synonym v2_eth_call = "bytes \<Rightarrow> (U256 \<times> bytes list \<times> bytes) option"

record abi =
  ab_topic :: "string \<Rightarrow> bytes option"
  ab_hex_decode :: "string \<Rightarrow> bytes option"
  ab_address :: "bytes \<Rightarrow> string"
  ab_show_u256 :: "U256 \<Rightarrow> string"
  ab_show_i256 :: "U256 \<Rightarrow> string"
  ab_show_u160 :: "160 word \<Rightarrow> string"
  ab_v3_mint_signature :: string
  ab_v3_burn_signature :: string
  ab_v2_swap :: "bytes list \<Rightarrow> bytes \<Rightarrow> V2SwapEvent option"
  ab_v2_sync :: "bytes list \<Rightarrow> bytes \<Rightarrow> (112 word \<times> 112 word) option"
  ab_v2_mint :: "bytes list \<Rightarrow> bytes \<Rightarrow> V2LiquidityEvent option"
  ab_v2_burn :: "bytes list \<Rightarrow> bytes \<Rightarrow> V2LiquidityEvent option"
  ab_v3_swap :: "bytes list \<Rightarrow> bytes \<Rightarrow> V3SwapEvent option"
  ab_v3_mint :: "bytes list \<Rightarrow> bytes \<Rightarrow> V3LiquidityEvent option"
  ab_v3_burn :: "bytes list \<Rightarrow> bytes \<Rightarrow> V3LiquidityEvent option"
  ab_tokens_for_tokens :: v2_call
  ab_tokens_for_tokens_fee :: v2_call
  ab_tokens_for_eth :: v2_call
  ab_tokens_for_eth_fee :: v2_call
  ab_eth_for_tokens :: v2_eth_call
  ab_eth_for_tokens_fee :: v2_eth_call
  ab_tokens_for_exact_tokens :: v2_call
  ab_tokens_for_exact_eth :: v2_call
  ab_eth_for_exact_tokens :: v2_eth_call
  ab_exact_input_single :: "bytes \<Rightarrow> ExactSingleParams option"
  ab_exact_input :: "bytes \<Rightarrow> ExactPathParams option"
  ab_exact_output_single :: "bytes \<Rightarrow> ExactSingleParams option"
  ab_exact_output :: "bytes \<Rightarrow> ExactPathParams option"

definition log_u256_to_u128 :: "U256 \<Rightarrow> u128 option" where
  "log_u256_to_u128 v = try_narrow v"

section \<open>Blocks\<close>

record RawBlockMessage =
  rb_block_hash :: "BlockHash option"
  rb_parent_hash :: "BlockHash option"
  rb_block_number :: "u64 option"
  rb_timestamp_secs :: "u64 option"

definition raw_block_from_value :: "Value \<Rightarrow> RawBlockMessage option" where
  "raw_block_from_value v =
    Option.bind (as_object v) (\<lambda>m.
    Some \<lparr>rb_block_hash = string_field m ''hash'', rb_parent_hash = string_field m ''parentHash'',
          rb_block_number = u64_field m ''number'', rb_timestamp_secs = u64_field m ''timestamp''\<rparr>)"

definition raw_block_context :: "RawBlockMessage \<Rightarrow> BlockContext" where
  "raw_block_context r = Block_At (case rb_block_number r of Some n \<Rightarrow> n | None \<Rightarrow> 0) (rb_block_hash r)"

definition to_block :: "RawBlockMessage \<Rightarrow> Metadata \<Rightarrow> Block" where
  "to_block r md =
    \<lparr>blk_metadata = md, blk_block_hash = rb_block_hash r, blk_parent_hash = rb_parent_hash r,
     blk_timestamp_secs = rb_timestamp_secs r\<rparr>"

section \<open>Logs\<close>

record RawLogMessage =
  rw_address :: "Address option"
  rw_topics :: "Topic list"
  rw_data :: "string option"
  rw_tx_hash :: "TxHash option"
  rw_block_hash :: "BlockHash option"
  rw_block_number :: "u64 option"
  rw_event_signature :: "string option"
  rw_protocol :: "Protocol option"
  rw_exchange :: "Exchange option"
  rw_log_index :: "u64 option"
  rw_removed :: "bool option"

definition topics_field :: "(string \<times> Value) list \<Rightarrow> Topic list" where
  "topics_field m =
    (case Option.bind (map_of m ''topics'') as_array of
       Some entries \<Rightarrow> List.map_filter as_str entries
     | None \<Rightarrow> [])"

definition raw_log_from_value :: "Value \<Rightarrow> RawLogMessage option" where
  "raw_log_from_value v =
    Option.bind (as_object v) (\<lambda>m.
    Some \<lparr>rw_address = string_field m ''address'', rw_topics = topics_field m, rw_data = string_field m ''data'',
          rw_tx_hash = string_field m ''transactionHash'', rw_block_hash = string_field m ''blockHash'',
          rw_block_number = u64_field m ''blockNumber'', rw_event_signature = string_field m ''eventSignature'',
          rw_protocol = None, rw_exchange = None, rw_log_index = u64_field m ''logIndex'',
          rw_removed = bool_field m ''removed''\<rparr>)"

definition raw_log_context :: "RawLogMessage \<Rightarrow> BlockContext" where
  "raw_log_context r =
    (case rw_block_number r of Some number \<Rightarrow> Block_At number (rw_block_hash r) | None \<Rightarrow> Pending)"

definition log_event_signature_of :: "RawLogMessage \<Rightarrow> string option" where
  "log_event_signature_of r =
    or_else (rw_event_signature r) (case rw_topics r of [] \<Rightarrow> None | t # _ \<Rightarrow> Some t)"

definition decode_topics :: "abi \<Rightarrow> Topic list \<Rightarrow> bytes list option" where
  "decode_topics ab topics = those (map (ab_topic ab) topics)"

definition decode_data :: "abi \<Rightarrow> string \<Rightarrow> bytes option" where
  "decode_data ab s = ab_hex_decode ab (case strip_prefix ''0x'' s of Some h \<Rightarrow> h | None \<Rightarrow> s)"

text \<open>The event with only the fields every arm sets.\<close>

definition blank_event ::
  "DecodedLogKind \<Rightarrow> Address option \<Rightarrow> Protocol option \<Rightarrow> Exchange option \<Rightarrow> DecodedLogEvent" where
  "blank_event kind pool protocol exchange =
    \<lparr>de_kind = kind, de_pool = pool, de_sender = None, de_recipient = None, de_owner = None,
     de_reserve0 = None, de_reserve1 = None, de_amount0_in = None, de_amount1_in = None,
     de_amount0_out = None, de_amount1_out = None, de_amount0 = None, de_amount1 = None,
     de_liquidity = None, de_sqrt_price_x96 = None, de_tick = None, de_tick_lower = None,
     de_tick_upper = None, de_protocol = protocol, de_exchange = exchange\<rparr>"

definition V2_SWAP :: string where
  "V2_SWAP = ''0xd78ad95fa46c994b6551d0da85fc275fe613ce37657fb8d5e3d130840159d822''"

definition V2_SYNC :: string where
  "V2_SYNC = ''0x1c411e9a96e071241c2f21f7726b17ae89e3cab4c78be50e062b03a9fffbbad1''"

definition V2_MINT :: string where
  "V2_MINT = ''0x4c209b5fc8ad50758f13e2e108bdbdff36c9b4a5d2f30f6a7c2a25d13f0f5e6d''"

definition V2_BURN :: string where
  "V2_BURN = ''0xdccd412f0b1252819a70d2cd3248e4723d18f7e41ee2b5f7f8ef4e3d5be2f4d8''"

definition V3_SWAP :: string where
  "V3_SWAP = ''0xc42079f94a6350d7e6235f29174924f928cc2ac818eb64fed8004e115fbcca67''"

definition decode_v2_swap_event :: "abi \<Rightarrow> bytes list \<Rightarrow> bytes \<Rightarrow> DecodedLogEvent \<Rightarrow> DecodedLogEvent option" where
  "decode_v2_swap_event ab topics data base =
    Option.bind (ab_v2_swap ab topics data) (\<lambda>event.
    Option.bind (log_u256_to_u128 (sw2_amount0_in event)) (\<lambda>a0i.
    Option.bind (log_u256_to_u128 (sw2_amount1_in event)) (\<lambda>a1i.
    Option.bind (log_u256_to_u128 (sw2_amount0_out event)) (\<lambda>a0o.
    Option.bind (log_u256_to_u128 (sw2_amount1_out event)) (\<lambda>a1o.
    Some (base\<lparr>de_sender := Some (ab_address ab (sw2_sender event)), de_recipient := Some (ab_address ab (sw2_to event)),
      de_amount0_in := Some a0i, de_amount1_in := Some a1i, de_amount0_out := Some a0o,
      de_amount1_out := Some a1o\<rparr>))))))"

definition decode_v2_sync_event :: "abi \<Rightarrow> bytes list \<Rightarrow> bytes \<Rightarrow> DecodedLogEvent \<Rightarrow> DecodedLogEvent option" where
  "decode_v2_sync_event ab topics data base =
    Option.bind (ab_v2_sync ab topics data) (\<lambda>(r0, r1).
    Some (base\<lparr>de_reserve0 := Some (ucast r0), de_reserve1 := Some (ucast r1)\<rparr>))"

definition decode_v2_mint_event :: "abi \<Rightarrow> bytes list \<Rightarrow> bytes \<Rightarrow> DecodedLogEvent \<Rightarrow> DecodedLogEvent option" where
  "decode_v2_mint_event ab topics data base =
    Option.bind (ab_v2_mint ab topics data) (\<lambda>event.
    Some (base\<lparr>de_sender := Some (ab_address ab (li2_sender event)),
      de_amount0 := Some (ab_show_u256 ab (li2_amount0 event)), de_amount1 := Some (ab_show_u256 ab (li2_amount1 event))\<rparr>))"

definition decode_v2_burn_event :: "abi \<Rightarrow> bytes list \<Rightarrow> bytes \<Rightarrow> DecodedLogEvent \<Rightarrow> DecodedLogEvent option" where
  "decode_v2_burn_event ab topics data base =
    Option.bind (ab_v2_burn ab topics data) (\<lambda>event.
    Some (base\<lparr>de_sender := Some (ab_address ab (li2_sender event)), de_recipient := Some (ab_address ab (li2_to event)),
      de_amount0 := Some (ab_show_u256 ab (li2_amount0 event)), de_amount1 := Some (ab_show_u256 ab (li2_amount1 event))\<rparr>))"

definition decode_v3_swap_event :: "abi \<Rightarrow> bytes list \<Rightarrow> bytes \<Rightarrow> DecodedLogEvent \<Rightarrow> DecodedLogEvent option" where
  "decode_v3_swap_event ab topics data base =
    Option.bind (ab_v3_swap ab topics data) (\<lambda>event.
    Some (base\<lparr>de_sender := Some (ab_address ab (sw3_sender event)),
      de_recipient := Some (ab_address ab (sw3_recipient event)),
      de_amount0 := Some (ab_show_i256 ab (sw3_amount0 event)), de_amount1 := Some (ab_show_i256 ab (sw3_amount1 event)),
      de_liquidity := Some (sw3_liquidity event),
      de_sqrt_price_x96 := Some (ab_show_u160 ab (sw3_sqrt_price_x96 event)),
      de_tick := Some (scast (sw3_tick event))\<rparr>))"

definition decode_v3_mint_event :: "abi \<Rightarrow> bytes list \<Rightarrow> bytes \<Rightarrow> DecodedLogEvent \<Rightarrow> DecodedLogEvent option" where
  "decode_v3_mint_event ab topics data base =
    Option.bind (ab_v3_mint ab topics data) (\<lambda>event.
    Some (base\<lparr>de_sender := Some (ab_address ab (li3_sender event)), de_owner := Some (ab_address ab (li3_owner event)),
      de_amount0 := Some (ab_show_u256 ab (li3_amount0 event)), de_amount1 := Some (ab_show_u256 ab (li3_amount1 event)),
      de_liquidity := Some (li3_amount event), de_tick_lower := Some (scast (li3_tick_lower event)),
      de_tick_upper := Some (scast (li3_tick_upper event))\<rparr>))"

definition decode_v3_burn_event :: "abi \<Rightarrow> bytes list \<Rightarrow> bytes \<Rightarrow> DecodedLogEvent \<Rightarrow> DecodedLogEvent option" where
  "decode_v3_burn_event ab topics data base =
    Option.bind (ab_v3_burn ab topics data) (\<lambda>event.
    Some (base\<lparr>de_owner := Some (ab_address ab (li3_owner event)),
      de_amount0 := Some (ab_show_u256 ab (li3_amount0 event)), de_amount1 := Some (ab_show_u256 ab (li3_amount1 event)),
      de_liquidity := Some (li3_amount event), de_tick_lower := Some (scast (li3_tick_lower event)),
      de_tick_upper := Some (scast (li3_tick_upper event))\<rparr>))"

definition decode_structured_event ::
  "abi \<Rightarrow> RawLogMessage \<Rightarrow> string option \<Rightarrow> Protocol option \<Rightarrow> Exchange option \<Rightarrow> DecodedLogEvent option" where
  "decode_structured_event ab r event_signature protocol exchange =
    Option.bind event_signature (\<lambda>sig.
    Option.bind (decode_topics ab (rw_topics r)) (\<lambda>topics.
    Option.bind (decode_data ab (case rw_data r of Some d \<Rightarrow> d | None \<Rightarrow> ''0x'')) (\<lambda>data.
    let base = (\<lambda>kind. blank_event kind (rw_address r) protocol exchange) in
    if sig = V2_SWAP then decode_v2_swap_event ab topics data (base V2Swap)
    else if sig = V2_SYNC then decode_v2_sync_event ab topics data (base V2Sync)
    else if sig = V2_MINT then decode_v2_mint_event ab topics data (base V2Mint)
    else if sig = V2_BURN then decode_v2_burn_event ab topics data (base V2Burn)
    else if sig = V3_SWAP then decode_v3_swap_event ab topics data (base V3Swap)
    else if sig = ab_v3_mint_signature ab then decode_v3_mint_event ab topics data (base V3Mint)
    else if sig = ab_v3_burn_signature ab then decode_v3_burn_event ab topics data (base V3Burn)
    else None)))"

record DecodedLogFields =
  dl_event_signature :: "string option"
  dl_protocol :: "Protocol option"
  dl_exchange :: "Exchange option"
  dl_decoded_event :: "DecodedLogEvent option"

definition raw_log_decode :: "abi \<Rightarrow> RawLogMessage \<Rightarrow> DecodedLogFields" where
  "raw_log_decode ab r =
    (let sig = log_event_signature_of r; resolution = resolve_log sig (rw_address r) in
     \<lparr>dl_event_signature = sig, dl_protocol = or_else (rm_protocol resolution) (rw_protocol r),
      dl_exchange = or_else (rm_exchange resolution) (rw_exchange r),
      dl_decoded_event = decode_structured_event ab r sig (rm_protocol resolution) (rm_exchange resolution)\<rparr>)"

definition to_log :: "abi \<Rightarrow> RawLogMessage \<Rightarrow> Metadata \<Rightarrow> Log" where
  "to_log ab r md =
    (let decoded = raw_log_decode ab r in
     \<lparr>log_metadata = md, log_address = rw_address r, log_topics = rw_topics r, log_data = rw_data r,
      log_event_signature = dl_event_signature decoded, log_decoded_event = dl_decoded_event decoded,
      log_protocol = dl_protocol decoded, log_exchange = dl_exchange decoded,
      log_log_index = rw_log_index r, log_removed = rw_removed r\<rparr>)"

section \<open>Transactions\<close>

record RawTransactionMessage =
  rt_tx_hash :: "TxHash option"
  rt_from :: "Address option"
  rt_to :: "Address option"
  rt_value :: "string option"
  rt_input :: "string option"
  rt_block_hash :: "BlockHash option"
  rt_block_number :: "u64 option"

record TransactionDecode =
  td_selector :: "Selector option"
  td_protocol :: "Protocol option"
  td_exchange :: "Exchange option"
  td_decoded_swap :: "DecodedSwap option"

definition raw_tx_from_value :: "Value \<Rightarrow> RawTransactionMessage option" where
  "raw_tx_from_value v =
    Option.bind (as_object v) (\<lambda>m.
    Some \<lparr>rt_tx_hash = string_field m ''hash'', rt_from = string_field m ''from'', rt_to = string_field m ''to'',
          rt_value = string_field m ''value'', rt_input = string_field m ''input'',
          rt_block_hash = string_field m ''blockHash'', rt_block_number = u64_field m ''blockNumber''\<rparr>)"

definition raw_tx_context :: "RawTransactionMessage \<Rightarrow> BlockContext" where
  "raw_tx_context r =
    (case rt_block_number r of Some number \<Rightarrow> Block_At number (rt_block_hash r) | None \<Rightarrow> Pending)"

text \<open>The slice of the first eight bytes panics when it cuts a character in two.\<close>

definition selector :: "RawTransactionMessage \<Rightarrow> ('e, Selector option) res" where
  "selector r =
    (case rt_input r of
       None \<Rightarrow> Ok None
     | Some raw \<Rightarrow>
         let input = trim raw; hex = (case strip_prefix ''0x'' input of Some h \<Rightarrow> h | None \<Rightarrow> input) in
         if length hex < 8 then Ok None
         else attempt (str_slice hex 0 8) (\<lambda>sel.
           if list_all is_ascii_hexdigit sel then Ok (Some (''0x'' @ to_ascii_lowercase sel)) else Ok None))"

definition decode_calldata :: "abi \<Rightarrow> string \<Rightarrow> bytes option" where
  "decode_calldata ab input =
    ab_hex_decode ab (case strip_prefix ''0x'' (trim input) of Some h \<Rightarrow> h | None \<Rightarrow> trim input)"

definition parse_amount_string :: "string \<Rightarrow> u128 option" where
  "parse_amount_string raw =
    (case strip_prefix ''0x'' raw of Some hex \<Rightarrow> from_str_radix 16 hex | None \<Rightarrow> parse_uint raw)"

definition decode_v2_path :: "abi \<Rightarrow> bytes list \<Rightarrow> (Address \<times> Address) option" where
  "decode_v2_path ab path =
    (case path of [] \<Rightarrow> None | first # _ \<Rightarrow> Some (ab_address ab first, ab_address ab (last path)))"

definition decode_v3_path :: "abi \<Rightarrow> bytes \<Rightarrow> bool \<Rightarrow> (Address \<times> Address) option" where
  "decode_v3_path ab path reverse =
    (if length path < 43 \<or> (length path - 20) mod 23 \<noteq> 0 then None
     else let first = take 20 path; final = drop (length path - 20) path in
       if reverse then Some (ab_address ab final, ab_address ab first)
       else Some (ab_address ab first, ab_address ab final))"

text \<open>The conversions of the call structs: two amounts for the calls on tokens, one for
  those paid in the native coin.\<close>

definition abi_decode_swap :: "v2_call \<Rightarrow> bytes \<Rightarrow> (u128 \<times> u128 \<times> bytes list \<times> bytes) option" where
  "abi_decode_swap call data =
    Option.bind (call data) (\<lambda>(a, b, path, to).
    Option.bind (try_narrow a) (\<lambda>a'.
    Option.bind (try_narrow b) (\<lambda>b'. Some (a', b', path, to))))"

definition abi_decode_eth_swap :: "v2_eth_call \<Rightarrow> bytes \<Rightarrow> (u128 \<times> bytes list \<times> bytes) option" where
  "abi_decode_eth_swap call data =
    Option.bind (call data) (\<lambda>(a, path, to). Option.bind (try_narrow a) (\<lambda>a'. Some (a', path, to)))"

definition decode_v2_exact_input ::
  "abi \<Rightarrow> v2_call \<Rightarrow> bytes \<Rightarrow> Address option \<Rightarrow> Protocol option \<Rightarrow> Exchange option \<Rightarrow> DecodedSwap option" where
  "decode_v2_exact_input ab call calldata router protocol exchange =
    Option.bind (abi_decode_swap call calldata) (\<lambda>(amount_in, amount_out_minimum, path, recipient).
    Option.bind (decode_v2_path ab path) (\<lambda>(token_in, token_out).
    Some \<lparr>ds_pool = None, ds_router = router, ds_token_in = Some token_in, ds_token_out = Some token_out,
      ds_amount_in = Some amount_in, ds_amount_out = None, ds_amount_in_maximum = None,
      ds_amount_out_minimum = Some amount_out_minimum, ds_exact_input = Some True,
      ds_recipient = Some (ab_address ab recipient), ds_protocol = protocol, ds_exchange = exchange\<rparr>))"

definition decode_v2_exact_eth_input ::
  "abi \<Rightarrow> v2_eth_call \<Rightarrow> bytes \<Rightarrow> u128 option \<Rightarrow> Address option \<Rightarrow> Protocol option \<Rightarrow> Exchange option \<Rightarrow>
    DecodedSwap option" where
  "decode_v2_exact_eth_input ab call calldata native_value router protocol exchange =
    Option.bind (abi_decode_eth_swap call calldata) (\<lambda>(amount_out_minimum, path, recipient).
    Option.bind (decode_v2_path ab path) (\<lambda>(token_in, token_out).
    Some \<lparr>ds_pool = None, ds_router = router, ds_token_in = Some token_in, ds_token_out = Some token_out,
      ds_amount_in = native_value, ds_amount_out = None, ds_amount_in_maximum = None,
      ds_amount_out_minimum = Some amount_out_minimum, ds_exact_input = Some True,
      ds_recipient = Some (ab_address ab recipient), ds_protocol = protocol, ds_exchange = exchange\<rparr>))"

definition decode_v2_exact_output ::
  "abi \<Rightarrow> v2_call \<Rightarrow> bytes \<Rightarrow> Address option \<Rightarrow> Protocol option \<Rightarrow> Exchange option \<Rightarrow> DecodedSwap option" where
  "decode_v2_exact_output ab call calldata router protocol exchange =
    Option.bind (abi_decode_swap call calldata) (\<lambda>(amount_out, amount_in_maximum, path, recipient).
    Option.bind (decode_v2_path ab path) (\<lambda>(token_in, token_out).
    Some \<lparr>ds_pool = None, ds_router = router, ds_token_in = Some token_in, ds_token_out = Some token_out,
      ds_amount_in = None, ds_amount_out = Some amount_out, ds_amount_in_maximum = Some amount_in_maximum,
      ds_amount_out_minimum = None, ds_exact_input = Some False,
      ds_recipient = Some (ab_address ab recipient), ds_protocol = protocol, ds_exchange = exchange\<rparr>))"

definition decode_v2_exact_eth_output ::
  "abi \<Rightarrow> v2_eth_call \<Rightarrow> bytes \<Rightarrow> u128 option \<Rightarrow> Address option \<Rightarrow> Protocol option \<Rightarrow> Exchange option \<Rightarrow>
    DecodedSwap option" where
  "decode_v2_exact_eth_output ab call calldata native_value router protocol exchange =
    Option.bind (abi_decode_eth_swap call calldata) (\<lambda>(amount_out, path, recipient).
    Option.bind (decode_v2_path ab path) (\<lambda>(token_in, token_out).
    Some \<lparr>ds_pool = None, ds_router = router, ds_token_in = Some token_in, ds_token_out = Some token_out,
      ds_amount_in = None, ds_amount_out = Some amount_out, ds_amount_in_maximum = native_value,
      ds_amount_out_minimum = None, ds_exact_input = Some False,
      ds_recipient = Some (ab_address ab recipient), ds_protocol = protocol, ds_exchange = exchange\<rparr>))"

definition decode_v3_exact_input_single ::
  "abi \<Rightarrow> bytes \<Rightarrow> Address option \<Rightarrow> Protocol option \<Rightarrow> Exchange option \<Rightarrow> DecodedSwap option" where
  "decode_v3_exact_input_single ab calldata router protocol exchange =
    Option.bind (ab_exact_input_single ab calldata) (\<lambda>call.
    Option.bind (try_narrow (xs_amount call)) (\<lambda>amount_in.
    Option.bind (try_narrow (xs_limit call)) (\<lambda>amount_out_minimum.
    Some \<lparr>ds_pool = None, ds_router = router, ds_token_in = Some (ab_address ab (xs_token_in call)),
      ds_token_out = Some (ab_address ab (xs_token_out call)),
      ds_amount_in = Some amount_in, ds_amount_out = None, ds_amount_in_maximum = None,
      ds_amount_out_minimum = Some amount_out_minimum, ds_exact_input = Some True,
      ds_recipient = Some (ab_address ab (xs_recipient call)), ds_protocol = protocol, ds_exchange = exchange\<rparr>)))"

definition decode_v3_exact_input ::
  "abi \<Rightarrow> bytes \<Rightarrow> Address option \<Rightarrow> Protocol option \<Rightarrow> Exchange option \<Rightarrow> DecodedSwap option" where
  "decode_v3_exact_input ab calldata router protocol exchange =
    Option.bind (ab_exact_input ab calldata) (\<lambda>call.
    Option.bind (decode_v3_path ab (xp_path call) False) (\<lambda>(token_in, token_out).
    Option.bind (try_narrow (xp_amount call)) (\<lambda>amount_in.
    Option.bind (try_narrow (xp_limit call)) (\<lambda>amount_out_minimum.
    Some \<lparr>ds_pool = None, ds_router = router, ds_token_in = Some token_in, ds_token_out = Some token_out,
      ds_amount_in = Some amount_in, ds_amount_out = None, ds_amount_in_maximum = None,
      ds_amount_out_minimum = Some amount_out_minimum, ds_exact_input = Some True,
      ds_recipient = Some (ab_address ab (xp_recipient call)), ds_protocol = protocol, ds_exchange = exchange\<rparr>))))"

definition decode_v3_exact_output_single ::
  "abi \<Rightarrow> bytes \<Rightarrow> Address option \<Rightarrow> Protocol option \<Rightarrow> Exchange option \<Rightarrow> DecodedSwap option" where
  "decode_v3_exact_output_single ab calldata router protocol exchange =
    Option.bind (ab_exact_output_single ab calldata) (\<lambda>call.
    Option.bind (try_narrow (xs_amount call)) (\<lambda>amount_out.
    Option.bind (try_narrow (xs_limit call)) (\<lambda>amount_in_maximum.
    Some \<lparr>ds_pool = None, ds_router = router, ds_token_in = Some (ab_address ab (xs_token_in call)),
      ds_token_out = Some (ab_address ab (xs_token_out call)),
      ds_amount_in = None, ds_amount_out = Some amount_out, ds_amount_in_maximum = Some amount_in_maximum,
      ds_amount_out_minimum = None, ds_exact_input = Some False,
      ds_recipient = Some (ab_address ab (xs_recipient call)), ds_protocol = protocol, ds_exchange = exchange\<rparr>)))"

definition decode_v3_exact_output ::
  "abi \<Rightarrow> bytes \<Rightarrow> Address option \<Rightarrow> Protocol option \<Rightarrow> Exchange option \<Rightarrow> DecodedSwap option" where
  "decode_v3_exact_output ab calldata router protocol exchange =
    Option.bind (ab_exact_output ab calldata) (\<lambda>call.
    Option.bind (decode_v3_path ab (xp_path call) True) (\<lambda>(token_in, token_out).
    Option.bind (try_narrow (xp_amount call)) (\<lambda>amount_out.
    Option.bind (try_narrow (xp_limit call)) (\<lambda>amount_in_maximum.
    Some \<lparr>ds_pool = None, ds_router = router, ds_token_in = Some token_in, ds_token_out = Some token_out,
      ds_amount_in = None, ds_amount_out = Some amount_out, ds_amount_in_maximum = Some amount_in_maximum,
      ds_amount_out_minimum = None, ds_exact_input = Some False,
      ds_recipient = Some (ab_address ab (xp_recipient call)), ds_protocol = protocol, ds_exchange = exchange\<rparr>))))"

definition decode_swap ::
  "abi \<Rightarrow> RawTransactionMessage \<Rightarrow> Selector option \<Rightarrow> Protocol option \<Rightarrow> Exchange option \<Rightarrow> DecodedSwap option" where
  "decode_swap ab r sel protocol exchange =
    Option.bind sel (\<lambda>sel.
    Option.bind (rt_input r) (\<lambda>input.
    Option.bind (decode_calldata ab input) (\<lambda>calldata.
    let router = rt_to r; native_value = Option.bind (rt_value r) parse_amount_string in
    if sel = ''0x38ed1739'' then decode_v2_exact_input ab (ab_tokens_for_tokens ab) calldata router protocol exchange
    else if sel = ''0x5c11d795'' then decode_v2_exact_input ab (ab_tokens_for_tokens_fee ab) calldata router protocol exchange
    else if sel = ''0x18cbafe5'' then decode_v2_exact_input ab (ab_tokens_for_eth ab) calldata router protocol exchange
    else if sel = ''0x791ac947'' then decode_v2_exact_input ab (ab_tokens_for_eth_fee ab) calldata router protocol exchange
    else if sel = ''0x7ff36ab5'' then
      decode_v2_exact_eth_input ab (ab_eth_for_tokens ab) calldata native_value router protocol exchange
    else if sel = ''0xb6f9de95'' then
      decode_v2_exact_eth_input ab (ab_eth_for_tokens_fee ab) calldata native_value router protocol exchange
    else if sel = ''0x8803dbee'' then
      decode_v2_exact_output ab (ab_tokens_for_exact_tokens ab) calldata router protocol exchange
    else if sel = ''0x4a25d94a'' then
      decode_v2_exact_output ab (ab_tokens_for_exact_eth ab) calldata router protocol exchange
    else if sel = ''0xfb3bdb41'' then
      decode_v2_exact_eth_output ab (ab_eth_for_exact_tokens ab) calldata native_value router protocol exchange
    else if sel = ''0x414bf389'' then decode_v3_exact_input_single ab calldata router protocol exchange
    else if sel = ''0xc04b8d59'' then decode_v3_exact_input ab calldata router protocol exchange
    else if sel = ''0xdb3e2198'' then decode_v3_exact_output_single ab calldata router protocol exchange
    else if sel = ''0xf28c0498'' then decode_v3_exact_output ab calldata router protocol exchange
    else None)))"

definition raw_tx_decode :: "abi \<Rightarrow> RawTransactionMessage \<Rightarrow> ('e, TransactionDecode) res" where
  "raw_tx_decode ab r =
    attempt (selector r) (\<lambda>sel.
    let resolution = resolve_transaction sel (rt_to r) in
    Ok \<lparr>td_selector = sel, td_protocol = rm_protocol resolution, td_exchange = rm_exchange resolution,
        td_decoded_swap = decode_swap ab r sel (rm_protocol resolution) (rm_exchange resolution)\<rparr>)"

definition to_transaction :: "abi \<Rightarrow> RawTransactionMessage \<Rightarrow> Metadata \<Rightarrow> ('e, Transaction) res" where
  "to_transaction ab r md =
    attempt (raw_tx_decode ab r) (\<lambda>decoded.
    Ok \<lparr>tx_metadata = md, tx_from = rt_from r, tx_to = rt_to r, tx_value = rt_value r, tx_input = rt_input r,
        tx_selector = td_selector decoded, tx_decoded_swap = td_decoded_swap decoded,
        tx_protocol = td_protocol decoded, tx_exchange = td_exchange decoded\<rparr>)"

end
