(* ===== verification/Streams.thy ===== *)
theory Streams
  imports Raw Config Effects
begin

text \<open>
  The ingest streams and the pipeline that starts them (\<open>src/crates/ingest/src/stream\<close>,
  \<open>channel\<close>, \<open>pipeline.rs\<close>, \<open>error.rs\<close>).  A stream task is an action on its own state: the
  status it is in, what it has sent on its two channels, and the pauses it has made.  The node
  is the script of the connections it grants: for each one whether connecting and subscribing
  succeed, and what arrives on the subscription, including windows in which nothing does.
  \<open>Waiting\<close> is the outcome of a task that has used up the script and would wait for more.
\<close>

section \<open>Endpoints and errors\<close>

datatype IngestEndpoint = Endpoint_Ipc string | Endpoint_Ws string

fun endpoint_channel :: "IngestEndpoint \<Rightarrow> Channel" where
  "endpoint_channel (Endpoint_Ipc _) = Ipc"
| "endpoint_channel (Endpoint_Ws _) = Ws"

datatype IngestError =
    Ingest_MissingChannelConfig Channel
  | Ingest_StreamFailure string string
  | Ingest_EventDeliveryClosed
  | Ingest_RuntimeEventDeliveryClosed
  | Ingest_InvalidStreamState string string
  | Ingest_TransportIo string
  | Ingest_Json string
  | Ingest_AlloyTransport string
  | Ingest_JsonRpc string string
  | Ingest_InvalidPayload string string

fun channel_debug :: "Channel \<Rightarrow> string" where
  "channel_debug Ipc = ''Ipc''"
| "channel_debug Ws = ''Ws''"
| "channel_debug FlashblocksWs = ''FlashblocksWs''"

fun ingest_error_text :: "IngestError \<Rightarrow> string" where
  "ingest_error_text (Ingest_MissingChannelConfig c) = ''missing channel configuration for '' @ channel_debug c"
| "ingest_error_text (Ingest_StreamFailure name message) = ''stream `'' @ name @ ''` failed: '' @ message"
| "ingest_error_text Ingest_EventDeliveryClosed = ''failed to send normalized event to downstream consumer''"
| "ingest_error_text Ingest_RuntimeEventDeliveryClosed = ''failed to send runtime event to downstream consumer''"
| "ingest_error_text (Ingest_InvalidStreamState name message) =
    ''invalid stream state for `'' @ name @ ''`: '' @ message"
| "ingest_error_text (Ingest_TransportIo e) = ''transport io error: '' @ e"
| "ingest_error_text (Ingest_Json e) = ''json decode error: '' @ e"
| "ingest_error_text (Ingest_AlloyTransport e) = ''alloy transport error: '' @ e"
| "ingest_error_text (Ingest_JsonRpc name message) = ''json-rpc error for `'' @ name @ ''`: '' @ message"
| "ingest_error_text (Ingest_InvalidPayload name message) = ''invalid payload for `'' @ name @ ''`: '' @ message"

definition ipc_from_config :: "IngestConfig \<Rightarrow> (IngestError, IngestEndpoint) res" where
  "ipc_from_config c =
    attempt (ok_or (Ingest_MissingChannelConfig Ipc) (ic_ipc_file_path c)) (\<lambda>file_path. Ok (Endpoint_Ipc file_path))"

definition ws_from_config :: "IngestConfig \<Rightarrow> (IngestError, IngestEndpoint) res" where
  "ws_from_config c =
    attempt (ok_or (Ingest_MissingChannelConfig Ws) (ic_ws_url c)) (\<lambda>url. Ok (Endpoint_Ws url))"

definition selected_endpoint :: "IngestConfig \<Rightarrow> (IngestError, IngestEndpoint) res" where
  "selected_endpoint c =
    (case ic_channel c of
       Ipc \<Rightarrow> ipc_from_config c
     | Ws \<Rightarrow> ws_from_config c
     | FlashblocksWs \<Rightarrow> Err (Ingest_MissingChannelConfig FlashblocksWs))"

section \<open>Tasks\<close>

datatype StreamSubscription = Transactions | Logs | Blocks

record IngestStreamContext =
  cx_chain_id :: ChainId
  cx_endpoint :: IngestEndpoint
  cx_reconnect_initial_ms :: u64
  cx_reconnect_max_ms :: u64
  cx_heartbeat_timeout_secs :: u64

definition context_channel :: "IngestStreamContext \<Rightarrow> Channel" where
  "context_channel c = endpoint_channel (cx_endpoint c)"

record StreamRuntime =
  sr_name :: string
  sr_status :: StreamStatus
  sr_subscription :: StreamSubscription

definition stream_runtime_new :: "string \<Rightarrow> StreamSubscription \<Rightarrow> StreamRuntime" where
  "stream_runtime_new name subscription = \<lparr>sr_name = name, sr_status = Idle, sr_subscription = subscription\<rparr>"

text \<open>A boxed stream, by the struct behind the trait object.\<close>

datatype BoxedIngestStream =
    Transaction_Stream IngestStreamContext StreamRuntime
  | Log_Stream IngestStreamContext StreamRuntime
  | Block_Stream IngestStreamContext StreamRuntime
  | Flashblocks_Stream IngestStreamContext StreamRuntime string

text \<open>The sending half of a channel: what went in, in order, and how many more messages the
  receiver takes before it is dropped (\<open>None\<close>: it never is).  A full channel only delays.\<close>

record 'm mailbox =
  mb_sent :: "'m list"
  mb_takes :: "nat option"

definition mailbox_open :: "'m mailbox \<Rightarrow> bool" where
  "mailbox_open mb \<longleftrightarrow> mb_takes mb \<noteq> Some 0"

definition mailbox_put :: "'m \<Rightarrow> 'm mailbox \<Rightarrow> 'm mailbox" where
  "mailbox_put m mb = mb\<lparr>mb_sent := mb_sent mb @ [m], mb_takes := map_option (\<lambda>n. n - 1) (mb_takes mb)\<rparr>"

text \<open>A task: the stream's own fields, its senders, the readings the clock will give and the
  pauses made so far.\<close>

record task =
  tk_context :: IngestStreamContext
  tk_runtime :: StreamRuntime
  tk_events :: "Event mailbox"
  tk_runtime_events :: "RuntimeEvent mailbox"
  tk_clock :: "nat \<Rightarrow> u64"
  tk_slept :: "u64 list"

type_synonym 'a ingest = "(task, IngestError, 'a) act"

abbreviation task_name :: "task \<Rightarrow> string" where "task_name w \<equiv> sr_name (tk_runtime w)"
abbreviation task_status :: "task \<Rightarrow> StreamStatus" where "task_status w \<equiv> sr_status (tk_runtime w)"

definition current_time_ms :: "u64 ingest" where
  "current_time_ms w = (Ok (tk_clock w 0), w\<lparr>tk_clock := \<lambda>n. tk_clock w (Suc n)\<rparr>)"

definition send_event :: "Event \<Rightarrow> unit ingest" where
  "send_event event w =
    (if mailbox_open (tk_events w) then (Ok (), w\<lparr>tk_events := mailbox_put event (tk_events w)\<rparr>)
     else (Err Ingest_EventDeliveryClosed, w))"

definition send_runtime_event :: "RuntimeEvent \<Rightarrow> unit ingest" where
  "send_runtime_event event w =
    (if mailbox_open (tk_runtime_events w)
     then (Ok (), w\<lparr>tk_runtime_events := mailbox_put event (tk_runtime_events w)\<rparr>)
     else (Err Ingest_RuntimeEventDeliveryClosed, w))"

definition set_status :: "StreamStatus \<Rightarrow> task \<Rightarrow> task" where
  "set_status s w = w\<lparr>tk_runtime := (tk_runtime w)\<lparr>sr_status := s\<rparr>\<rparr>"

definition transition :: "StreamStatus \<Rightarrow> string option \<Rightarrow> unit ingest" where
  "transition upcoming reason w =
    (let previous = Some (task_status w) in
     act_bind current_time_ms (\<lambda>now. send_runtime_event (Runtime_StreamStatus
       \<lparr>ss_block_context = Pending, ss_channel = context_channel (tk_context w),
        ss_observed_at_ms = now, ss_chain_id = cx_chain_id (tk_context w),
        ss_previous = previous, ss_current = upcoming, ss_reason = reason\<rparr>)) (set_status upcoming w))"

definition ensure_not_stopped :: "unit ingest" where
  "ensure_not_stopped w =
    (if task_status w = Stopped
     then Err (Ingest_InvalidStreamState (task_name w) ''stopped stream cannot be started again'') else Ok (), w)"

definition emit_heartbeat :: "string option \<Rightarrow> unit ingest" where
  "emit_heartbeat message w =
    act_bind current_time_ms (\<lambda>now. send_runtime_event (Runtime_Heartbeat
      \<lparr>hb_block_context = Pending, hb_channel = context_channel (tk_context w),
       hb_observed_at_ms = now, hb_chain_id = cx_chain_id (tk_context w), hb_message = message\<rparr>)) w"

definition sleep_ms :: "u64 \<Rightarrow> unit ingest" where
  "sleep_ms ms = act_modify (\<lambda>w. w\<lparr>tk_slept := tk_slept w @ [ms]\<rparr>)"

definition decode_status :: "Protocol option \<Rightarrow> Exchange option \<Rightarrow> bool \<Rightarrow> DecodeStatus" where
  "decode_status protocol exchange discriminant_present =
    (if protocol \<noteq> None \<or> exchange \<noteq> None then Decoded
     else if discriminant_present then Unsupported else Partial)"

fun subscription_label :: "StreamSubscription \<Rightarrow> string" where
  "subscription_label Transactions = ''new_pending_transactions''"
| "subscription_label Logs = ''logs''"
| "subscription_label Blocks = ''new_heads''"

fun channel_label :: "Channel \<Rightarrow> string" where
  "channel_label Ipc = ''ipc''"
| "channel_label Ws = ''ws''"
| "channel_label FlashblocksWs = ''flashblocks_ws''"

fun decode_status_label :: "DecodeStatus \<Rightarrow> string" where
  "decode_status_label Decoded = ''decoded''"
| "decode_status_label Partial = ''partial''"
| "decode_status_label Unsupported = ''unsupported''"
| "decode_status_label Failed = ''failed''"

definition raw_summary ::
  "RawMessageType \<Rightarrow> usize \<Rightarrow> string option \<Rightarrow> StreamSubscription \<Rightarrow> RawPayloadSummary" where
  "raw_summary message_type len fingerprint subscription =
    \<lparr>raw_message_type = message_type, raw_payload_size_bytes = len, raw_fingerprint = fingerprint,
     raw_subscription = Some (subscription_label subscription)\<rparr>"

section \<open>Connections\<close>

text \<open>What one wait on the subscription ends with.  The answer that goes with a payload is
  what the node replies should the task ask for the transaction the payload names.\<close>

datatype lookup = Replied Value | Refused string | No_Reply

datatype arrival = Silence | Payload Value lookup | Undecodable string | Subscription_Closed

record session =
  se_connect :: "string + unit"
  se_subscribe :: "string + string"
  se_arrivals :: "arrival list"

fun external :: "'e + 'a \<Rightarrow> ('e, 'a) res" where
  "external (Inl e) = Err e"
| "external (Inr x) = Ok x"

datatype progress = Waiting | Completed

definition alloy_connect :: "session \<Rightarrow> unit ingest" where
  "alloy_connect s = lift (map_err Ingest_AlloyTransport (external (se_connect s)))"

definition alloy_subscribe :: "session \<Rightarrow> string ingest" where
  "alloy_subscribe s = lift (map_err Ingest_AlloyTransport (external (se_subscribe s)))"

text \<open>The heartbeat of an idle window, and the failure of a second one in a row.\<close>

definition note_silence :: "string \<Rightarrow> nat \<Rightarrow> unit ingest" where
  "note_silence timeout_message idle_intervals w =
    act_bind (emit_heartbeat (Some (task_name w @ '' idle for '' @
        show_uint (cx_heartbeat_timeout_secs (tk_context w)) @ ''s'')))
      (\<lambda>_. lift (ensure (idle_intervals < 2) (Ingest_StreamFailure (task_name w) timeout_message))) w"

text \<open>The loop over a subscription, with what the stream does on a payload.\<close>

fun pump :: "(Value \<Rightarrow> lookup \<Rightarrow> unit ingest) \<Rightarrow> string \<Rightarrow> nat \<Rightarrow> arrival list \<Rightarrow> progress ingest" where
  "pump on_payload timeout_message idle_intervals [] = ret Waiting"
| "pump on_payload timeout_message idle_intervals (Silence # rest) =
    act_bind (note_silence timeout_message (idle_intervals + 1))
      (\<lambda>_. pump on_payload timeout_message (idle_intervals + 1) rest)"
| "pump on_payload timeout_message idle_intervals (Payload v answer # rest) =
    act_bind (on_payload v answer) (\<lambda>_. pump on_payload timeout_message 0 rest)"
| "pump on_payload timeout_message idle_intervals (Undecodable e # rest) = lift (Err (Ingest_Json e))"
| "pump on_payload timeout_message idle_intervals (Subscription_Closed # rest) =
    (\<lambda>w. (Err (Ingest_StreamFailure (task_name w) ''alloy subscription stream closed''), w))"

definition run_once ::
  "(Value \<Rightarrow> lookup \<Rightarrow> unit ingest) \<Rightarrow> string \<Rightarrow> session \<Rightarrow> progress ingest" where
  "run_once on_payload timeout_message s =
    act_bind (alloy_connect s) (\<lambda>_.
    act_bind (transition Subscribing None) (\<lambda>_.
    act_bind (alloy_subscribe s) (\<lambda>subscription_id.
    act_bind (transition Running (Some (''subscription='' @ subscription_id))) (\<lambda>_.
    pump on_payload timeout_message 0 (se_arrivals s)))))"

definition back_off :: "u64 \<Rightarrow> IngestError \<Rightarrow> unit ingest" where
  "back_off backoff_ms error =
    (let reason = ingest_error_text error in
     act_bind (transition Backoff (Some reason)) (\<lambda>_.
     act_bind (sleep_ms backoff_ms) (\<lambda>_.
     transition Reconnecting (Some reason))))"

definition next_backoff :: "u64 \<Rightarrow> u64 \<Rightarrow> u64" where
  "next_backoff max_ms backoff_ms = min (saturating_mul backoff_ms 2) max_ms"

definition finish_run :: "string \<Rightarrow> progress \<Rightarrow> progress ingest" where
  "finish_run completed p =
    (case p of
       Waiting \<Rightarrow> ret Waiting
     | Completed \<Rightarrow> act_bind (transition Stopped (Some completed)) (\<lambda>_. ret Completed))"

fun run_sessions :: "(session \<Rightarrow> progress ingest) \<Rightarrow> string \<Rightarrow> u64 \<Rightarrow> session list \<Rightarrow> progress ingest" where
  "run_sessions once completed backoff_ms [] = ret Waiting"
| "run_sessions once completed backoff_ms (s # rest) =
    act_bind (transition Connecting None) (\<lambda>_.
    act_match (once s) (finish_run completed) (\<lambda>error.
    act_bind (back_off backoff_ms error) (\<lambda>_ w.
    run_sessions once completed (next_backoff (cx_reconnect_max_ms (tk_context w)) backoff_ms) rest w)))"

definition stream_run :: "(session \<Rightarrow> progress ingest) \<Rightarrow> string \<Rightarrow> session list \<Rightarrow> progress ingest" where
  "stream_run once completed sessions =
    act_bind ensure_not_stopped (\<lambda>_ w.
    run_sessions once completed (cx_reconnect_initial_ms (tk_context w)) sessions w)"

section \<open>Logs\<close>

type_synonym sizes = "Value \<Rightarrow> string + usize"

definition payload_size_bytes :: "sizes \<Rightarrow> Value \<Rightarrow> (IngestError, usize) res" where
  "payload_size_bytes sz v = map_err Ingest_Json (external (sz v))"

definition log_metadata_of :: 
  "DecodedLogFields \<Rightarrow> RawLogMessage \<Rightarrow> BlockContext \<Rightarrow> Channel \<Rightarrow> u64 \<Rightarrow> usize \<Rightarrow> task \<Rightarrow> Metadata" where
  "log_metadata_of decoded raw block_context channel now len w =
    \<lparr>md_block_context = block_context, md_channel = channel, md_observed_at_ms = now,
     md_chain_id = cx_chain_id (tk_context w), md_tx_hash = rw_tx_hash raw,
     md_decode_status = decode_status (dl_protocol decoded) (dl_exchange decoded)
       (dl_decoded_event decoded \<noteq> None \<or> dl_event_signature decoded \<noteq> None \<or> rw_address raw \<noteq> None),
     md_raw = raw_summary Raw_Log len (or_else (rw_tx_hash raw) (dl_event_signature decoded))
       (sr_subscription (tk_runtime w))\<rparr>"

definition on_log_payload :: "abi \<Rightarrow> sizes \<Rightarrow> Value \<Rightarrow> lookup \<Rightarrow> unit ingest" where
  "on_log_payload ab sz payload _ w =
    act_bind (lift (ok_or (Ingest_InvalidPayload (task_name w) ''log payload was not an object'')
      (raw_log_from_value payload))) (\<lambda>raw.
    act_bind current_time_ms (\<lambda>now.
    act_bind (lift (payload_size_bytes sz payload)) (\<lambda>len w.
    send_event (Event_Log (to_log ab raw
      (log_metadata_of (raw_log_decode ab raw) raw (raw_log_context raw) (context_channel (tk_context w)) now len w))) w))) w"

definition log_stream_new :: "IngestStreamContext \<Rightarrow> BoxedIngestStream" where
  "log_stream_new context = Log_Stream context (stream_runtime_new ''log_stream'' Logs)"

definition log_run_once :: "abi \<Rightarrow> sizes \<Rightarrow> session \<Rightarrow> progress ingest" where
  "log_run_once ab sz = run_once (on_log_payload ab sz) ''log subscription heartbeat timeout''"

definition log_run :: "abi \<Rightarrow> sizes \<Rightarrow> session list \<Rightarrow> progress ingest" where
  "log_run ab sz = stream_run (log_run_once ab sz) ''log stream completed''"

section \<open>Blocks\<close>

definition block_metadata_of :: "RawBlockMessage \<Rightarrow> u64 \<Rightarrow> usize \<Rightarrow> task \<Rightarrow> Metadata" where
  "block_metadata_of raw now len w =
    \<lparr>md_block_context = raw_block_context raw, md_channel = context_channel (tk_context w), md_observed_at_ms = now,
     md_chain_id = cx_chain_id (tk_context w), md_tx_hash = None, md_decode_status = Decoded,
     md_raw = raw_summary Raw_Block len (rb_block_hash raw) (sr_subscription (tk_runtime w))\<rparr>"

definition on_block_payload :: "sizes \<Rightarrow> Value \<Rightarrow> lookup \<Rightarrow> unit ingest" where
  "on_block_payload sz payload _ w =
    act_bind (lift (ok_or (Ingest_InvalidPayload (task_name w) ''block payload was not an object'')
      (raw_block_from_value payload))) (\<lambda>raw.
    act_bind current_time_ms (\<lambda>now.
    act_bind (lift (payload_size_bytes sz payload)) (\<lambda>len w.
    send_event (Event_Block (to_block raw (block_metadata_of raw now len w))) w))) w"

definition block_stream_new :: "IngestStreamContext \<Rightarrow> BoxedIngestStream" where
  "block_stream_new context = Block_Stream context (stream_runtime_new ''block_stream'' Blocks)"

definition block_run_once :: "sizes \<Rightarrow> session \<Rightarrow> progress ingest" where
  "block_run_once sz = run_once (on_block_payload sz) ''block subscription heartbeat timeout''"

definition block_run :: "sizes \<Rightarrow> session list \<Rightarrow> progress ingest" where
  "block_run sz = stream_run (block_run_once sz) ''block stream completed''"

section \<open>Pending transactions\<close>

definition materialize_transaction :: "Value \<Rightarrow> lookup \<Rightarrow> Value ingest" where
  "materialize_transaction payload answer w =
    ((case as_str payload of
        None \<Rightarrow> Ok payload
      | Some tx_hash \<Rightarrow>
          (case answer of
             Replied v \<Rightarrow> Ok v
           | Refused e \<Rightarrow> Err (Ingest_JsonRpc (task_name w) e)
           | No_Reply \<Rightarrow> Err (Ingest_StreamFailure (task_name w) ''transaction materialization timed out''))), w)"

definition transaction_metadata_of ::
  "TransactionDecode \<Rightarrow> RawTransactionMessage \<Rightarrow> u64 \<Rightarrow> usize \<Rightarrow> task \<Rightarrow> Metadata" where
  "transaction_metadata_of decoded raw now len w =
    \<lparr>md_block_context = raw_tx_context raw, md_channel = context_channel (tk_context w), md_observed_at_ms = now,
     md_chain_id = cx_chain_id (tk_context w), md_tx_hash = rt_tx_hash raw,
     md_decode_status = decode_status (td_protocol decoded) (td_exchange decoded)
       (td_selector decoded \<noteq> None \<or> rt_to raw \<noteq> None),
     md_raw = raw_summary Raw_Transaction len (or_else (rt_tx_hash raw) (td_selector decoded))
       (sr_subscription (tk_runtime w))\<rparr>"

definition publish_transaction :: "abi \<Rightarrow> sizes \<Rightarrow> Value \<Rightarrow> unit ingest" where
  "publish_transaction ab sz materialized w =
    act_bind (lift (ok_or (Ingest_InvalidPayload (task_name w) ''transaction payload was not an object'')
      (raw_tx_from_value materialized))) (\<lambda>raw.
    act_bind (lift (raw_tx_decode ab raw)) (\<lambda>decoded.
    act_bind current_time_ms (\<lambda>now.
    act_bind (lift (payload_size_bytes sz materialized)) (\<lambda>len w.
    act_bind (lift (to_transaction ab raw (transaction_metadata_of decoded raw now len w)))
      (\<lambda>tx_event. send_event (Event_Transaction tx_event)) w)))) w"

definition on_transaction_payload :: "abi \<Rightarrow> sizes \<Rightarrow> Value \<Rightarrow> lookup \<Rightarrow> unit ingest" where
  "on_transaction_payload ab sz payload answer =
    act_bind (materialize_transaction payload answer) (\<lambda>materialized.
    if materialized = JNull then ret () else publish_transaction ab sz materialized)"

definition transaction_stream_new :: "IngestStreamContext \<Rightarrow> BoxedIngestStream" where
  "transaction_stream_new context = Transaction_Stream context (stream_runtime_new ''transaction_stream'' Transactions)"

definition transaction_run_once :: "abi \<Rightarrow> sizes \<Rightarrow> session \<Rightarrow> progress ingest" where
  "transaction_run_once ab sz = run_once (on_transaction_payload ab sz) ''transaction subscription heartbeat timeout''"

definition transaction_run :: "abi \<Rightarrow> sizes \<Rightarrow> session list \<Rightarrow> progress ingest" where
  "transaction_run ab sz = stream_run (transaction_run_once ab sz) ''transaction stream completed''"

section \<open>The status automaton\<close>

text \<open>What a stream promises about its status: the moves of the abstract automaton.  A run of
  runtime events follows it when each reported move starts where the last one ended and is a
  move of the automaton, and heartbeats occur only while it is running.\<close>

inductive pubsub_move :: "StreamStatus \<Rightarrow> StreamStatus \<Rightarrow> bool" where
  start: "pubsub_move Idle Connecting"
| connected: "pubsub_move Connecting Subscribing"
| subscribed: "pubsub_move Subscribing Running"
| broken: "s \<in> {Connecting, Subscribing, Running} \<Longrightarrow> pubsub_move s Backoff"
| rested: "pubsub_move Backoff Reconnecting"
| again: "pubsub_move Reconnecting Connecting"

fun follow :: "(StreamStatus \<Rightarrow> StreamStatus \<Rightarrow> bool) \<Rightarrow> StreamStatus \<Rightarrow> RuntimeEvent list \<Rightarrow> StreamStatus option" where
  "follow R s [] = Some s"
| "follow R s (Runtime_Heartbeat h # es) = (if s = Running then follow R s es else None)"
| "follow R s (Runtime_StreamStatus e # es) =
    (if ss_previous e = Some s \<and> R s (ss_current e) then follow R (ss_current e) es else None)"

lemma follow_append: "follow R s (es @ fs) = Option.bind (follow R s es) (\<lambda>t. follow R t fs)"
  by (induction R s es rule: follow.induct) auto

definition aligned :: "(StreamStatus \<Rightarrow> StreamStatus \<Rightarrow> bool) \<Rightarrow> task \<Rightarrow> bool" where
  "aligned R w \<longleftrightarrow> follow R Idle (mb_sent (tk_runtime_events w)) = Some (task_status w)"

definition cut_off :: "(StreamStatus \<Rightarrow> StreamStatus \<Rightarrow> bool) \<Rightarrow> task \<Rightarrow> bool" where
  "cut_off R w \<longleftrightarrow>
    follow R Idle (mb_sent (tk_runtime_events w)) \<noteq> None \<and> \<not> mailbox_open (tk_runtime_events w)"

text \<open>What a task never changes: its configuration, and without a pause, its pauses.\<close>

definition still :: "IngestStreamContext \<Rightarrow> u64 list \<Rightarrow> task \<Rightarrow> bool" where
  "still c ms w \<longleftrightarrow> tk_context w = c \<and> tk_slept w = ms"

text \<open>The part of a task that handling a payload leaves alone.\<close>

definition untouched :: "task \<Rightarrow> task \<Rightarrow> bool" where
  "untouched w w' \<longleftrightarrow> tk_context w' = tk_context w \<and> tk_runtime w' = tk_runtime w \<and>
    tk_runtime_events w' = tk_runtime_events w \<and> tk_slept w' = tk_slept w"

lemma untouched_aligned: "untouched w w' \<Longrightarrow> aligned R w' = aligned R w"
  by (simp add: untouched_def aligned_def)

lemma untouched_still: "untouched w w' \<Longrightarrow> still c ms w' = still c ms w"
  by (simp add: untouched_def still_def)

lemmas task_defs = act_bind_def current_time_ms_def send_runtime_event_def send_event_def set_status_def
  mailbox_put_def

lemma transition_cases:
  assumes "transition s reason w = (r, w')"
  obtains (sent) e where "r = Ok ()" "mailbox_open (tk_runtime_events w)"
      "mb_sent (tk_runtime_events w') = mb_sent (tk_runtime_events w) @ [Runtime_StreamStatus e]"
      "ss_previous e = Some (task_status w)" "ss_current e = s" "task_status w' = s"
  | (closed) "r = Err Ingest_RuntimeEventDeliveryClosed" "\<not> mailbox_open (tk_runtime_events w)"
      "tk_runtime_events w' = tk_runtime_events w" "task_status w' = s"
  using assms by (auto simp: transition_def task_defs Let_def split: if_splits)

lemma transition_still [keeps_intros]: "keeps (still c ms) (transition s reason)"
  by (rule keepsI) (auto simp: transition_def task_defs Let_def still_def)

lemma transition_takes [keeps_intros]:
  "keeps (\<lambda>w. mb_takes (tk_runtime_events w) = None) (transition s reason)"
  by (rule keepsI) (auto simp: transition_def task_defs Let_def)

lemma aligned_transition:
  assumes "transition s reason w = (r, w')" "aligned R w" "R (task_status w) s"
  shows "r = Ok () \<and> aligned R w' \<and> task_status w' = s \<or> (\<exists>e. r = Err e) \<and> cut_off R w'"
  using assms(1)
  by (cases rule: transition_cases) (use assms(2,3) in \<open>simp_all add: aligned_def cut_off_def follow_append\<close>)

lemma cut_off_transition:
  assumes "transition s reason w = (r, w')" "cut_off R w"
  shows "(\<exists>e. r = Err e) \<and> cut_off R w'"
  using assms(1) by (cases rule: transition_cases) (use assms(2) in \<open>auto simp: cut_off_def\<close>)

lemma open_transition:
  assumes "mb_takes (tk_runtime_events w) = None"
  obtains w' where "transition s reason w = (Ok (), w')" "task_status w' = s"
    "mb_takes (tk_runtime_events w') = None"
  using assms by (auto simp: transition_def task_defs Let_def mailbox_open_def)

lemma note_silence_aligned:
  assumes "note_silence msg n w = (r, w')" "aligned R w" "task_status w = Running"
  shows "r \<noteq> Panic \<and> (aligned R w' \<and> task_status w' = Running \<or> (\<exists>e. r = Err e) \<and> cut_off R w')"
  using assms
  by (auto simp: note_silence_def emit_heartbeat_def task_defs lift_def ensure_def aligned_def cut_off_def
      follow_append split: if_splits)

lemma note_silence_still [keeps_intros]: "keeps (still c ms) (note_silence msg n)"
  by (rule keepsI) (auto simp: note_silence_def emit_heartbeat_def task_defs lift_def still_def)

lemma note_silence_takes [keeps_intros]:
  "keeps (\<lambda>w. mb_takes (tk_runtime_events w) = None) (note_silence msg n)"
  by (rule keepsI) (auto simp: note_silence_def emit_heartbeat_def task_defs lift_def)

lemma pump_keeps:
  assumes "\<And>v answer. keeps P (on_payload v answer)" "\<And>n. keeps P (note_silence msg n)"
  shows "keeps P (pump on_payload msg n arrivals)"
proof (induction arrivals arbitrary: n)
  case (Cons a rest)
  then show ?case
    by (cases a) (auto intro: assms keeps_bind keeps_lift keepsI)
qed (simp add: keeps_ret)

lemma act_bind_modify [simp]: "act_bind (act_modify f) k w = k () (f w)"
  by (simp add: act_bind_def act_modify_def)

lemma act_bind_assoc: "act_bind (act_bind m k) h = act_bind m (\<lambda>x. act_bind (k x) h)"
  by (rule ext) (auto simp: act_bind_def split: prod.splits res.splits)

lemma back_off_aligned:
  assumes "back_off ms e w = (r, w')" "aligned R w" "R (task_status w) Backoff" "R Backoff Reconnecting"
  shows "r = Ok () \<and> aligned R w' \<and> task_status w' = Reconnecting \<or> (\<exists>e. r = Err e) \<and> cut_off R w'"
proof -
  obtain r1 w1 where t1: "transition Backoff (Some (ingest_error_text e)) w = (r1, w1)" by fastforce
  let ?w2 = "w1\<lparr>tk_slept := tk_slept w1 @ [ms]\<rparr>"
  obtain r3 w3 where t3: "transition Reconnecting (Some (ingest_error_text e)) ?w2 = (r3, w3)" by fastforce
  from aligned_transition[OF t1 assms(2,3)] show ?thesis
  proof
    assume a: "r1 = Ok () \<and> aligned R w1 \<and> task_status w1 = Backoff"
    with assms(1) t1 t3 have "r = r3" "w' = w3"
      by (simp_all add: back_off_def sleep_ms_def Let_def)
    moreover from a have "aligned R ?w2" "task_status ?w2 = Backoff" by (simp_all add: aligned_def)
    ultimately show ?thesis using aligned_transition[OF t3] assms(4) by metis
  next
    assume "(\<exists>e. r1 = Err e) \<and> cut_off R w1"
    with assms(1) t1 show ?thesis by (auto simp: back_off_def Let_def)
  qed
qed

lemma back_off_cut_off:
  assumes "back_off ms e w = (r, w')" "cut_off R w"
  shows "(\<exists>e. r = Err e) \<and> cut_off R w'"
proof -
  obtain r1 w1 where t1: "transition Backoff (Some (ingest_error_text e)) w = (r1, w1)" by fastforce
  with cut_off_transition[OF t1 assms(2)] assms(1) show ?thesis by (auto simp: back_off_def Let_def)
qed

lemma back_off_slept:
  assumes "back_off ms e w = (r, w')" "still c slept w"
  shows "still c (slept @ [ms]) w' \<or> still c slept w' \<and> \<not> is_ok r"
  using assms(1) unfolding back_off_def Let_def
proof (cases rule: act_bind_split)
  case (continues u w1)
  with keepsD[OF transition_still assms(2) continues(1)]
  have s: "still c (slept @ [ms]) (w1\<lparr>tk_slept := tk_slept w1 @ [ms]\<rparr>)" by (simp add: still_def)
  have "transition Reconnecting (Some (ingest_error_text e)) (w1\<lparr>tk_slept := tk_slept w1 @ [ms]\<rparr>) = (r, w')"
    using continues(2) by (simp add: sleep_ms_def)
  from keepsD[OF transition_still s this] show ?thesis by blast
next
  case (stops v)
  with keepsD[OF transition_still assms(2) stops(1)] show ?thesis by blast
qed

lemma back_off_open:
  assumes "mb_takes (tk_runtime_events w) = None"
  obtains w' where "back_off ms e w = (Ok (), w')" "mb_takes (tk_runtime_events w') = None"
    "task_status w' = Reconnecting"
proof -
  obtain w1 where t1: "transition Backoff (Some (ingest_error_text e)) w = (Ok (), w1)"
      "mb_takes (tk_runtime_events w1) = None"
    using open_transition[OF assms, of Backoff "Some (ingest_error_text e)"] by metis
  let ?w2 = "w1\<lparr>tk_slept := tk_slept w1 @ [ms]\<rparr>"
  obtain w3 where t3: "transition Reconnecting (Some (ingest_error_text e)) ?w2 = (Ok (), w3)"
      "mb_takes (tk_runtime_events w3) = None" "task_status w3 = Reconnecting"
    using open_transition[of ?w2 Reconnecting "Some (ingest_error_text e)"] t1(2) by auto
  have "back_off ms e w = (Ok (), w3)"
    using t1 t3 by (simp add: back_off_def sleep_ms_def Let_def)
  with t3 that show ?thesis by blast
qed

text \<open>The pause before the \<open>k\<close>th reconnection: the first is as configured, later ones double
  up to the cap.\<close>

definition backoff_at :: "u64 \<Rightarrow> u64 \<Rightarrow> nat \<Rightarrow> nat" where
  "backoff_at initial_ms max_ms k =
    (if k = 0 then unat initial_ms else min (unat max_ms) (unat initial_ms * 2 ^ k))"

lemma unat_next_backoff: "unat (next_backoff max_ms b) = min (unat max_ms) (2 * unat b)"
  using unat_lt_width[of max_ms]
  by (auto simp: next_backoff_def min_def word_le_nat_alt unat_saturating_mul)

lemma backoff_at_Suc:
  "unat b = backoff_at initial_ms max_ms k \<Longrightarrow> unat (next_backoff max_ms b) = backoff_at initial_ms max_ms (Suc k)"
  by (cases k) (auto simp: unat_next_backoff backoff_at_def min_def)

fun falls_silent :: "arrival list \<Rightarrow> bool" where
  "falls_silent (Silence # Silence # rest) = True"
| "falls_silent (a # rest) = falls_silent rest"
| "falls_silent [] = False"

definition session_breaks :: "session \<Rightarrow> bool" where
  "session_breaks s \<longleftrightarrow> isl (se_connect s) \<or> isl (se_subscribe s) \<or>
    Subscription_Closed \<in> set (se_arrivals s) \<or> falls_silent (se_arrivals s)"

lemma falls_silent_split: "falls_silent arrivals \<Longrightarrow> \<exists>pre post. arrivals = pre @ Silence # Silence # post"
proof (induction arrivals rule: falls_silent.induct)
  case (1 rest)
  show ?case by (rule exI[of _ "[]"]) simp
qed (auto, (metis append_Cons)+)

lemma transition_not_Panic [simp]: "transition s reason w \<noteq> (Panic, w')"
  by (auto simp: transition_def task_defs Let_def)

lemma note_silence_not_Panic [simp]: "note_silence msg n w \<noteq> (Panic, w')"
  by (auto simp: note_silence_def emit_heartbeat_def task_defs lift_def ensure_def split: if_splits)

lemma transition_events [keeps_intros]: "keeps (\<lambda>w. tk_events w = ev) (transition s reason)"
  by (rule keepsI) (auto simp: transition_def task_defs Let_def)

lemma note_silence_events [keeps_intros]: "keeps (\<lambda>w. tk_events w = ev) (note_silence msg n)"
  by (rule keepsI) (auto simp: note_silence_def emit_heartbeat_def task_defs lift_def)

fun payloads :: "arrival list \<Rightarrow> (Value \<times> lookup) list" where
  "payloads [] = []"
| "payloads (Payload v answer # rest) = (v, answer) # payloads rest"
| "payloads (_ # rest) = payloads rest"

section \<open>Every stream, by what it does with a payload\<close>

text \<open>The interface between the subscription loop and a stream: handling a payload touches
  neither the status nor the runtime events, the configuration or the pauses.\<close>

locale payload_handler =
  fixes on_payload :: "Value \<Rightarrow> lookup \<Rightarrow> unit ingest"
  assumes quiet: "on_payload v answer w = (r, w') \<Longrightarrow> untouched w w'"
begin

lemma pump_Payload:
  assumes "pump on_payload msg n (Payload v answer # rest) w = (r, w')"
  obtains (goes_on) w1 where "untouched w w1" "pump on_payload msg 0 rest w1 = (r, w')"
    | (stops) "untouched w w'" "\<not> is_ok r"
  using assms unfolding pump.simps
  by (rule act_bind_split) (use quiet that in blast)+

lemma pump_aligned:
  assumes "pump on_payload msg n arrivals w = (r, w')" "aligned R w" "task_status w = Running"
  shows "r \<noteq> Ok Completed \<and> (aligned R w' \<and> task_status w' = Running \<or> (\<exists>e. r = Err e) \<and> cut_off R w')"
  using assms
proof (induction arrivals arbitrary: n w)
  case Nil
  then show ?case by (simp add: ret_eq)
next
  case (Cons a rest)
  show ?case
  proof (cases a)
    case Silence
    obtain v w1 where v: "note_silence msg (n + 1) w = (v, w1)" by fastforce
    note s = note_silence_aligned[OF v Cons.prems(2,3)]
    show ?thesis
    proof (cases v)
      case (Ok u)
      with Cons.prems(1) v Silence have "pump on_payload msg (n + 1) rest w1 = (r, w')" by simp
      moreover from s Ok have "aligned R w1" "task_status w1 = Running" by simp_all
      ultimately show ?thesis by (rule Cons.IH)
    next
      case (Err e)
      with Cons.prems(1) v Silence have "r = Err e" "w' = w1" by simp_all
      with s show ?thesis by blast
    qed (use s in simp)
  next
    case (Payload x answer)
    from Cons.prems(1)[unfolded Payload] show ?thesis
    proof (cases rule: pump_Payload)
      case (goes_on w1)
      with Cons.IH[OF goes_on(2)] Cons.prems(2,3) untouched_aligned[OF goes_on(1)] show ?thesis
        by (simp add: untouched_def)
    next
      case stops
      with Cons.prems(2,3) untouched_aligned[OF stops(1)] show ?thesis by (auto simp: untouched_def)
    qed
  qed (use Cons.prems in \<open>auto simp: lift_eq\<close>)
qed

lemma payload_still: "keeps (still c ms) (on_payload v answer)"
  by (rule keepsI) (metis quiet untouched_still prod.collapse)

lemma payload_takes: "keeps (\<lambda>w. mb_takes (tk_runtime_events w) = None) (on_payload v answer)"
  by (rule keepsI) (metis quiet untouched_def prod.collapse)

lemma run_once_still: "keeps (still c ms) (run_once on_payload msg s)"
  unfolding run_once_def alloy_connect_def alloy_subscribe_def
  by (intro keeps_intros pump_keeps payload_still)

lemma run_once_takes: "keeps (\<lambda>w. mb_takes (tk_runtime_events w) = None) (run_once on_payload msg s)"
  unfolding run_once_def alloy_connect_def alloy_subscribe_def
  by (intro keeps_intros pump_keeps payload_takes)

lemma subscribed_aligned:
  assumes "act_bind (transition Running reason) (\<lambda>_. pump on_payload msg 0 arrivals) w = (r, w')"
    and "aligned pubsub_move w" "task_status w = Subscribing"
  shows "r \<noteq> Ok Completed \<and> (aligned pubsub_move w' \<and> task_status w' = Running
    \<or> (\<exists>e. r = Err e) \<and> cut_off pubsub_move w')"
proof -
  obtain r2 w2 where t: "transition Running reason w = (r2, w2)" by fastforce
  have "pubsub_move (task_status w) Running" using assms(3) by (simp add: pubsub_move.intros)
  from aligned_transition[OF t assms(2) this] show ?thesis
  proof
    assume a: "r2 = Ok () \<and> aligned pubsub_move w2 \<and> task_status w2 = Running"
    with assms(1) t have "pump on_payload msg 0 arrivals w2 = (r, w')" by simp
    from pump_aligned[OF this] a show ?thesis by blast
  next
    assume "(\<exists>e. r2 = Err e) \<and> cut_off pubsub_move w2"
    with assms(1) t show ?thesis by auto
  qed
qed

lemma run_once_aligned:
  assumes "run_once on_payload msg s w = (r, w')" "aligned pubsub_move w" "task_status w = Connecting"
  shows "r \<noteq> Ok Completed \<and>
    (aligned pubsub_move w' \<and> task_status w' \<in> {Connecting, Subscribing, Running}
      \<or> (\<exists>e. r = Err e) \<and> cut_off pubsub_move w')"
proof (cases "se_connect s")
  case (Inr u)
  obtain r1 w1 where t: "transition Subscribing None w = (r1, w1)" by fastforce
  have "pubsub_move (task_status w) Subscribing" using assms(3) by (simp add: pubsub_move.intros)
  from aligned_transition[OF t assms(2) this] show ?thesis
  proof
    assume a: "r1 = Ok () \<and> aligned pubsub_move w1 \<and> task_status w1 = Subscribing"
    show ?thesis
    proof (cases "se_subscribe s")
      case (Inr i)
      with assms(1) \<open>se_connect s = Inr u\<close> t a
      have "act_bind (transition Running (Some (''subscription='' @ i))) (\<lambda>_. pump on_payload msg 0 (se_arrivals s)) w1
          = (r, w')"
        by (simp add: run_once_def alloy_connect_def alloy_subscribe_def)
      from subscribed_aligned[OF this] a show ?thesis by blast
    qed (use assms(1) Inr t a in \<open>auto simp: run_once_def alloy_connect_def alloy_subscribe_def\<close>)
  next
    assume "(\<exists>e. r1 = Err e) \<and> cut_off pubsub_move w1"
    with assms(1) Inr t show ?thesis by (auto simp: run_once_def alloy_connect_def)
  qed
qed (use assms in \<open>auto simp: run_once_def alloy_connect_def\<close>)

lemma run_sessions_aligned:
  assumes "run_sessions (run_once on_payload msg) completed b sessions w = (r, w')"
    and "aligned pubsub_move w" "task_status w \<in> {Idle, Reconnecting}"
  shows "r \<noteq> Ok Completed \<and> (aligned pubsub_move w' \<or> cut_off pubsub_move w')"
  using assms
proof (induction sessions arbitrary: b w)
  case Nil
  then show ?case by (simp add: ret_eq)
next
  case (Cons s rest)
  obtain r1 w1 where t: "transition Connecting None w = (r1, w1)" by fastforce
  have "pubsub_move (task_status w) Connecting" using Cons.prems(3) by (auto intro: pubsub_move.intros)
  from aligned_transition[OF t Cons.prems(2) this] show ?case
  proof
    assume a: "r1 = Ok () \<and> aligned pubsub_move w1 \<and> task_status w1 = Connecting"
    obtain r2 w2 where o: "run_once on_payload msg s w1 = (r2, w2)" by fastforce
    note once = run_once_aligned[OF o] 
    show ?thesis
    proof (cases r2)
      case (Err e)
      obtain r3 w3 where bo: "back_off b e w2 = (r3, w3)" by fastforce
      have "r3 = Ok () \<and> aligned pubsub_move w3 \<and> task_status w3 = Reconnecting
        \<or> (\<exists>e. r3 = Err e) \<and> cut_off pubsub_move w3"
        using once a back_off_aligned[OF bo, of pubsub_move] back_off_cut_off[OF bo, of pubsub_move]
        by (blast intro: pubsub_move.intros)
      then show ?thesis
      proof
        assume c: "r3 = Ok () \<and> aligned pubsub_move w3 \<and> task_status w3 = Reconnecting"
        with Cons.prems(1) t a o Err bo
        have "run_sessions (run_once on_payload msg) completed
            (next_backoff (cx_reconnect_max_ms (tk_context w3)) b) rest w3 = (r, w')"
          by (simp add: act_match_def)
        from Cons.IH[OF this] c show ?thesis by simp
      qed (use Cons.prems(1) t a o Err bo in \<open>auto simp: act_match_def\<close>)
    qed (use Cons.prems(1) t a o once in \<open>auto simp: act_match_def finish_run_def ret_def split: progress.splits\<close>)
  next
    assume "(\<exists>e. r1 = Err e) \<and> cut_off pubsub_move w1"
    with Cons.prems(1) t show ?thesis by auto
  qed
qed

text \<open>One round of the reconnect loop, by the pauses it makes.\<close>

lemma run_sessions_Cons:
  assumes "run_sessions (run_once on_payload msg) completed b (s # rest) w = (r, w')" "still c slept w"
  obtains (stay) "still c slept w'" | (one) "still c (slept @ [b]) w'"
  | (again) w3 where "still c (slept @ [b]) w3"
      "run_sessions (run_once on_payload msg) completed (next_backoff (cx_reconnect_max_ms c) b) rest w3 = (r, w')"
  using assms(1)[unfolded run_sessions.simps]
proof (cases rule: act_bind_split)
  case (stops v)
  from keepsD[OF transition_still assms(2) stops(1)] stay show ?thesis by blast
next
  case (continues u w1)
  note s1 = keepsD[OF transition_still assms(2) continues(1)]
  obtain r2 w2 where o: "run_once on_payload msg s w1 = (r2, w2)" by fastforce
  note s2 = keepsD[OF run_once_still s1 o]
  show ?thesis
  proof (cases r2)
    case (Ok p)
    with continues(2) o have "finish_run completed p w2 = (r, w')" by (simp add: act_match_def)
    moreover have "keeps (still c slept) (finish_run completed p)"
      unfolding finish_run_def by (cases p) (auto intro: keeps_bind keeps_ret transition_still)
    ultimately show ?thesis using s2 stay by (blast dest: keepsD)
  next
    case (Err e)
    with continues(2) o have "act_bind (back_off b e) (\<lambda>_ w. run_sessions (run_once on_payload msg) completed
        (next_backoff (cx_reconnect_max_ms (tk_context w)) b) rest w) w2 = (r, w')"
      by (simp add: act_match_def)
    then show ?thesis
    proof (cases rule: act_bind_split)
      case (stops v)
      from back_off_slept[OF stops(1) s2] stay one show ?thesis by blast
    next
      case (continues u w3)
      from back_off_slept[OF continues(1) s2] have s3: "still c (slept @ [b]) w3" by simp
      then have "tk_context w3 = c" by (simp add: still_def)
      with continues(2) again[OF s3] show ?thesis by simp
    qed
  qed (use continues(2) o s2 stay in \<open>simp add: act_match_def\<close>)
qed

lemma run_sessions_slept:
  assumes "run_sessions (run_once on_payload msg) completed b sessions w = (r, w')" "still c slept w"
    and "unat b = backoff_at initial_ms (cx_reconnect_max_ms c) k"
  shows "\<exists>j ms. j \<le> length sessions \<and> still c (slept @ ms) w' \<and>
    map unat ms = map (backoff_at initial_ms (cx_reconnect_max_ms c)) [k..<k + j]"
  using assms
proof (induction sessions arbitrary: b w slept k)
  case Nil
  then show ?case by (auto simp: ret_eq intro!: exI[of _ 0] exI[of _ "[]"])
next
  case (Cons s rest)
  from Cons.prems(1,2) show ?case
  proof (cases rule: run_sessions_Cons)
    case stay
    then show ?thesis by (auto intro!: exI[of _ 0] exI[of _ "[]"])
  next
    case one
    with Cons.prems(3) show ?thesis by (auto intro!: exI[of _ 1] exI[of _ "[b]"])
  next
    case (again w3)
    from Cons.IH[OF again(2,1) backoff_at_Suc[OF Cons.prems(3)]] obtain j ms where
      "j \<le> length rest" "still c ((slept @ [b]) @ ms) w'"
      "map unat ms = map (backoff_at initial_ms (cx_reconnect_max_ms c)) [Suc k..<Suc k + j]" by blast
    moreover have "[k..<k + Suc j] = k # [Suc k..<Suc k + j]" by (simp add: upt_conv_Cons del: upt_Suc)
    ultimately show ?thesis using Cons.prems(3)
      by (intro exI[of _ "Suc j"] exI[of _ "b # ms"]) (simp del: upt_Suc)
  qed
qed

text \<open>A session that cannot be set up, or whose subscription closes or falls silent, ends.\<close>

lemma pump_closed:
  assumes "Subscription_Closed \<in> set arrivals"
  shows "\<not> is_ok (fst (pump on_payload msg n arrivals w))"
  using assms
proof (induction arrivals arbitrary: n w)
  case (Cons a rest)
  then show ?case by (cases a) (auto simp: act_bind_def lift_def split: prod.splits res.splits)
qed simp

lemma pump_silent: "\<not> is_ok (fst (pump on_payload msg n (pre @ Silence # Silence # post) w))"
proof (induction pre arbitrary: n w)
  case Nil
  show ?case
    by (auto simp: note_silence_def ensure_def act_bind_def lift_def split: prod.splits res.splits)
next
  case (Cons a rest)
  then show ?case by (cases a) (auto simp: act_bind_def lift_def split: prod.splits res.splits)
qed

lemma run_once_breaks:
  assumes "session_breaks s"
  shows "\<not> is_ok (fst (run_once on_payload msg s w))"
proof -
  have p: "\<not> is_ok (fst (pump on_payload msg 0 (se_arrivals s) w))"
    if "\<not> isl (se_connect s)" "\<not> isl (se_subscribe s)" for w
    using that assms pump_closed[of "se_arrivals s" msg 0 w] pump_silent[of msg 0 _ _ w] falls_silent_split[of "se_arrivals s"]
    unfolding session_breaks_def by metis
  show ?thesis
    using p by (cases "se_connect s"; cases "se_subscribe s")
      (auto simp: run_once_def alloy_connect_def alloy_subscribe_def act_bind_def lift_def split: prod.splits res.splits)
qed

end

text \<open>Streams whose handling of a payload cannot panic keep reconnecting.\<close>

locale steady_handler = payload_handler +
  assumes no_panic: "on_payload v answer w \<noteq> (Panic, w')"
begin

lemma pump_no_panic: "pump on_payload msg n arrivals w \<noteq> (Panic, w')"
proof (induction arrivals arbitrary: n w)
  case (Cons a rest)
  then show ?case by (cases a) (auto simp: act_bind_eq_Panic lift_eq no_panic)
qed (simp add: ret_eq)

lemma run_once_no_panic: "run_once on_payload msg s w \<noteq> (Panic, w')"
  by (cases "se_connect s"; cases "se_subscribe s")
    (auto simp: run_once_def alloy_connect_def alloy_subscribe_def act_bind_eq_Panic lift_eq pump_no_panic)

lemma run_sessions_live:
  assumes "mb_takes (tk_runtime_events w) = None" "list_all session_breaks sessions"
  shows "\<exists>w'. run_sessions (run_once on_payload msg) completed b sessions w = (Ok Waiting, w') \<and>
    length (tk_slept w') = length (tk_slept w) + length sessions \<and>
    task_status w' = (if sessions = [] then task_status w else Reconnecting)"
  using assms
proof (induction sessions arbitrary: b w)
  case Nil
  then show ?case by (simp add: ret_def)
next
  case (Cons s rest)
  obtain w1 where t: "transition Connecting None w = (Ok (), w1)" "mb_takes (tk_runtime_events w1) = None"
    using open_transition[OF Cons.prems(1), of Connecting None] by metis
  obtain r2 w2 where o: "run_once on_payload msg s w1 = (r2, w2)" by fastforce
  with run_once_breaks[of s msg w1] run_once_no_panic[of msg s w1] Cons.prems(2) obtain e where e: "r2 = Err e"
    by (cases r2) auto
  have s: "still (tk_context w) (tk_slept w) w" by (simp add: still_def)
  note s2 = keepsD[OF run_once_still keepsD[OF transition_still s t(1)] o]
  have "mb_takes (tk_runtime_events w2) = None" using keepsD[OF run_once_takes t(2) o] .
  then obtain w3 where bo: "back_off b e w2 = (Ok (), w3)" "mb_takes (tk_runtime_events w3) = None"
      "task_status w3 = Reconnecting"
    using back_off_open[of w2 b e] by metis
  from back_off_slept[OF bo(1) s2] have s3: "length (tk_slept w3) = Suc (length (tk_slept w))"
    by (simp add: still_def)
  from Cons.IH[OF bo(2), of "next_backoff (cx_reconnect_max_ms (tk_context w3)) b"] Cons.prems(2) t o e bo s3
  show ?case by (auto simp: act_match_def split: if_splits)
qed

end

text \<open>What a stream publishes for a payload.\<close>

locale publisher = payload_handler +
  fixes published :: "Value \<Rightarrow> lookup \<Rightarrow> Event list \<Rightarrow> bool"
  assumes published: "on_payload v answer w = (Ok (), w') \<Longrightarrow>
      \<exists>es. mb_sent (tk_events w') = mb_sent (tk_events w) @ es \<and> published v answer es"
    and unpublished: "on_payload v answer w = (r, w') \<Longrightarrow> \<not> is_ok r \<Longrightarrow> tk_events w' = tk_events w"
begin

text \<open>The events sent so far answer the first payloads, in their order.\<close>

definition answers :: "(Value \<times> lookup) list \<Rightarrow> Event list \<Rightarrow> bool" where
  "answers ps es \<longleftrightarrow> (\<exists>ess. es = concat ess \<and> list_all2 (\<lambda>(v, answer). published v answer) ps ess)"

lemma answers_Nil: "answers [] []"
  by (auto simp: answers_def)

lemma answers_Cons: "published v answer es \<Longrightarrow> answers ps fs \<Longrightarrow> answers ((v, answer) # ps) (es @ fs)"
  unfolding answers_def by (metis (mono_tags, lifting) case_prod_conv concat.simps(2) list.rel_inject(2))

lemma pump_publishes:
  assumes "pump on_payload msg n arrivals w = (r, w')"
  shows "\<exists>k es. mb_sent (tk_events w') = mb_sent (tk_events w) @ es \<and> answers (take k (payloads arrivals)) es \<and>
    (is_ok r \<longrightarrow> length (payloads arrivals) \<le> k)"
  using assms
proof (induction arrivals arbitrary: n w)
  case Nil
  then show ?case by (auto simp: ret_eq intro!: exI[of _ 0] exI[of _ "[]"] answers_Nil)
next
  case (Cons a rest)
  have none: ?case if "tk_events w' = tk_events w" "\<not> is_ok r"
    using that by (auto intro!: exI[of _ 0] exI[of _ "[]"] answers_Nil)
  show ?case
  proof (cases a)
    case Silence
    from Cons.prems[unfolded Silence pump.simps] show ?thesis
    proof (cases rule: act_bind_split)
      case (continues u w1)
      with Cons.IH[OF continues(2)] keepsD[OF note_silence_events refl continues(1)] Silence show ?thesis by simp
    next
      case (stops v)
      with keepsD[OF note_silence_events refl stops(1)] none show ?thesis by simp
    qed
  next
    case (Payload v answer)
    from Cons.prems[unfolded Payload pump.simps] show ?thesis
    proof (cases rule: act_bind_split)
      case (continues u w1)
      from published[of v answer w w1] continues(1) obtain es where
        es: "mb_sent (tk_events w1) = mb_sent (tk_events w) @ es" "published v answer es" by auto
      from Cons.IH[OF continues(2)] obtain k fs where
        "mb_sent (tk_events w') = mb_sent (tk_events w1) @ fs" "answers (take k (payloads rest)) fs"
        "is_ok r \<longrightarrow> length (payloads rest) \<le> k" by blast
      with es Payload show ?thesis by (intro exI[of _ "Suc k"] exI[of _ "es @ fs"]) (simp add: answers_Cons)
    next
      case (stops u)
      with unpublished[OF stops(1,2)] none show ?thesis by simp
    qed
  qed (use Cons.prems none in \<open>auto simp: lift_eq\<close>)
qed

lemma run_once_publishes:
  assumes "run_once on_payload msg s w = (r, w')"
  shows "\<exists>k es. mb_sent (tk_events w') = mb_sent (tk_events w) @ es \<and>
    answers (take k (payloads (se_arrivals s))) es \<and> (is_ok r \<longrightarrow> length (payloads (se_arrivals s)) \<le> k)"
proof -
  have none: ?thesis if "tk_events w' = tk_events w" "\<not> is_ok r"
    using that by (auto intro!: exI[of _ 0] exI[of _ "[]"] answers_Nil)
  let ?prepared = "act_bind (alloy_connect s) (\<lambda>_. act_bind (transition Subscribing None) (\<lambda>_.
    act_bind (alloy_subscribe s) (\<lambda>i. transition Running (Some (''subscription='' @ i)))))"
  have "keeps (\<lambda>w. tk_events w = ev) ?prepared" for ev
    unfolding alloy_connect_def alloy_subscribe_def by (intro keeps_intros)
  note prepared = keepsD[OF this refl]
  have "act_bind ?prepared (\<lambda>_. pump on_payload msg 0 (se_arrivals s)) w = (r, w')"
    using assms by (simp add: run_once_def act_bind_assoc)
  then show ?thesis
  proof (cases rule: act_bind_split)
    case (continues u w1)
    with pump_publishes[OF continues(2)] prepared[OF continues(1)] show ?thesis by simp
  next
    case (stops v)
    with prepared[OF stops(1)] none show ?thesis by simp
  qed
qed

end

section \<open>The three streams\<close>

text \<open>A log that was decoded from a payload.\<close>

definition log_from :: "abi \<Rightarrow> Value \<Rightarrow> Log \<Rightarrow> bool" where
  "log_from ab v l \<longleftrightarrow>
    (\<exists>raw md. raw_log_from_value v = Some raw \<and> l = to_log ab raw md \<and>
      md_tx_hash md = rw_tx_hash raw \<and> md_block_context md = raw_log_context raw)"

definition log_published :: "abi \<Rightarrow> Value \<Rightarrow> lookup \<Rightarrow> Event list \<Rightarrow> bool" where
  "log_published ab v answer es \<longleftrightarrow> (\<exists>l. log_from ab v l \<and> es = [Event_Log l])"

definition block_published :: "Value \<Rightarrow> lookup \<Rightarrow> Event list \<Rightarrow> bool" where
  "block_published v answer es \<longleftrightarrow>
    (\<exists>raw md. raw_block_from_value v = Some raw \<and> es = [Event_Block (to_block raw md)] \<and>
      md_block_context md = raw_block_context raw)"

definition transaction_published :: "abi \<Rightarrow> Value \<Rightarrow> lookup \<Rightarrow> Event list \<Rightarrow> bool" where
  "transaction_published ab v answer es \<longleftrightarrow>
    (let m = (case as_str v of None \<Rightarrow> v | Some _ \<Rightarrow> (case answer of Replied x \<Rightarrow> x | _ \<Rightarrow> JNull)) in
     if m = JNull then es = []
     else (\<exists>raw md tx. raw_tx_from_value m = Some raw \<and> to_transaction ab raw md = (Ok tx :: (IngestError, Transaction) res) \<and>
       es = [Event_Transaction tx] \<and> md_tx_hash md = rt_tx_hash raw \<and> md_block_context md = raw_tx_context raw))"

lemmas payload_defs = task_defs lift_def untouched_def payload_size_bytes_def

lemma on_log_payload_cases:
  assumes "on_log_payload ab sz v answer w = (r, w')"
  obtains (sent) "r = Ok ()" "untouched w w'"
      "\<exists>es. mb_sent (tk_events w') = mb_sent (tk_events w) @ es \<and> log_published ab v answer es"
    | (failed) e where "r = Err e" "untouched w w'" "tk_events w' = tk_events w"
proof (cases "raw_log_from_value v")
  case None
  with assms failed show ?thesis by (auto simp: on_log_payload_def payload_defs)
next
  case (Some raw)
  show ?thesis
  proof (cases "\<exists>len. sz v = Inr len \<and> mailbox_open (tk_events w)")
    case True
    then obtain len where len: "sz v = Inr len" "mailbox_open (tk_events w)" by blast
    let ?md = "log_metadata_of (raw_log_decode ab raw) raw (raw_log_context raw) (context_channel (tk_context w))
      (tk_clock w 0) len (w\<lparr>tk_clock := \<lambda>n. tk_clock w (Suc n)\<rparr>)"
    have "r = Ok ()" "untouched w w'" "mb_sent (tk_events w') = mb_sent (tk_events w) @ [Event_Log (to_log ab raw ?md)]"
      using assms Some len by (auto simp: on_log_payload_def payload_defs)
    moreover have "log_published ab v answer [Event_Log (to_log ab raw ?md)]"
      using Some by (auto simp: log_published_def log_from_def log_metadata_of_def intro!: exI[of _ ?md])
    ultimately show ?thesis using sent by blast
  next
    case False
    with assms Some failed show ?thesis
      by (cases "sz v") (auto simp: on_log_payload_def payload_defs)
  qed
qed

lemma on_block_payload_cases:
  assumes "on_block_payload sz v answer w = (r, w')"
  obtains (sent) "r = Ok ()" "untouched w w'"
      "\<exists>es. mb_sent (tk_events w') = mb_sent (tk_events w) @ es \<and> block_published v answer es"
    | (failed) e where "r = Err e" "untouched w w'" "tk_events w' = tk_events w"
proof (cases "raw_block_from_value v")
  case None
  with assms failed show ?thesis by (auto simp: on_block_payload_def payload_defs)
next
  case (Some raw)
  show ?thesis
  proof (cases "\<exists>len. sz v = Inr len \<and> mailbox_open (tk_events w)")
    case True
    then obtain len where len: "sz v = Inr len" "mailbox_open (tk_events w)" by blast
    let ?md = "block_metadata_of raw (tk_clock w 0) len (w\<lparr>tk_clock := \<lambda>n. tk_clock w (Suc n)\<rparr>)"
    have "r = Ok ()" "untouched w w'" "mb_sent (tk_events w') = mb_sent (tk_events w) @ [Event_Block (to_block raw ?md)]"
      using assms Some len by (auto simp: on_block_payload_def payload_defs)
    moreover have "block_published v answer [Event_Block (to_block raw ?md)]"
      unfolding block_published_def using Some by (intro exI[of _ raw] exI[of _ ?md]) (simp add: block_metadata_of_def)
    ultimately show ?thesis using sent by blast
  next
    case False
    with assms Some failed show ?thesis
      by (cases "sz v") (auto simp: on_block_payload_def payload_defs)
  qed
qed

interpretation log_stream: publisher "on_log_payload ab sz" "log_published ab" for ab sz
  by unfold_locales (auto elim: on_log_payload_cases)

interpretation log_stream: steady_handler "on_log_payload ab sz" for ab sz
  by unfold_locales (auto elim: on_log_payload_cases)

interpretation block_stream: publisher "on_block_payload sz" block_published for sz
  by unfold_locales (auto elim: on_block_payload_cases)

interpretation block_stream: steady_handler "on_block_payload sz" for sz
  by unfold_locales (auto elim: on_block_payload_cases)

lemma materialize_cases:
  assumes "materialize_transaction v answer w = (r, w')"
  obtains m where "r = Ok m" "w' = w"
      "m = (case as_str v of None \<Rightarrow> v | Some _ \<Rightarrow> (case answer of Replied x \<Rightarrow> x | _ \<Rightarrow> JNull))"
    | e where "r = Err e" "w' = w"
  using assms by (auto simp: materialize_transaction_def split: option.splits lookup.splits)

lemma publish_transaction_cases:
  assumes "publish_transaction ab sz m w = (r, w')"
  obtains (sent) raw md tx where "r = Ok ()" "untouched w w'" "raw_tx_from_value m = Some raw"
      "to_transaction ab raw md = (Ok tx :: (IngestError, Transaction) res)"
      "mb_sent (tk_events w') = mb_sent (tk_events w) @ [Event_Transaction tx]"
      "md_tx_hash md = rt_tx_hash raw" "md_block_context md = raw_tx_context raw"
    | (failed) "\<not> is_ok r" "untouched w w'" "tk_events w' = tk_events w"
proof (cases "raw_tx_from_value m")
  case None
  with assms failed show ?thesis by (auto simp: publish_transaction_def payload_defs)
next
  case (Some raw)
  show ?thesis
  proof (cases "raw_tx_decode ab raw :: (IngestError, TransactionDecode) res")
    case (Ok decoded)
    show ?thesis
    proof (cases "\<exists>len. sz m = Inr len \<and> mailbox_open (tk_events w)")
      case True
      then obtain len where len: "sz m = Inr len" "mailbox_open (tk_events w)" by blast
      let ?md = "transaction_metadata_of decoded raw (tk_clock w 0) len (w\<lparr>tk_clock := \<lambda>n. tk_clock w (Suc n)\<rparr>)"
      from Ok obtain tx where tx: "to_transaction ab raw ?md = (Ok tx :: (IngestError, Transaction) res)"
        by (auto simp: to_transaction_def)
      have "r = Ok ()" "untouched w w'" "mb_sent (tk_events w') = mb_sent (tk_events w) @ [Event_Transaction tx]"
        using assms Some len Ok tx by (auto simp: publish_transaction_def payload_defs)
      with tx Some sent show ?thesis by (auto simp: transaction_metadata_of_def)
    next
      case False
      with assms Some Ok failed show ?thesis
        by (cases "sz m") (auto simp: publish_transaction_def payload_defs to_transaction_def)
    qed
  qed (use assms Some failed in \<open>auto simp: publish_transaction_def payload_defs\<close>)
qed

lemma on_transaction_payload_cases:
  assumes "on_transaction_payload ab sz v answer w = (r, w')"
  obtains (sent) "r = Ok ()" "untouched w w'"
      "\<exists>es. mb_sent (tk_events w') = mb_sent (tk_events w) @ es \<and> transaction_published ab v answer es"
    | (failed) "\<not> is_ok r" "untouched w w'" "tk_events w' = tk_events w"
proof -
  obtain r1 w1 where m: "materialize_transaction v answer w = (r1, w1)" by fastforce
  then show ?thesis
  proof (cases rule: materialize_cases)
    case (1 x)
    show ?thesis
    proof (cases "x = JNull")
      case True
      with assms m 1 show ?thesis
        by (intro sent) (auto simp: on_transaction_payload_def ret_eq untouched_def transaction_published_def Let_def)
    next
      case False
      with assms m 1 have "publish_transaction ab sz x w = (r, w')" by (simp add: on_transaction_payload_def)
      then show ?thesis
      proof (cases rule: publish_transaction_cases)
        case (sent raw md tx)
        with False 1(3) have "transaction_published ab v answer [Event_Transaction tx]"
          unfolding transaction_published_def Let_def by auto
        with sent that(1) show ?thesis by blast
      qed (rule failed)
    qed
  next
    case (2 e)
    with assms m failed show ?thesis by (auto simp: on_transaction_payload_def untouched_def)
  qed
qed

interpretation transaction_stream: publisher "on_transaction_payload ab sz" "transaction_published ab" for ab sz
  by unfold_locales (auto elim: on_transaction_payload_cases)

definition fresh_task :: "task \<Rightarrow> bool" where
  "fresh_task w \<longleftrightarrow> task_status w = Idle \<and> mb_sent (tk_runtime_events w) = [] \<and> tk_slept w = []"

definition pubsub_runs :: "abi \<Rightarrow> sizes \<Rightarrow> (session list \<Rightarrow> progress ingest) set" where
  "pubsub_runs ab sz = {log_run ab sz, block_run sz, transaction_run ab sz}"

lemmas run_defs = log_run_def block_run_def transaction_run_def
  log_run_once_def block_run_once_def transaction_run_once_def

lemma pubsub_runsE:
  assumes "run \<in> pubsub_runs ab sz" "fresh_task w"
  obtains on_payload msg completed where "payload_handler on_payload"
    "\<And>sessions. run sessions w =
      run_sessions (run_once on_payload msg) completed (cx_reconnect_initial_ms (tk_context w)) sessions w"
proof -
  have "stream_run once completed sessions w = run_sessions once completed (cx_reconnect_initial_ms (tk_context w)) sessions w"
    for once completed sessions
    using assms(2) by (simp add: stream_run_def act_bind_def ensure_not_stopped_def fresh_task_def)
  note start = this
  from assms(1) consider "run = log_run ab sz" | "run = block_run sz" | "run = transaction_run ab sz"
    by (auto simp: pubsub_runs_def)
  then show ?thesis
  proof cases
    case 1
    show ?thesis by (rule that[OF log_stream.payload_handler_axioms]) (simp add: 1 run_defs start)
  next
    case 2
    show ?thesis by (rule that[OF block_stream.payload_handler_axioms]) (simp add: 2 run_defs start)
  next
    case 3
    show ?thesis by (rule that[OF transaction_stream.payload_handler_axioms]) (simp add: 3 run_defs start)
  qed
qed

lemma stream_run_live:
  assumes "steady_handler on_payload" "fresh_task w" "mb_takes (tk_runtime_events w) = None"
    and "list_all session_breaks sessions"
  shows "\<exists>w'. stream_run (run_once on_payload msg) completed sessions w = (Ok Waiting, w') \<and>
    length (tk_slept w') = length sessions \<and> task_status w' = (if sessions = [] then Idle else Reconnecting)"
proof -
  have "stream_run (run_once on_payload msg) completed sessions w =
      run_sessions (run_once on_payload msg) completed (cx_reconnect_initial_ms (tk_context w)) sessions w"
    using assms(2) by (simp add: stream_run_def act_bind_def ensure_not_stopped_def fresh_task_def)
  with steady_handler.run_sessions_live[OF assms(1,3,4)] assms(2) show ?thesis
    unfolding fresh_task_def by (metis add_0 list.size(3))
qed

section \<open>A small node\<close>

definition sample_abi :: abi where
  "sample_abi = \<lparr>ab_topic = (\<lambda>_. Some []), ab_hex_decode = (\<lambda>_. Some []), ab_address = (\<lambda>_. ''0xa''),
    ab_show_u256 = (\<lambda>_. ''0''), ab_show_i256 = (\<lambda>_. ''0''), ab_show_u160 = (\<lambda>_. ''0''),
    ab_v3_mint_signature = ''mint'', ab_v3_burn_signature = ''burn'',
    ab_v2_swap = (\<lambda>_ _. None), ab_v2_sync = (\<lambda>_ _. Some (42, 84)), ab_v2_mint = (\<lambda>_ _. None),
    ab_v2_burn = (\<lambda>_ _. None), ab_v3_swap = (\<lambda>_ _. None), ab_v3_mint = (\<lambda>_ _. None), ab_v3_burn = (\<lambda>_ _. None),
    ab_tokens_for_tokens = (\<lambda>_. None), ab_tokens_for_tokens_fee = (\<lambda>_. None), ab_tokens_for_eth = (\<lambda>_. None),
    ab_tokens_for_eth_fee = (\<lambda>_. None), ab_eth_for_tokens = (\<lambda>_. None), ab_eth_for_tokens_fee = (\<lambda>_. None),
    ab_tokens_for_exact_tokens = (\<lambda>_. None), ab_tokens_for_exact_eth = (\<lambda>_. None),
    ab_eth_for_exact_tokens = (\<lambda>_. None), ab_exact_input_single = (\<lambda>_. None), ab_exact_input = (\<lambda>_. None),
    ab_exact_output_single = (\<lambda>_. None), ab_exact_output = (\<lambda>_. None)\<rparr>"

definition sample_sizes :: sizes where
  "sample_sizes _ = Inr 1"

definition sample_context :: IngestStreamContext where
  "sample_context = \<lparr>cx_chain_id = 8453, cx_endpoint = Endpoint_Ws ''ws://node'', cx_reconnect_initial_ms = 500,
    cx_reconnect_max_ms = 800, cx_heartbeat_timeout_secs = 15\<rparr>"

definition sample_task :: "string \<Rightarrow> StreamSubscription \<Rightarrow> task" where
  "sample_task name subscription = \<lparr>tk_context = sample_context, tk_runtime = stream_runtime_new name subscription,
    tk_events = \<lparr>mb_sent = [], mb_takes = None\<rparr>, tk_runtime_events = \<lparr>mb_sent = [], mb_takes = None\<rparr>,
    tk_clock = (\<lambda>n. of_nat n), tk_slept = []\<rparr>"

definition down_session :: session where
  "down_session = \<lparr>se_connect = Inl ''refused'', se_subscribe = Inr ''0x1'', se_arrivals = []\<rparr>"

definition sync_value :: Value where
  "sync_value = JObject [(''address'', JString ''0xPOOL''), (''topics'', JArray [JString V2_SYNC]),
    (''transactionHash'', JString ''0xt1'')]"

definition live_session :: session where
  "live_session = \<lparr>se_connect = Inr (), se_subscribe = Inr ''0x1'',
    se_arrivals = [Silence, Payload sync_value No_Reply, Silence, Payload sync_value No_Reply]\<rparr>"

lemma fresh_sample_task: "fresh_task (sample_task name subscription)"
  by (simp add: fresh_task_def sample_task_def stream_runtime_new_def)

text \<open>C32: the status a stream reports refines its automaton.  Whatever the node does, the
  runtime events of a log, block or transaction stream started fresh are a run of the status
  automaton that begins idle, with each report continuing the one before and heartbeats only
  while it is running; the run ends in the stream's own status unless nobody listens any more,
  and the stream never completes.\<close>

theorem stream_status_refines_automaton:
  assumes "run \<in> pubsub_runs ab sz" "fresh_task w" "run sessions w = (r, w')"
  shows "\<exists>s. follow pubsub_move Idle (mb_sent (tk_runtime_events w')) = Some s \<and>
    (s = task_status w' \<or> \<not> mailbox_open (tk_runtime_events w')) \<and> r \<noteq> Ok Completed"
proof -
  from pubsub_runsE[OF assms(1,2)] obtain on_payload msg completed where
    h: "payload_handler on_payload" and run: "\<And>sessions. run sessions w =
      run_sessions (run_once on_payload msg) completed (cx_reconnect_initial_ms (tk_context w)) sessions w" by metis
  have "aligned pubsub_move w" "task_status w \<in> {Idle, Reconnecting}"
    using assms(2) by (simp_all add: aligned_def fresh_task_def)
  from payload_handler.run_sessions_aligned[OF h assms(3)[unfolded run] this] show ?thesis
    by (auto simp: aligned_def cut_off_def)
qed

theorem stream_status_refines_automaton_witness:
  "\<exists>r w' s. log_run sample_abi sample_sizes [down_session, live_session] (sample_task ''log_stream'' Logs) = (r, w') \<and>
    follow pubsub_move Idle (mb_sent (tk_runtime_events w')) = Some s"
proof -
  obtain r w' where run: "log_run sample_abi sample_sizes [down_session, live_session] (sample_task ''log_stream'' Logs) = (r, w')"
    by fastforce
  have "log_run sample_abi sample_sizes \<in> pubsub_runs sample_abi sample_sizes" by (simp add: pubsub_runs_def)
  from stream_status_refines_automaton[OF this fresh_sample_task run] run show ?thesis by blast
qed

text \<open>C35: the pauses between reconnections.  Whatever the node does, the pauses a stream has
  made since it started are the first entries of one schedule: the configured delay, then
  twice, four times, eight times it, each cut at the configured maximum; there are never more
  of them than connections, and exactly one for each connection of a log or block stream whose
  reports are received and whose connections all break.\<close>

theorem stream_backoff_schedule:
  assumes "run \<in> pubsub_runs ab sz" "fresh_task w" "run sessions w = (r, w')"
  shows "length (tk_slept w') \<le> length sessions \<and> map unat (tk_slept w') =
      map (backoff_at (cx_reconnect_initial_ms (tk_context w)) (cx_reconnect_max_ms (tk_context w)))
        [0..<length (tk_slept w')] \<and>
    (run \<in> {log_run ab sz, block_run sz} \<longrightarrow> mb_takes (tk_runtime_events w) = None \<longrightarrow>
      list_all session_breaks sessions \<longrightarrow> length (tk_slept w') = length sessions)"
proof -
  from pubsub_runsE[OF assms(1,2)] obtain on_payload msg completed where
    h: "payload_handler on_payload" and run: "\<And>sessions. run sessions w =
      run_sessions (run_once on_payload msg) completed (cx_reconnect_initial_ms (tk_context w)) sessions w" by metis
  have s: "still (tk_context w) [] w" using assms(2) by (simp add: still_def fresh_task_def)
  from payload_handler.run_sessions_slept[OF h assms(3)[unfolded run] s, where k = 0 and
      initial_ms = "cx_reconnect_initial_ms (tk_context w)"] obtain j ms where
    j: "j \<le> length sessions" "still (tk_context w) ms w'" "map unat ms =
      map (backoff_at (cx_reconnect_initial_ms (tk_context w)) (cx_reconnect_max_ms (tk_context w))) [0..<j]"
    by (auto simp: backoff_at_def)
  have "length ms = j" using arg_cong[OF j(3), of length] by simp
  moreover have "length (tk_slept w') = length sessions"
    if "run \<in> {log_run ab sz, block_run sz}" "mb_takes (tk_runtime_events w) = None" "list_all session_breaks sessions"
  proof -
    have "\<exists>w''. run sessions w = (Ok Waiting, w'') \<and> length (tk_slept w'') = length sessions"
      using that(1) stream_run_live[OF log_stream.steady_handler_axioms assms(2) that(2,3)]
        stream_run_live[OF block_stream.steady_handler_axioms assms(2) that(2,3)]
      unfolding run_defs by blast
    with assms(3) show ?thesis by auto
  qed
  ultimately show ?thesis using j by (simp add: still_def)
qed

theorem stream_backoff_schedule_witness:
  "\<exists>r w'. log_run sample_abi sample_sizes [down_session, down_session, down_session]
      (sample_task ''log_stream'' Logs) = (r, w') \<and> map unat (tk_slept w') = [500, 800, 800]"
proof -
  let ?w = "sample_task ''log_stream'' Logs" and ?run = "log_run sample_abi sample_sizes"
  let ?down = "[down_session, down_session, down_session]"
  have m: "?run \<in> pubsub_runs sample_abi sample_sizes" by (simp add: pubsub_runs_def)
  have breaks: "list_all session_breaks ?down" by (simp add: session_breaks_def down_session_def)
  have takes: "mb_takes (tk_runtime_events ?w) = None" by (simp add: sample_task_def)
  obtain r w' where run: "?run ?down ?w = (r, w')" by fastforce
  from stream_backoff_schedule[OF m fresh_sample_task run] breaks takes
  have "length (tk_slept w') = 3" "map unat (tk_slept w') = map (backoff_at 500 800) [0..<length (tk_slept w')]"
    by (simp_all add: sample_task_def sample_context_def)
  moreover have "[0..<3] = [0, 1, 2 :: nat]" by (simp add: upt_rec)
  ultimately have "map unat (tk_slept w') = [500, 800, 800]" by (simp add: backoff_at_def)
  with run show ?thesis by (intro exI conjI)
qed

text \<open>C37: a log or block stream whose status reports are received reconnects for ever: when
  every connection the node offers fails, closes or falls silent for two windows, the stream is
  still running after all of them, has paused once for each, and is about to connect again.\<close>

theorem stream_always_reconnects:
  assumes "run \<in> {log_run ab sz, block_run sz}" "fresh_task w" "mb_takes (tk_runtime_events w) = None"
    and "list_all session_breaks sessions"
  shows "\<exists>w'. run sessions w = (Ok Waiting, w') \<and> length (tk_slept w') = length sessions \<and>
    task_status w' = (if sessions = [] then Idle else Reconnecting)"
  using assms(1) stream_run_live[OF log_stream.steady_handler_axioms assms(2-4)]
    stream_run_live[OF block_stream.steady_handler_axioms assms(2-4)]
  unfolding run_defs by blast

theorem stream_always_reconnects_witness:
  "\<exists>w'. log_run sample_abi sample_sizes [down_session, down_session] (sample_task ''log_stream'' Logs) = (Ok Waiting, w') \<and>
    length (tk_slept w') = 2 \<and> task_status w' = Reconnecting"
proof -
  have "list_all session_breaks [down_session, down_session]" by (simp add: session_breaks_def down_session_def)
  from stream_always_reconnects[OF _ fresh_sample_task _ this, of "log_run sample_abi sample_sizes" sample_abi sample_sizes
      "''log_stream''" Logs]
  show ?thesis by (simp add: sample_task_def numeral_2_eq_2)
qed

lemma log_published_all:
  "list_all2 (\<lambda>(v, answer). log_published ab v answer) ps ess \<Longrightarrow>
    \<exists>ls. concat ess = map Event_Log ls \<and> list_all2 (\<lambda>(v, _). log_from ab v) ps ls"
proof (induction ps ess rule: list_all2_induct)
  case (Cons p ps es ess)
  then obtain l ls where "es = [Event_Log l]" "concat ess = map Event_Log ls"
    "list_all2 (\<lambda>(v, _). log_from ab v) (p # ps) (l # ls)"
    by (auto simp: log_published_def)
  then show ?case by (intro exI[of _ "l # ls"]) simp
qed simp

text \<open>One connection of the log stream delivers its logs in order.  The events sent are,
  one for one, the decoded logs of the payloads received, in their order, with the transaction
  hash and block of each; only payloads from the first failure on are missing, and none is
  while the connection is up.\<close>

theorem log_session_in_order:
  assumes "log_run_once ab sz s w = (r, w')"
  shows "\<exists>k ls. mb_sent (tk_events w') = mb_sent (tk_events w) @ map Event_Log ls \<and>
    list_all2 (\<lambda>(v, _). log_from ab v) (take k (payloads (se_arrivals s))) ls \<and>
    (is_ok r \<longrightarrow> length (payloads (se_arrivals s)) \<le> k)"
proof -
  from log_stream.run_once_publishes[OF assms[unfolded log_run_once_def]] obtain k es where
    a: "mb_sent (tk_events w') = mb_sent (tk_events w) @ es" "log_stream.answers ab (take k (payloads (se_arrivals s))) es"
      "is_ok r \<longrightarrow> length (payloads (se_arrivals s)) \<le> k" by blast
  from a(2) obtain ess where ess: "es = concat ess"
    "list_all2 (\<lambda>(v, answer). log_published ab v answer) (take k (payloads (se_arrivals s))) ess"
    by (auto simp: log_stream.answers_def)
  from log_published_all[OF ess(2)] ess(1) a(1,3) show ?thesis by metis
qed

theorem log_session_in_order_witness:
  "\<exists>w'. log_run_once sample_abi sample_sizes live_session (sample_task ''log_stream'' Logs) = (Ok Waiting, w') \<and>
    (\<exists>l l'. mb_sent (tk_events w') = [Event_Log l, Event_Log l'] \<and>
      log_from sample_abi sync_value l \<and> log_from sample_abi sync_value l')"
proof -
  obtain w' where run: "log_run_once sample_abi sample_sizes live_session (sample_task ''log_stream'' Logs) = (Ok Waiting, w')"
    by (simp add: log_run_once_def run_once_def alloy_connect_def alloy_subscribe_def live_session_def sample_task_def
        transition_def note_silence_def emit_heartbeat_def on_log_payload_def sync_value_def raw_log_from_value_def
        payload_defs ensure_def sample_sizes_def stream_runtime_new_def mailbox_open_def ret_def Let_def)
  from log_session_in_order[OF run] obtain k ls where k: "mb_sent (tk_events w') = map Event_Log ls"
    "list_all2 (\<lambda>(v, _). log_from sample_abi v) (take k [(sync_value, No_Reply), (sync_value, No_Reply)]) ls" "Suc (Suc 0) \<le> k"
    by (auto simp: live_session_def sample_task_def)
  from k(3) have "take k [(sync_value, No_Reply), (sync_value, No_Reply)] = [(sync_value, No_Reply), (sync_value, No_Reply)]"
    by simp
  with k(1,2) run show ?thesis by (auto simp: list_all2_Cons1)
qed

text \<open>A transaction whose call data has a multi-byte character across its eighth byte
  ends the transaction stream: decoding it panics, so the task is gone without a pause, a
  status report or a reconnection, whatever connections would have followed.\<close>

theorem multibyte_input_ends_stream:
  assumes "se_connect s = Inr ()" "se_subscribe s = Inr i" "se_arrivals s = Payload (JString h) (Replied m) # rest"
    and "raw_tx_from_value m = Some raw" "rt_input raw = Some (''0x'' @ hex)" "trim (''0x'' @ hex) = ''0x'' @ hex"
    and "8 \<le> length hex" "\<not> char_start hex 8"
    and "fresh_task w" "mb_takes (tk_runtime_events w) = None"
  shows "\<exists>w'. transaction_run ab sz (s # later) w = (Panic, w') \<and> tk_slept w' = [] \<and> task_status w' = Running"
proof -
  have slice: "str_slice hex 0 8 = (Panic :: (IngestError, string) res)"
    using assms(7,8) by (simp add: str_slice_def)
  have "m \<noteq> JNull" using assms(4) by (auto simp: raw_tx_from_value_def)
  have "raw_tx_decode ab raw = (Panic :: (IngestError, TransactionDecode) res)"
    using assms(5-7) slice by (simp add: raw_tx_decode_def selector_def Let_def strip_prefix_def)
  with assms(4) \<open>m \<noteq> JNull\<close>
  have payload: "on_transaction_payload ab sz (JString h) (Replied m) w1 = (Panic, w1)" for w1
    by (simp add: on_transaction_payload_def materialize_transaction_def publish_transaction_def payload_defs)
  show ?thesis using assms(1-3,9,10) payload
    by (simp add: transaction_run_def transaction_run_once_def stream_run_def ensure_not_stopped_def fresh_task_def
        run_once_def alloy_connect_def alloy_subscribe_def transition_def act_match_def payload_defs mailbox_open_def
        Let_def)
qed

definition multibyte_value :: Value where
  "multibyte_value = JObject [(''input'', JString (''0x1234567'' @ [CHR 0xC3, CHR 0xA9]))]"

definition multibyte_session :: session where
  "multibyte_session = \<lparr>se_connect = Inr (), se_subscribe = Inr ''0x1'',
    se_arrivals = [Payload (JString ''0xt1'') (Replied multibyte_value)]\<rparr>"

theorem multibyte_input_ends_stream_witness:
  "\<exists>w'. transaction_run sample_abi sample_sizes [multibyte_session, live_session]
      (sample_task ''transaction_stream'' Transactions) = (Panic, w') \<and> tk_slept w' = []"
proof -
  let ?hex = "''1234567'' @ [CHR 0xC3, CHR 0xA9]"
  have t: "trim (''0x'' @ ?hex) = ''0x'' @ ?hex" by code_simp
  have c: "\<not> char_start ?hex 8" by (simp add: char_start_def)
  from multibyte_input_ends_stream[of multibyte_session "''0x1''" "''0xt1''" multibyte_value "[]" _ ?hex
      "sample_task ''transaction_stream'' Transactions" sample_abi sample_sizes "[live_session]", OF _ _ _ _ _ t _ c fresh_sample_task]
  show ?thesis
    by (fastforce simp: multibyte_session_def multibyte_value_def raw_tx_from_value_def string_field_def sample_task_def)
qed

end
