(* ===== verification/Flashblocks.thy ===== *)
theory Flashblocks
  imports Streams
begin

text \<open>
  The flashblocks connector (\<open>src/crates/ingest/src/flashblocks.rs\<close>) and the pipeline that
  starts the streams (\<open>pipeline.rs\<close>).  The websocket is a script of what each wait ends with.
  Decompression, JSON parsing and the derived decoder of the payload struct are external and
  are the fields of \<open>codec\<close>; what the connector does with the decoded payload is modelled in full.
\<close>

section \<open>Payloads\<close>

record FlashblockBase =
  fbb_parent_hash :: "string option"
  fbb_block_number :: "string option"

record FlashblockDiff =
  fbd_block_hash :: "string option"
  fbd_state_root :: "string option"
  fbd_gas_used :: "string option"
  fbd_transactions :: "string list"

record FlashblockMetadata =
  fbm_block_number :: "u64 option"
  fbm_receipts :: "(string \<times> Value) list"

record FlashblockPayload =
  fp_payload_id :: "string option"
  fp_index :: u64
  fp_base :: "FlashblockBase option"
  fp_diff :: "FlashblockDiff option"
  fp_metadata :: "FlashblockMetadata option"

record codec =
  co_gunzip :: "bytes \<Rightarrow> string + bytes"
  co_json :: "bytes \<Rightarrow> string + Value"
  co_schema :: "Value \<Rightarrow> string + FlashblockPayload"

definition looks_gzipped :: "bytes \<Rightarrow> bool" where
  "looks_gzipped bs \<longleftrightarrow> 2 \<le> length bs \<and> bs ! 0 = 0x1f \<and> bs ! 1 = 0x8b"

definition decode_payload :: "codec \<Rightarrow> bytes \<Rightarrow> (string, FlashblockPayload) res" where
  "decode_payload co bs =
    attempt
      (if looks_gzipped bs then
         attempt (map_err (\<lambda>e. ''gzip decompress failed: '' @ e) (external (co_gunzip co bs))) (\<lambda>decompressed.
         map_err (\<lambda>e. ''json parse failed: '' @ e) (external (co_json co decompressed)))
       else map_err (\<lambda>e. ''json parse failed: '' @ e) (external (co_json co bs))) (\<lambda>json.
    map_err (\<lambda>e. ''payload schema mismatch: '' @ e) (external (co_schema co json)))"

definition parse_hex_u64 :: "string \<Rightarrow> u64 option" where
  "parse_hex_u64 input =
    from_str_radix 16 (case strip_prefix ''0x'' input of Some h \<Rightarrow> h | None \<Rightarrow> input)"

definition unwrap_receipt :: "Value \<Rightarrow> Value" where
  "unwrap_receipt receipt =
    (case as_object receipt of
       Some [(_, inner)] \<Rightarrow> if as_object inner \<noteq> None then inner else receipt
     | _ \<Rightarrow> receipt)"

definition value_get :: "Value \<Rightarrow> string \<Rightarrow> Value option" where
  "value_get v key = Option.bind (as_object v) (\<lambda>m. map_of m key)"

definition enrich_log :: "string \<Rightarrow> (string \<times> Value) list \<Rightarrow> Value" where
  "enrich_log tx_hash m =
    JObject (if map_of m ''transactionHash'' = None then m @ [(''transactionHash'', JString tx_hash)] else m)"

definition receipt_logs :: "string \<times> Value \<Rightarrow> Value list" where
  "receipt_logs = (\<lambda>(tx_hash, receipt).
    case Option.bind (value_get (unwrap_receipt receipt) ''logs'') as_array of
      None \<Rightarrow> []
    | Some logs \<Rightarrow> map (enrich_log tx_hash) (List.map_filter as_object logs))"

definition collect_logs :: "(string \<times> Value) list \<Rightarrow> Value list" where
  "collect_logs receipts = concat (map receipt_logs receipts)"

definition extract_views :: "FlashblockPayload \<Rightarrow> u64 option \<times> BlockHash option \<times> BlockHash option \<times>
    string option \<times> u64 option \<times> TxHash list \<times> Value list" where
  "extract_views payload =
    (let parent_block_number = or_else (Option.bind (fp_metadata payload) fbm_block_number)
           (Option.bind (Option.bind (fp_base payload) fbb_block_number) parse_hex_u64);
         parent_hash = Option.bind (fp_base payload) fbb_parent_hash;
         (block_hash, state_root, gas_used) =
           (case fp_diff payload of
              Some diff \<Rightarrow> (fbd_block_hash diff, fbd_state_root diff, Option.bind (fbd_gas_used diff) parse_hex_u64)
            | None \<Rightarrow> (None, None, None));
         tx_hashes = (case fp_metadata payload of Some m \<Rightarrow> map fst (fbm_receipts m) | None \<Rightarrow> []);
         logs = (case fp_metadata payload of Some m \<Rightarrow> collect_logs (fbm_receipts m) | None \<Rightarrow> [])
     in (parent_block_number, parent_hash, block_hash, state_root, gas_used, tx_hashes, logs))"

section \<open>The connector\<close>

definition flashblocks_stream_new :: "IngestStreamContext \<Rightarrow> string \<Rightarrow> BoxedIngestStream" where
  "flashblocks_stream_new context url =
    Flashblocks_Stream context (stream_runtime_new ''flashblocks_stream'' Logs) url"

definition ws_to_ingest :: "string \<Rightarrow> IngestError" where
  "ws_to_ingest e = Ingest_StreamFailure ''flashblocks_stream'' (''websocket error: '' @ e)"

definition size_or_zero :: "sizes \<Rightarrow> Value \<Rightarrow> usize" where
  "size_or_zero sz v = (case payload_size_bytes sz v of Ok len \<Rightarrow> len | _ \<Rightarrow> 0)"

fun emit_logs :: "abi \<Rightarrow> sizes \<Rightarrow> usize \<Rightarrow> Value list \<Rightarrow> usize ingest" where
  "emit_logs ab sz emitted [] = ret emitted"
| "emit_logs ab sz emitted (v # rest) =
    (case raw_log_from_value v of
       None \<Rightarrow> emit_logs ab sz emitted rest
     | Some raw \<Rightarrow>
         act_bind current_time_ms (\<lambda>now.
         act_bind (\<lambda>w. send_event (Event_Log (to_log ab raw (log_metadata_of (raw_log_decode ab raw) raw Pending
           FlashblocksWs now (size_or_zero sz v) w))) w) (\<lambda>_.
         emit_logs ab sz (emitted + 1) rest)))"

definition summary_metadata :: "FlashblockPayload \<Rightarrow> u64 \<Rightarrow> usize \<Rightarrow> task \<Rightarrow> Metadata" where
  "summary_metadata payload now raw_size w =
    \<lparr>md_block_context = Pending, md_channel = FlashblocksWs, md_observed_at_ms = now,
     md_chain_id = cx_chain_id (tk_context w), md_tx_hash = None, md_decode_status = Decoded,
     md_raw = raw_summary Raw_Flashblock raw_size (fp_payload_id payload) (sr_subscription (tk_runtime w))\<rparr>"

definition dispatch :: "abi \<Rightarrow> sizes \<Rightarrow> FlashblockPayload \<Rightarrow> usize \<Rightarrow> unit ingest" where
  "dispatch ab sz payload raw_size =
    (let (block_number, parent_hash, block_hash, state_root, gas_used, tx_hashes, logs) = extract_views payload in
     act_bind (emit_logs ab sz 0 logs) (\<lambda>emitted_logs.
     act_bind current_time_ms (\<lambda>now w.
     send_event (Event_Flashblock
       \<lparr>fb_metadata = summary_metadata payload now raw_size w, fb_payload_id = fp_payload_id payload,
        fb_index = fp_index payload, fb_parent_block_number = block_number, fb_parent_hash = parent_hash,
        fb_block_hash = block_hash, fb_state_root = state_root, fb_gas_used = gas_used,
        fb_tx_hashes = tx_hashes, fb_log_count = emitted_logs\<rparr>) w)))"

text \<open>A frame, with the outcome of answering it where the connector answers.\<close>

datatype ws_frame = Binary bytes | Text bytes | Ping "string + unit" | Pong | Raw_Frame | Close string

datatype ws_arrival = Ws_Frame ws_frame | Ws_Error string | Ws_End | Ws_Silence

record ws_session =
  we_connect :: "string + unit"
  we_arrivals :: "ws_arrival list"

definition on_frame_bytes :: "abi \<Rightarrow> sizes \<Rightarrow> codec \<Rightarrow> bytes \<Rightarrow> unit ingest" where
  "on_frame_bytes ab sz co bs w =
    act_bind (lift (map_err (\<lambda>e. Ingest_InvalidPayload (task_name w) (''flashblocks payload decode failed: '' @ e))
      (decode_payload co bs))) (\<lambda>payload.
    dispatch ab sz payload (of_nat (length bs))) w"

definition on_frame :: "abi \<Rightarrow> sizes \<Rightarrow> codec \<Rightarrow> ws_frame \<Rightarrow> unit ingest" where
  "on_frame ab sz co f =
    (case f of
       Binary bs \<Rightarrow> on_frame_bytes ab sz co bs
     | Text bs \<Rightarrow> on_frame_bytes ab sz co bs
     | Ping answered \<Rightarrow> lift (map_err ws_to_ingest (external answered))
     | Pong \<Rightarrow> ret ()
     | Raw_Frame \<Rightarrow> ret ()
     | Close reason \<Rightarrow> (\<lambda>w. (Err (Ingest_StreamFailure (task_name w) (''flashblocks ws closed: '' @ reason)), w)))"

fun ws_pump :: "abi \<Rightarrow> sizes \<Rightarrow> codec \<Rightarrow> nat \<Rightarrow> ws_arrival list \<Rightarrow> progress ingest" where
  "ws_pump ab sz co idle_intervals [] = ret Waiting"
| "ws_pump ab sz co idle_intervals (Ws_Frame f # rest) = act_bind (on_frame ab sz co f) (\<lambda>_. ws_pump ab sz co 0 rest)"
| "ws_pump ab sz co idle_intervals (Ws_Error e # rest) = lift (Err (ws_to_ingest e))"
| "ws_pump ab sz co idle_intervals (Ws_End # rest) =
    (\<lambda>w. (Err (Ingest_StreamFailure (task_name w) ''flashblocks websocket closed by peer''), w))"
| "ws_pump ab sz co idle_intervals (Ws_Silence # rest) =
    act_bind (note_silence ''flashblocks heartbeat timeout'' (idle_intervals + 1))
      (\<lambda>_. ws_pump ab sz co (idle_intervals + 1) rest)"

definition flash_run_once :: "abi \<Rightarrow> sizes \<Rightarrow> codec \<Rightarrow> string \<Rightarrow> ws_session \<Rightarrow> progress ingest" where
  "flash_run_once ab sz co url s =
    act_bind (transition Connecting None) (\<lambda>_.
    act_bind (lift (map_err ws_to_ingest (external (we_connect s)))) (\<lambda>_.
    act_bind (transition Running (Some (''flashblocks='' @ url))) (\<lambda>_.
    ws_pump ab sz co 0 (we_arrivals s))))"

fun flash_sessions :: "abi \<Rightarrow> sizes \<Rightarrow> codec \<Rightarrow> string \<Rightarrow> u64 \<Rightarrow> ws_session list \<Rightarrow> progress ingest" where
  "flash_sessions ab sz co url backoff_ms [] = ret Waiting"
| "flash_sessions ab sz co url backoff_ms (s # rest) =
    act_match (flash_run_once ab sz co url s) (finish_run ''flashblocks stream completed'') (\<lambda>error.
    act_bind (back_off backoff_ms error) (\<lambda>_ w.
    flash_sessions ab sz co url (next_backoff (cx_reconnect_max_ms (tk_context w)) backoff_ms) rest w))"

definition flash_run :: "abi \<Rightarrow> sizes \<Rightarrow> codec \<Rightarrow> string \<Rightarrow> ws_session list \<Rightarrow> progress ingest" where
  "flash_run ab sz co url sessions =
    act_bind ensure_not_stopped (\<lambda>_ w.
    flash_sessions ab sz co url (cx_reconnect_initial_ms (tk_context w)) sessions w)"

section \<open>The pipeline\<close>

record IngestPipeline =
  ip_streams :: "BoxedIngestStream list"
  ip_event_channel_capacity :: usize
  ip_runtime_channel_capacity :: usize

definition pipeline_new :: "usize \<Rightarrow> usize \<Rightarrow> IngestPipeline" where
  "pipeline_new event_capacity runtime_capacity =
    \<lparr>ip_streams = [], ip_event_channel_capacity = event_capacity, ip_runtime_channel_capacity = runtime_capacity\<rparr>"

definition add_stream :: "BoxedIngestStream \<Rightarrow> IngestPipeline \<Rightarrow> IngestPipeline" where
  "add_stream stream p = p\<lparr>ip_streams := ip_streams p @ [stream]\<rparr>"

definition stream_count :: "IngestPipeline \<Rightarrow> nat" where
  "stream_count p = length (ip_streams p)"

definition pipeline_from_config :: "IngestConfig \<Rightarrow> (IngestError, IngestPipeline) res" where
  "pipeline_from_config c =
    attempt (selected_endpoint c) (\<lambda>endpoint.
    let context = \<lparr>cx_chain_id = ic_chain_id c, cx_endpoint = endpoint, cx_reconnect_initial_ms = ic_reconnect_initial_ms c,
                   cx_reconnect_max_ms = ic_reconnect_max_ms c, cx_heartbeat_timeout_secs = ic_heartbeat_timeout_secs c\<rparr>;
        p0 = pipeline_new (ic_event_channel_capacity c) (ic_runtime_channel_capacity c);
        p1 = (if ic_subscribe_transactions c then add_stream (transaction_stream_new context) p0 else p0);
        p2 = (if ic_subscribe_logs c then add_stream (log_stream_new context) p1 else p1);
        p3 = (if ic_subscribe_blocks c then add_stream (block_stream_new context) p2 else p2)
    in if ic_subscribe_flashblocks c then
         attempt (ok_or (Ingest_StreamFailure ''flashblocks_stream''
             ''subscribe_flashblocks=true but flashblocks_ws_url is unset'') (ic_flashblocks_ws_url c)) (\<lambda>url.
         Ok (add_stream (flashblocks_stream_new context url) p3))
       else Ok p3)"

text \<open>The task a stream is spawned as, with its clones of the two senders.\<close>

fun stream_parts :: "BoxedIngestStream \<Rightarrow> IngestStreamContext \<times> StreamRuntime" where
  "stream_parts (Transaction_Stream c r) = (c, r)"
| "stream_parts (Log_Stream c r) = (c, r)"
| "stream_parts (Block_Stream c r) = (c, r)"
| "stream_parts (Flashblocks_Stream c r url) = (c, r)"

definition spawn_task :: "(nat \<Rightarrow> u64) \<Rightarrow> nat option \<Rightarrow> nat option \<Rightarrow> BoxedIngestStream \<Rightarrow> task" where
  "spawn_task clock takes runtime_takes stream =
    (let (c, r) = stream_parts stream in
     \<lparr>tk_context = c, tk_runtime = r, tk_events = \<lparr>mb_sent = [], mb_takes = takes\<rparr>,
      tk_runtime_events = \<lparr>mb_sent = [], mb_takes = runtime_takes\<rparr>, tk_clock = clock, tk_slept = []\<rparr>)"

text \<open>The running pipeline: what waits in the two channels, and the handles of the tasks.\<close>

record task_handle =
  th_task :: task
  th_aborted :: bool

record IngestRuntime =
  ir_event_receiver :: "Event list"
  ir_runtime_event_receiver :: "RuntimeEvent list"
  ir_stream_tasks :: "task_handle list"

definition into_parts :: "IngestRuntime \<Rightarrow> Event list \<times> RuntimeEvent list \<times> task_handle list" where
  "into_parts r = (ir_event_receiver r, ir_runtime_event_receiver r, ir_stream_tasks r)"

definition abort_all :: "IngestRuntime \<Rightarrow> IngestRuntime" where
  "abort_all r = r\<lparr>ir_stream_tasks := map (\<lambda>h. h\<lparr>th_aborted := True\<rparr>) (ir_stream_tasks r)\<rparr>"

text \<open>Creating a channel without room panics.\<close>

definition pipeline_spawn ::
  "(nat \<Rightarrow> u64) \<Rightarrow> nat option \<Rightarrow> nat option \<Rightarrow> IngestPipeline \<Rightarrow> ('e, IngestRuntime) res" where
  "pipeline_spawn clock takes runtime_takes p =
    (if ip_event_channel_capacity p = 0 \<or> ip_runtime_channel_capacity p = 0 then Panic
     else Ok \<lparr>ir_event_receiver = [], ir_runtime_event_receiver = [],
       ir_stream_tasks = map (\<lambda>s. \<lparr>th_task = spawn_task clock takes runtime_takes s, th_aborted = False\<rparr>) (ip_streams p)\<rparr>)"

section \<open>Fan-out\<close>

lemma collect_logs_objects: "v \<in> set (collect_logs receipts) \<Longrightarrow> \<exists>m. v = JObject m"
  by (auto simp: collect_logs_def receipt_logs_def enrich_log_def split: option.splits)

text \<open>A receipt's logs carry a transaction hash: their own, or the receipt's.\<close>

lemma receipt_log_hash:
  assumes "v \<in> set (receipt_logs (tx_hash, receipt))"
  shows "\<exists>m. v = JObject m \<and> map_of m ''transactionHash'' \<noteq> None \<and>
    (map_of m ''transactionHash'' = Some (JString tx_hash) \<or>
      (\<exists>logs. value_get (unwrap_receipt receipt) ''logs'' = Some (JArray logs) \<and> v \<in> set logs))"
proof -
  obtain logs where l: "Option.bind (value_get (unwrap_receipt receipt) ''logs'') as_array = Some logs"
    using assms by (cases "Option.bind (value_get (unwrap_receipt receipt) ''logs'') as_array")
      (simp_all add: receipt_logs_def)
  then have a: "value_get (unwrap_receipt receipt) ''logs'' = Some (JArray logs)"
    by (auto simp: bind_eq_Some_conv elim: as_array.elims)
  from assms l obtain x m where x: "x \<in> set logs" "as_object x = Some m" "v = enrich_log tx_hash m"
    by (auto simp: receipt_logs_def map_filter_def)
  then have "x = JObject m" by (auto elim: as_object.elims)
  with a x show ?thesis by (auto simp: enrich_log_def map_add_def split: if_splits option.splits)
qed

definition flash_log_from :: "abi \<Rightarrow> Value \<Rightarrow> Log \<Rightarrow> bool" where
  "flash_log_from ab v l \<longleftrightarrow>
    (\<exists>raw md. raw_log_from_value v = Some raw \<and> l = to_log ab raw md \<and> md_tx_hash md = rw_tx_hash raw \<and>
      md_block_context md = Pending \<and> md_channel md = FlashblocksWs)"

lemma emit_one_log:
  assumes "raw_log_from_value v = Some raw" "mb_takes (tk_events w) = None"
  obtains w1 l where "emit_logs ab sz emitted (v # rest) w = emit_logs ab sz (emitted + 1) rest w1"
    "mb_sent (tk_events w1) = mb_sent (tk_events w) @ [Event_Log l]" "mb_takes (tk_events w1) = None"
    "flash_log_from ab v l" "untouched w w1"
proof -
  let ?w = "w\<lparr>tk_clock := \<lambda>n. tk_clock w (Suc n)\<rparr>"
  let ?md = "log_metadata_of (raw_log_decode ab raw) raw Pending FlashblocksWs (tk_clock w 0) (size_or_zero sz v) ?w"
  let ?w1 = "?w\<lparr>tk_events := mailbox_put (Event_Log (to_log ab raw ?md)) (tk_events w)\<rparr>"
  have "emit_logs ab sz emitted (v # rest) w = emit_logs ab sz (emitted + 1) rest ?w1"
    using assms(1,2) by (simp add: act_bind_def current_time_ms_def send_event_def mailbox_open_def lift_def)
  moreover have "flash_log_from ab v (to_log ab raw ?md)"
    unfolding flash_log_from_def using assms(1)
    by (intro exI[of _ raw] exI[of _ ?md]) (simp add: log_metadata_of_def)
  ultimately show ?thesis using assms(2) by (intro that[of ?w1]) (simp_all add: mailbox_put_def untouched_def)
qed

lemma emit_logs_all:
  assumes "mb_takes (tk_events w) = None" "\<forall>v \<in> set vs. \<exists>m. v = JObject m" "unat emitted + length vs < 2 ^ 64"
  shows "\<exists>w' ls n. emit_logs ab sz emitted vs w = (Ok n, w') \<and> unat n = unat emitted + length vs \<and>
    mb_sent (tk_events w') = mb_sent (tk_events w) @ map Event_Log ls \<and> list_all2 (flash_log_from ab) vs ls \<and>
    mb_takes (tk_events w') = None \<and> untouched w w'"
  using assms
proof (induction vs arbitrary: w emitted)
  case Nil
  then show ?case by (auto simp: ret_def untouched_def intro!: exI[of _ "[]"])
next
  case (Cons v vs)
  from Cons.prems(2) obtain raw where raw: "raw_log_from_value v = Some raw" by (auto simp: raw_log_from_value_def)
  have room: "unat emitted + 1 < 2 ^ 64" using Cons.prems(3) by simp
  from emit_one_log[OF raw Cons.prems(1)] obtain w1 l where
    one: "emit_logs ab sz emitted (v # vs) w = emit_logs ab sz (emitted + 1) vs w1"
      "mb_sent (tk_events w1) = mb_sent (tk_events w) @ [Event_Log l]" "mb_takes (tk_events w1) = None"
      "flash_log_from ab v l" "untouched w w1" by metis
  have u: "unat (emitted + 1) = unat emitted + 1" using room unat_plus_fits[of emitted 1] by simp
  from Cons.IH[OF one(3), of "emitted + 1"] Cons.prems(2,3) u obtain w' ls n where
    "emit_logs ab sz (emitted + 1) vs w1 = (Ok n, w')" "unat n = unat emitted + 1 + length vs"
    "mb_sent (tk_events w') = mb_sent (tk_events w1) @ map Event_Log ls" "list_all2 (flash_log_from ab) vs ls"
    "mb_takes (tk_events w') = None" "untouched w1 w'" by auto
  with one show ?case
    by (intro exI[of _ w'] exI[of _ "l # ls"] exI[of _ n]) (simp add: untouched_def)
qed

text \<open>What a payload announces, read off its JSON.  The fields of a receipt may be wrapped in an object
  with a single field; its logs are the objects of its array \<open>logs\<close>, each belonging to the transaction
  of the receipt.\<close>

fun receipt_fields :: "Value \<Rightarrow> (string \<times> Value) list" where
  "receipt_fields (JObject [(_, JObject m)]) = m"
| "receipt_fields (JObject m) = m"
| "receipt_fields _ = []"

fun log_objects :: "Value option \<Rightarrow> (string \<times> Value) list list" where
  "log_objects (Some (JArray vs)) = [m. JObject m \<leftarrow> vs]"
| "log_objects _ = []"

definition announced_logs :: "(string \<times> Value) list \<Rightarrow> (string \<times> (string \<times> Value) list) list" where
  "announced_logs receipts =
    [(tx_hash, m). (tx_hash, receipt) \<leftarrow> receipts, m \<leftarrow> log_objects (map_of (receipt_fields receipt) ''logs'')]"

text \<open>The event of an announced log: the log as it was announced, pending, from the flashblocks channel,
  with its own transaction hash or, where it has none, that of its receipt.\<close>

definition fanned_out :: "abi \<Rightarrow> string \<times> (string \<times> Value) list \<Rightarrow> Log \<Rightarrow> bool" where
  "fanned_out ab = (\<lambda>(tx_hash, m) l.
    let own = (case map_of m ''transactionHash'' of Some v \<Rightarrow> as_str v | None \<Rightarrow> Some tx_hash) in
    (\<exists>raw md. raw_log_from_value (JObject m) = Some raw \<and> l = to_log ab (raw\<lparr>rw_tx_hash := own\<rparr>) md \<and> md_tx_hash md = own \<and>
      md_block_context md = Pending \<and> md_channel md = FlashblocksWs))"

lemma log_objects_filter: "log_objects (Some (JArray vs)) = List.map_filter as_object vs"
proof -
  have "(case v of JObject m \<Rightarrow> [m] | _ \<Rightarrow> []) = (case as_object v of Some m \<Rightarrow> [m] | None \<Rightarrow> [])" for v
    by (cases v) simp_all
  then show ?thesis by (induction vs) (auto simp: map_filter_simps split: option.splits)
qed

lemma receipt_fields_unwrap: "value_get (unwrap_receipt receipt) key = map_of (receipt_fields receipt) key"
  by (cases receipt rule: receipt_fields.cases) (auto simp: unwrap_receipt_def value_get_def split: list.splits)

lemma receipt_logs_announced:
  "receipt_logs (tx_hash, receipt) = map (enrich_log tx_hash) (log_objects (map_of (receipt_fields receipt) ''logs''))"
proof (cases "map_of (receipt_fields receipt) ''logs''")
  case None
  then show ?thesis by (simp add: receipt_logs_def receipt_fields_unwrap)
next
  case (Some v)
  then show ?thesis
    by (cases v) (simp_all add: receipt_logs_def receipt_fields_unwrap log_objects_filter del: log_objects.simps(1))
qed

lemma collect_logs_announced: "collect_logs receipts = map (\<lambda>(tx_hash, m). enrich_log tx_hash m) (announced_logs receipts)"
  by (induction receipts) (auto simp: collect_logs_def announced_logs_def receipt_logs_announced map_concat)

lemma enriched_log_raw:
  "raw_log_from_value (enrich_log tx_hash m) = map_option (\<lambda>raw. raw\<lparr>rw_tx_hash :=
    (case map_of m ''transactionHash'' of Some v \<Rightarrow> as_str v | None \<Rightarrow> Some tx_hash)\<rparr>) (raw_log_from_value (JObject m))"
  by (cases "map_of m ''transactionHash''")
    (auto simp: enrich_log_def raw_log_from_value_def string_field_def u64_field_def bool_field_def topics_field_def map_add_def
      split: option.splits)

lemma flash_log_fanned_out: "flash_log_from ab (enrich_log tx_hash m) l \<Longrightarrow> fanned_out ab (tx_hash, m) l"
  by (auto simp: flash_log_from_def fanned_out_def Let_def enriched_log_raw)

text \<open>C34: a flashblock is fanned out in full.  While the engine listens, a payload becomes one event for
  each log its receipts announce, receipt by receipt and in order: the decoded log with the
  address, topics, data and index announced, marked pending, labelled with the flashblocks channel
  and carrying its own transaction hash or that of its receipt.  One summary follows, which
  counts exactly those logs and lists the receipts' transactions; nothing about the stream's own
  status changes.\<close>

theorem flashblock_fan_out:
  assumes "mb_takes (tk_events w) = None" "fp_metadata payload = Some m"
    and "length (announced_logs (fbm_receipts m)) < 2 ^ 64"
  shows "\<exists>w' ls fb. dispatch ab sz payload raw_size w = (Ok (), w') \<and>
    mb_sent (tk_events w') = mb_sent (tk_events w) @ map Event_Log ls @ [Event_Flashblock fb] \<and>
    list_all2 (fanned_out ab) (announced_logs (fbm_receipts m)) ls \<and>
    unat (fb_log_count fb) = length (announced_logs (fbm_receipts m)) \<and> fb_tx_hashes fb = map fst (fbm_receipts m) \<and>
    fb_index fb = fp_index payload \<and> untouched w w'"
proof -
  have size: "length (collect_logs (fbm_receipts m)) = length (announced_logs (fbm_receipts m))"
    by (simp add: collect_logs_announced)
  have o: "\<forall>v \<in> set (collect_logs (fbm_receipts m)). \<exists>x. v = JObject x" using collect_logs_objects by blast
  have room: "unat (0 :: usize) + length (collect_logs (fbm_receipts m)) < 2 ^ 64" using assms(3) size by simp
  from emit_logs_all[OF assms(1) o room, of ab sz] obtain w1 ls n where
    e: "emit_logs ab sz 0 (collect_logs (fbm_receipts m)) w = (Ok n, w1)"
      "unat n = length (collect_logs (fbm_receipts m))"
      "mb_sent (tk_events w1) = mb_sent (tk_events w) @ map Event_Log ls"
      "list_all2 (flash_log_from ab) (collect_logs (fbm_receipts m)) ls"
      "mb_takes (tk_events w1) = None" "untouched w w1" by auto
  have "list_all2 (fanned_out ab) (announced_logs (fbm_receipts m)) ls"
    using e(4) unfolding collect_logs_announced list_all2_map1
    by (rule list_all2_mono) (auto intro: flash_log_fanned_out)
  with size e assms(2) show ?thesis
    by (cases "fp_diff payload")
      (auto simp: dispatch_def extract_views_def Let_def task_defs mailbox_open_def untouched_def)
qed

definition sample_payload :: FlashblockPayload where
  "sample_payload = \<lparr>fp_payload_id = Some ''0xp'', fp_index = 3, fp_base = None, fp_diff = None,
    fp_metadata = Some \<lparr>fbm_block_number = Some 7, fbm_receipts =
      [(''0xt1'', JObject [(''Eip1559'', JObject [(''logs'', JArray [
          JObject [(''address'', JString ''0xPOOL''), (''topics'', JArray [JString V2_SYNC])]])])]),
       (''0xt2'', JObject [(''logs'', JArray []), (''status'', JBool True)])]\<rparr>\<rparr>"

theorem flashblock_fan_out_witness:
  "\<exists>w' l fb. dispatch sample_abi sample_sizes sample_payload 9 (sample_task ''flashblocks_stream'' Logs) = (Ok (), w') \<and>
    mb_sent (tk_events w') = [Event_Log l, Event_Flashblock fb] \<and> unat (fb_log_count fb) = 1 \<and>
    md_tx_hash (log_metadata l) = Some ''0xt1'' \<and> fb_tx_hashes fb = [''0xt1'', ''0xt2'']"
proof -
  let ?w = "sample_task ''flashblocks_stream'' Logs" and ?m = "the (fp_metadata sample_payload)"
  have m: "fp_metadata sample_payload = Some ?m" "map fst (fbm_receipts ?m) = [''0xt1'', ''0xt2'']"
    by (simp_all add: sample_payload_def)
  have c: "announced_logs (fbm_receipts ?m) =
      [(''0xt1'', [(''address'', JString ''0xPOOL''), (''topics'', JArray [JString V2_SYNC])])]"
    by (simp add: sample_payload_def announced_logs_def)
  have t: "mb_takes (tk_events ?w) = None" "mb_sent (tk_events ?w) = []" by (simp_all add: sample_task_def)
  from c have "length (announced_logs (fbm_receipts ?m)) < 2 ^ 64" by simp
  from flashblock_fan_out[OF t(1) m(1) this, of sample_abi sample_sizes 9] m(2) c t(2)
  show ?thesis by (fastforce simp: list_all2_Cons1 fanned_out_def to_log_def Let_def)
qed

section \<open>Status reports\<close>

inductive flash_move :: "StreamStatus \<Rightarrow> StreamStatus \<Rightarrow> bool" where
  "s \<in> {Idle, Reconnecting} \<Longrightarrow> flash_move s Connecting"
| "flash_move Connecting Running"
| "s \<in> {Connecting, Running} \<Longrightarrow> flash_move s Backoff"
| "flash_move Backoff Reconnecting"

lemma untouched_time [keeps_intros]: "keeps (untouched w0) current_time_ms"
  by (rule keepsI) (simp add: current_time_ms_def untouched_def)

lemma untouched_send [keeps_intros]: "keeps (untouched w0) (\<lambda>w. send_event (f w) w)" "keeps (untouched w0) (send_event e)"
  by (rule keepsI, simp add: send_event_def untouched_def)+

lemma emit_logs_untouched: "keeps (untouched w0) (emit_logs ab sz n vs)"
proof (induction vs arbitrary: n)
  case (Cons v vs)
  then show ?case by (cases "raw_log_from_value v") (auto intro!: keeps_intros)
qed (simp add: keeps_ret)

lemma on_frame_bytes_untouched: "keeps (untouched w0) (on_frame_bytes ab sz co bs)"
proof (rule keepsI)
  fix w assume w: "untouched w0 w"
  have "keeps (untouched w0) (dispatch ab sz payload n)" for payload n
    unfolding dispatch_def Let_def case_prod_beta by (intro keeps_intros emit_logs_untouched)
  with w show "untouched w0 (snd (on_frame_bytes ab sz co bs w))"
    by (auto simp: on_frame_bytes_def act_bind_def lift_def keeps_def split: res.splits)
qed

lemma on_frame_untouched: "on_frame ab sz co f w = (r, w') \<Longrightarrow> untouched w w'"
  using keepsD[OF on_frame_bytes_untouched, of w w]
  by (cases f) (auto simp: on_frame_def untouched_def ret_eq lift_eq)

lemma ws_pump_aligned:
  assumes "ws_pump ab sz co n arrivals w = (r, w')" "aligned R w" "task_status w = Running"
  shows "r \<noteq> Ok Completed \<and> (aligned R w' \<and> task_status w' = Running \<or> (\<exists>e. r = Err e) \<and> cut_off R w')"
  using assms
proof (induction arrivals arbitrary: n w)
  case Nil
  then show ?case by (simp add: ret_eq)
next
  case (Cons a rest)
  show ?case
  proof (cases a)
    case Ws_Silence
    obtain v w1 where v: "note_silence ''flashblocks heartbeat timeout'' (n + 1) w = (v, w1)" by fastforce
    note s = note_silence_aligned[OF v Cons.prems(2,3)]
    show ?thesis
    proof (cases v)
      case (Ok u)
      with Cons.prems(1) v Ws_Silence have "ws_pump ab sz co (n + 1) rest w1 = (r, w')" by simp
      moreover from s Ok have "aligned R w1" "task_status w1 = Running" by simp_all
      ultimately show ?thesis by (rule Cons.IH)
    next
      case (Err e)
      with Cons.prems(1) v Ws_Silence have "r = Err e" "w' = w1" by simp_all
      with s show ?thesis by blast
    qed (use s in simp)
  next
    case (Ws_Frame f)
    from Cons.prems(1)[unfolded Ws_Frame ws_pump.simps] show ?thesis
    proof (cases rule: act_bind_split)
      case (continues u w1)
      note f = on_frame_untouched[OF continues(1)]
      with Cons.IH[OF continues(2)] Cons.prems(2,3) untouched_aligned[OF f] show ?thesis
        by (simp add: untouched_def)
    next
      case (stops v)
      note f = on_frame_untouched[OF stops(1)]
      with stops(3) Cons.prems(2,3) untouched_aligned[OF f] show ?thesis by (auto simp: untouched_def)
    qed
  qed (use Cons.prems in \<open>auto simp: lift_eq\<close>)
qed

lemma flash_connected_aligned:
  assumes "act_bind (transition Running reason) (\<lambda>_. ws_pump ab sz co 0 arrivals) w = (r, w')"
    and "aligned flash_move w" "task_status w = Connecting"
  shows "r \<noteq> Ok Completed \<and> (aligned flash_move w' \<and> task_status w' = Running
    \<or> (\<exists>e. r = Err e) \<and> cut_off flash_move w')"
proof -
  obtain r2 w2 where t: "transition Running reason w = (r2, w2)" by fastforce
  have "flash_move (task_status w) Running" using assms(3) by (simp add: flash_move.intros)
  from aligned_transition[OF t assms(2) this] show ?thesis
  proof
    assume a: "r2 = Ok () \<and> aligned flash_move w2 \<and> task_status w2 = Running"
    with assms(1) t have "ws_pump ab sz co 0 arrivals w2 = (r, w')" by simp
    from ws_pump_aligned[OF this] a show ?thesis by blast
  next
    assume "(\<exists>e. r2 = Err e) \<and> cut_off flash_move w2"
    with assms(1) t show ?thesis by auto
  qed
qed

lemma flash_run_once_aligned:
  assumes "flash_run_once ab sz co url s w = (r, w')"
    and "aligned flash_move w" "task_status w \<in> {Idle, Reconnecting}"
  shows "r \<noteq> Ok Completed \<and> (aligned flash_move w' \<and> task_status w' \<in> {Connecting, Running}
    \<or> (\<exists>e. r = Err e) \<and> cut_off flash_move w')"
proof -
  obtain r1 w1 where t: "transition Connecting None w = (r1, w1)" by fastforce
  have "flash_move (task_status w) Connecting" using assms(3) by (intro flash_move.intros)
  from aligned_transition[OF t assms(2) this] show ?thesis
  proof
    assume a: "r1 = Ok () \<and> aligned flash_move w1 \<and> task_status w1 = Connecting"
    show ?thesis
    proof (cases "we_connect s")
      case (Inr u)
      with assms(1) t a have "act_bind (transition Running (Some (''flashblocks='' @ url)))
          (\<lambda>_. ws_pump ab sz co 0 (we_arrivals s)) w1 = (r, w')"
        by (simp add: flash_run_once_def)
      from flash_connected_aligned[OF this] a show ?thesis by blast
    qed (use assms(1) t a in \<open>auto simp: flash_run_once_def\<close>)
  next
    assume "(\<exists>e. r1 = Err e) \<and> cut_off flash_move w1"
    with assms(1) t show ?thesis by (auto simp: flash_run_once_def)
  qed
qed

lemma flash_sessions_aligned:
  assumes "flash_sessions ab sz co url b sessions w = (r, w')"
    and "aligned flash_move w" "task_status w \<in> {Idle, Reconnecting}"
  shows "r \<noteq> Ok Completed \<and> (aligned flash_move w' \<or> cut_off flash_move w')"
  using assms
proof (induction sessions arbitrary: b w)
  case Nil
  then show ?case by (simp add: ret_eq)
next
  case (Cons s rest)
  obtain r2 w2 where o: "flash_run_once ab sz co url s w = (r2, w2)" by fastforce
  note once = flash_run_once_aligned[OF o Cons.prems(2,3)]
  show ?case
  proof (cases r2)
    case (Err e)
    obtain r3 w3 where bo: "back_off b e w2 = (r3, w3)" by fastforce
    have "r3 = Ok () \<and> aligned flash_move w3 \<and> task_status w3 = Reconnecting
      \<or> (\<exists>e. r3 = Err e) \<and> cut_off flash_move w3"
      using once back_off_aligned[OF bo, of flash_move] back_off_cut_off[OF bo, of flash_move]
      by (blast intro: flash_move.intros)
    then show ?thesis
    proof
      assume c: "r3 = Ok () \<and> aligned flash_move w3 \<and> task_status w3 = Reconnecting"
      with Cons.prems(1) o Err bo have "flash_sessions ab sz co url
          (next_backoff (cx_reconnect_max_ms (tk_context w3)) b) rest w3 = (r, w')"
        by (simp add: act_match_def)
      from Cons.IH[OF this] c show ?thesis by simp
    qed (use Cons.prems(1) o Err bo in \<open>auto simp: act_match_def\<close>)
  qed (use Cons.prems(1) o once in \<open>auto simp: act_match_def finish_run_def ret_def split: progress.splits\<close>)
qed

text \<open>The flashblocks connector's reports follow its own automaton, which has no
  subscribing phase.\<close>

theorem flash_status_follows:
  assumes "fresh_task w" "flash_run ab sz co url sessions w = (r, w')"
  shows "\<exists>s. follow flash_move Idle (mb_sent (tk_runtime_events w')) = Some s \<and>
    (s = task_status w' \<or> \<not> mailbox_open (tk_runtime_events w')) \<and> r \<noteq> Ok Completed"
proof -
  have "flash_sessions ab sz co url (cx_reconnect_initial_ms (tk_context w)) sessions w = (r, w')"
    using assms by (simp add: flash_run_def act_bind_def ensure_not_stopped_def fresh_task_def)
  moreover have "aligned flash_move w" "task_status w \<in> {Idle, Reconnecting}"
    using assms(1) by (simp_all add: aligned_def fresh_task_def)
  ultimately show ?thesis using flash_sessions_aligned by (fastforce simp: aligned_def cut_off_def)
qed

section \<open>Starting up\<close>

definition enabled_streams :: "IngestConfig \<Rightarrow> nat" where
  "enabled_streams c = length (filter id [ic_subscribe_transactions c, ic_subscribe_logs c, ic_subscribe_blocks c,
    ic_subscribe_flashblocks c])"

lemma ingest_validate_Ok:
  assumes "ingest_validate c = Ok ()"
  shows "ic_channel c = Ipc \<longrightarrow> ic_ipc_file_path c \<noteq> None" "ic_channel c = Ws \<longrightarrow> ic_ws_url c \<noteq> None"
    "ic_subscribe_transactions c \<or> ic_subscribe_logs c \<or> ic_subscribe_blocks c"
    "ic_subscribe_flashblocks c \<longrightarrow> ic_flashblocks_ws_url c \<noteq> None"
    "ic_reconnect_initial_ms c \<noteq> 0" "ic_reconnect_initial_ms c \<le> ic_reconnect_max_ms c"
    "ic_event_channel_capacity c \<noteq> 0" "ic_runtime_channel_capacity c \<noteq> 0"
  using assms
  by (auto simp: ingest_validate_def validate_backoff_def validate_positive_u64_def validate_positive_usize_def
      res_simps split: if_splits)

lemma ingest_from_env_Ok:
  assumes "ingest_from_env env = Ok c"
  shows "ingest_validate c = Ok ()" "ic_channel c \<noteq> FlashblocksWs"
proof -
  show "ingest_validate c = Ok ()" using assms by (simp add: ingest_from_env_def res_simps Let_def) blast
  show "ic_channel c \<noteq> FlashblocksWs" using assms
    by (auto simp: ingest_from_env_def res_simps Let_def parse_channel_def split: if_splits)
qed

definition context_of :: "IngestConfig \<Rightarrow> IngestEndpoint \<Rightarrow> IngestStreamContext" where
  "context_of c endpoint = \<lparr>cx_chain_id = ic_chain_id c, cx_endpoint = endpoint,
    cx_reconnect_initial_ms = ic_reconnect_initial_ms c, cx_reconnect_max_ms = ic_reconnect_max_ms c,
    cx_heartbeat_timeout_secs = ic_heartbeat_timeout_secs c\<rparr>"

definition stream_ready :: "IngestStreamContext \<Rightarrow> BoxedIngestStream \<Rightarrow> bool" where
  "stream_ready context stream \<longleftrightarrow>
    fst (stream_parts stream) = context \<and> sr_status (snd (stream_parts stream)) = Idle"

lemma pipeline_streams:
  assumes "selected_endpoint c = Ok endpoint" "ic_subscribe_flashblocks c \<longrightarrow> ic_flashblocks_ws_url c \<noteq> None"
  shows "\<exists>p. pipeline_from_config c = Ok p \<and> stream_count p = enabled_streams c \<and>
    list_all (stream_ready (context_of c endpoint)) (ip_streams p) \<and>
    ip_event_channel_capacity p = ic_event_channel_capacity c \<and>
    ip_runtime_channel_capacity p = ic_runtime_channel_capacity c"
  using assms
  by (auto simp: pipeline_from_config_def pipeline_new_def add_stream_def stream_count_def enabled_streams_def
      stream_ready_def context_of_def transaction_stream_new_def log_stream_new_def block_stream_new_def
      flashblocks_stream_new_def stream_runtime_new_def Let_def)

lemma fresh_spawned: "stream_ready context stream \<Longrightarrow> fresh_task (spawn_task clock takes runtime_takes stream) \<and>
    tk_context (spawn_task clock takes runtime_takes stream) = context"
  by (cases stream) (auto simp: stream_ready_def spawn_task_def fresh_task_def)

lemma loaded_pipeline:
  assumes "ingest_from_env env = Ok c"
  shows "\<exists>p endpoint. pipeline_from_config c = Ok p \<and> stream_count p = enabled_streams c \<and> 0 < enabled_streams c \<and>
    list_all (stream_ready (context_of c endpoint)) (ip_streams p) \<and>
    ip_event_channel_capacity p = ic_event_channel_capacity c \<and> ip_runtime_channel_capacity p = ic_runtime_channel_capacity c \<and>
    ic_event_channel_capacity c \<noteq> 0 \<and> ic_runtime_channel_capacity c \<noteq> 0"
proof -
  note v = ingest_validate_Ok[OF ingest_from_env_Ok(1)[OF assms]]
  have "\<exists>endpoint. selected_endpoint c = Ok endpoint"
    using v(1,2) ingest_from_env_Ok(2)[OF assms]
    by (cases "ic_channel c") (auto simp: selected_endpoint_def ipc_from_config_def ws_from_config_def)
  then obtain endpoint where "selected_endpoint c = Ok endpoint" by blast
  from pipeline_streams[OF this v(4)] v(3,7,8) show ?thesis by (auto simp: enabled_streams_def)
qed

text \<open>An ingest configuration that loads from the environment starts.  Building the
  pipeline from it cannot fail and spawning it cannot panic; there is one task for each enabled
  subscription and at least one, all share the configured endpoint and delays, the delays are
  positive and in order, and every task starts idle with nothing sent.\<close>

theorem loaded_config_starts_pipeline:
  assumes "ingest_from_env env = Ok c"
  shows "\<exists>p endpoint r. pipeline_from_config c = Ok p \<and>
    pipeline_spawn clock takes runtime_takes p = (Ok r :: ('e, IngestRuntime) res) \<and>
    length (ir_stream_tasks r) = enabled_streams c \<and> 0 < length (ir_stream_tasks r) \<and>
    list_all (\<lambda>h. fresh_task (th_task h) \<and> tk_context (th_task h) = context_of c endpoint \<and> \<not> th_aborted h) (ir_stream_tasks r) \<and>
    0 < ic_reconnect_initial_ms c \<and> ic_reconnect_initial_ms c \<le> ic_reconnect_max_ms c"
proof -
  note v = ingest_validate_Ok[OF ingest_from_env_Ok(1)[OF assms]]
  from loaded_pipeline[OF assms] obtain p endpoint where
    p: "pipeline_from_config c = Ok p" "stream_count p = enabled_streams c"
      "list_all (stream_ready (context_of c endpoint)) (ip_streams p)"
      "ip_event_channel_capacity p = ic_event_channel_capacity c"
      "ip_runtime_channel_capacity p = ic_runtime_channel_capacity c" by blast
  let ?ts = "map (\<lambda>s. \<lparr>th_task = spawn_task clock takes runtime_takes s, th_aborted = False\<rparr>) (ip_streams p)"
  let ?r = "\<lparr>ir_event_receiver = [], ir_runtime_event_receiver = [], ir_stream_tasks = ?ts\<rparr>"
  have "pipeline_spawn clock takes runtime_takes p = (Ok ?r :: ('e, IngestRuntime) res)"
    using p(4,5) v(7,8) by (simp add: pipeline_spawn_def)
  moreover have "list_all (\<lambda>h. fresh_task (th_task h) \<and> tk_context (th_task h) = context_of c endpoint \<and> \<not> th_aborted h) ?ts"
    using p(3) fresh_spawned by (auto simp: list_all_iff)
  moreover have "length ?ts = enabled_streams c" "0 < enabled_streams c"
    using p(2) v(3) by (auto simp: stream_count_def enabled_streams_def)
  ultimately show ?thesis using p(1) v(5,6) by (intro exI[of _ p] exI[of _ endpoint] exI[of _ ?r]) (simp add: word_gt_0)
qed

definition sample_environment :: environment where
  "sample_environment = map_of [(''BASE_TRANSPORT'', ''ws''), (''BASE_WS_URL'', ''ws://node'')]"

lemma sample_environment_loads: "\<exists>c. ingest_from_env sample_environment = Ok c \<and> enabled_streams c = 3"
proof -
  have t: "trim ''ws'' = ''ws''" "trim ''ws://node'' = ''ws://node''" "to_ascii_lowercase ''ws'' = ''ws''" by code_simp+
  show ?thesis
    by (simp add: ingest_from_env_def required_var_any_def optional_non_empty_any_def sample_environment_def t
        parse_channel_def u64_var_any_def usize_var_any_def bool_var_any_def ingest_validate_def validate_backoff_def
        validate_positive_u64_def validate_positive_usize_def enabled_streams_def Let_def)
qed

theorem loaded_config_starts_pipeline_witness:
  "\<exists>c p r. ingest_from_env sample_environment = Ok c \<and> pipeline_from_config c = Ok p \<and>
    pipeline_spawn (\<lambda>_. 0) None None p = (Ok r :: (string, IngestRuntime) res) \<and> length (ir_stream_tasks r) = 3"
proof -
  obtain c where c: "ingest_from_env sample_environment = Ok c" "enabled_streams c = 3"
    using sample_environment_loads by blast
  from loaded_config_starts_pipeline[OF c(1), of "\<lambda>_. 0" None None] c show ?thesis by fastforce
qed

end
