(* ===== verification/Feed.thy ===== *)
theory Feed
  imports Flashblocks App
begin

text \<open>
  The ingest streams feeding the engine: what a payload does to the pool book once the event
  made from it reaches the engine's loop (\<open>src/crates/ingest\<close> with \<open>src/crates/markets\<close> and
  \<open>src/crates/app/src/main.rs\<close>).
\<close>

section \<open>A decoded Sync\<close>

text \<open>A message that decodes as a V2 \<open>Sync\<close> with the given reserves.\<close>

definition sync_message :: "abi \<Rightarrow> RawLogMessage \<Rightarrow> 112 word \<Rightarrow> 112 word \<Rightarrow> bool" where
  "sync_message ab raw r0 r1 \<longleftrightarrow>
    log_event_signature_of raw = Some V2_SYNC \<and>
    (\<exists>topics data. decode_topics ab (rw_topics raw) = Some topics \<and>
      decode_data ab (case rw_data raw of Some d \<Rightarrow> d | None \<Rightarrow> ''0x'') = Some data \<and>
      ab_v2_sync ab topics data = Some (r0, r1))"

lemma sync_message_decoded:
  assumes "sync_message ab raw r0 r1"
  shows "\<exists>d. log_decoded_event (to_log ab raw md) = Some d \<and> de_kind d = V2Sync \<and>
    de_reserve0 d = Some (ucast r0) \<and> de_reserve1 d = Some (ucast r1)"
proof -
  have "V2_SYNC \<noteq> V2_SWAP" by code_simp
  with assms show ?thesis
    by (auto simp: sync_message_def to_log_def raw_log_decode_def decode_structured_event_def decode_v2_sync_event_def
        blank_event_def Let_def)
qed

lemma to_log_fields [simp]:
  "log_metadata (to_log ab raw md) = md" "log_address (to_log ab raw md) = rw_address raw"
  "log_log_index (to_log ab raw md) = rw_log_index raw" "log_removed (to_log ab raw md) = rw_removed raw"
  by (simp_all add: to_log_def Let_def)

lemma unat_reserve: "unat (ucast (r :: 112 word) :: Amount) = unat r"
  using unat_lt_width[of r] by (simp add: unsigned_ucast_eq take_bit_nat_eq_self_iff)

lemma book_v2_pool_get:
  "book_v2_pool book a = Some p \<longleftrightarrow> hm_get (pb_pools book) (normalize_address_key a) = Some (PoolV2 p)"
  by (auto simp: book_v2_pool_def book_pool_def split: option.splits PoolState.splits)

text \<open>C33: a \<open>Sync\<close> message moves its pool to the reserves it reports.  When the log stream
  publishes a log that decodes as a V2 \<open>Sync\<close> with positive reserves and names its transaction
  and position, applying it to a book that tracks the pool gives the pool exactly those
  reserves and the log's block, changes nothing else about it and no other pool.\<close>

theorem sync_payload_moves_pool:
  assumes "log_from ab v l" "raw_log_from_value v = Some raw" "sync_message ab raw r0 r1" "r0 \<noteq> 0" "r1 \<noteq> 0"
    and "rw_address raw = Some a" "book_v2_pool book a = Some p" "eq_ignore_ascii_case a (v2_address p)"
    and "rw_tx_hash raw = Some h" "rw_log_index raw = Some i" "rw_removed raw \<noteq> Some True"
  shows "\<exists>book' p'. book_apply_log pu l book = (book', Ok Applied) \<and> book_v2_pool book' a = Some p' \<and>
    unat (v2_reserve0 p') = unat r0 \<and> unat (v2_reserve1 p') = unat r1 \<and>
    v2_last_updated_block p' = rw_block_number raw \<and>
    p' = p\<lparr>v2_reserve0 := v2_reserve0 p', v2_reserve1 := v2_reserve1 p',
           v2_last_updated_block := v2_last_updated_block p'\<rparr> \<and>
    (\<forall>b. normalize_address_key b \<noteq> normalize_address_key a \<longrightarrow> book_pool book' b = book_pool book b)"
proof -
  from assms(1,2) obtain md where l: "l = to_log ab raw md" "md_tx_hash md = rw_tx_hash raw"
      "md_block_context md = raw_log_context raw"
    by (auto simp: log_from_def)
  from sync_message_decoded[OF assms(3)] l obtain d where d: "log_decoded_event l = Some d" "de_kind d = V2Sync"
      "de_reserve0 d = Some (ucast r0)" "de_reserve1 d = Some (ucast r1)" by blast
  have nz: "(ucast r0 :: Amount) \<noteq> 0" "(ucast r1 :: Amount) \<noteq> 0"
    using assms(4,5) unat_reserve[of r0] unat_reserve[of r1] by (metis unat_0 unat_eq_zero)+
  let ?p = "p\<lparr>v2_reserve0 := ucast r0, v2_reserve1 := ucast r1, v2_last_updated_block := rw_block_number raw\<rparr>"
  have bn: "block_number (raw_log_context raw) = rw_block_number raw"
    by (simp add: raw_log_context_def split: option.splits)
  have v2: "v2_apply_log l p = Ok (Applied, ?p)"
    using d l assms(6,8) nz bn by (simp add: v2_apply_log_def v2_apply_sync_def)
  have key: "applied_log_key l = Ok \<lparr>lk_tx_hash = h, lk_log_index = i\<rparr>"
    using l assms(9,10) by (simp add: applied_log_key_def)
  obtain book' where b: "book_apply_log pu l book = (book', Ok Applied)"
      "hm_get (pb_pools book') (normalize_address_key a) = Some (PoolV2 ?p)"
    using assms(6,7,11) l d v2 key
    by (auto simp: book_apply_log_def book_v2_pool_get apply_v2_log_def hm.get_insert Let_def)
  from b(2) have "book_v2_pool book' a = Some ?p" by (simp add: book_v2_pool_get)
  moreover have "book_pool book' b = book_pool book b" if "normalize_address_key b \<noteq> normalize_address_key a" for b
    using book_apply_log_frame[OF b(1)] that l(1) assms(6) by (simp add: book_pool_def)
  ultimately show ?thesis using b(1)
    by (intro exI[of _ book'] exI[of _ ?p]) (simp add: unat_reserve)
qed

text \<open>C39: a flashblock log ends the engine.  The logs of a flashblock's receipts carry no log
  index; when such a log is a \<open>Sync\<close> of a tracked pool, handling it fails, the main loop
  returns that error without looking at anything received later, and the pool is gone from the
  book.\<close>

theorem flashblock_sync_ends_engine:
  assumes "flash_log_from ab v l" "raw_log_from_value v = Some raw" "sync_message ab raw r0 r1"
    and "rw_log_index raw = None" "rw_address raw = Some a" "book_v2_pool (en_book w) a = Some p"
    and "persist_observed_log (ru_serde rt) (\<lambda>s. concat (map hex_byte (ru_sha256 rt s))) l (en_store w) = (Ok log_id, s)"
  shows "\<exists>w'. main_loop rt (Got_Event at_time (Event_Log l) # later) w = (Err ''failed to handle ingest event'', w') \<and>
    book_pool (en_book w') a = None"
proof -
  from assms(1,2) obtain md where l: "l = to_log ab raw md" by (auto simp: flash_log_from_def)
  from sync_message_decoded[OF assms(3)] l obtain d where d: "log_decoded_event l = Some d" "de_kind d = V2Sync"
    by blast
  have key: "\<exists>e. applied_log_key l = Err e"
    using l assms(4) by (cases "md_tx_hash md") (simp_all add: applied_log_key_def)
  obtain book' e where b: "book_apply_log (ru_parse_u256 rt) l (en_book w) = (book', Err e)"
      "hm_get (pb_pools book') (normalize_address_key a) = None"
    using assms(5,6) l d key
    by (auto simp: book_apply_log_def book_v2_pool_get apply_v2_log_def hm.get_remove Let_def)
  let ?w = "w\<lparr>en_store := s, en_book := book'\<rparr>"
  have "handle_event rt (Event_Log l) w = (Err (market_error_text e), ?w)"
    using assms(7) b(1) by (simp add: handle_event_def act_bind_def act_err_def on_store_def act_zoom_def)
  then have "main_loop rt (Got_Event at_time (Event_Log l) # later) w = (Err ''failed to handle ingest event'', ?w)"
    by (simp add: engine_step_def act_bind_def act_err_def)
  then show ?thesis using b(2) by (auto simp: book_pool_def)
qed

section \<open>Witnesses\<close>

definition indexed_sync_value :: Value where
  "indexed_sync_value = JObject [(''address'', JString ''0xPOOL''), (''topics'', JArray [JString V2_SYNC]),
    (''transactionHash'', JString ''0xt1''), (''blockNumber'', JString ''0x7''), (''logIndex'', JString ''0x3'')]"

definition sync_raw :: "u64 option \<Rightarrow> u64 option \<Rightarrow> RawLogMessage" where
  "sync_raw number index = \<lparr>rw_address = Some ''0xPOOL'', rw_topics = [V2_SYNC], rw_data = None, rw_tx_hash = Some ''0xt1'',
    rw_block_hash = None, rw_block_number = number, rw_event_signature = None, rw_protocol = None,
    rw_exchange = None, rw_log_index = index, rw_removed = None\<rparr>"

lemma sync_raw_values:
  "raw_log_from_value sync_value = Some (sync_raw None None)"
  "\<exists>n i. raw_log_from_value indexed_sync_value = Some (sync_raw (Some n) (Some i))"
proof -
  show "raw_log_from_value sync_value = Some (sync_raw None None)"
    by (simp add: raw_log_from_value_def sync_value_def sync_raw_def string_field_def u64_field_def bool_field_def
        topics_field_def map_filter_simps)
  have "parse_u64 ''0x7'' = Some 7" "parse_u64 ''0x3'' = Some 3" by code_simp+
  then show "\<exists>n i. raw_log_from_value indexed_sync_value = Some (sync_raw (Some n) (Some i))"
    by (simp add: raw_log_from_value_def indexed_sync_value_def sync_raw_def string_field_def u64_field_def bool_field_def
        topics_field_def map_filter_simps)
qed

lemma sample_sync_message: "sync_message sample_abi (sync_raw n i) 42 84"
  by (simp add: sync_message_def sync_raw_def log_event_signature_of_def or_else_def decode_topics_def decode_data_def
      sample_abi_def)

lemma sample_book_pool: "book_v2_pool sample_book ''0xPOOL'' = Some sample_v2"
  by (simp add: book_v2_pool_get sample_book_def insert_v2_pool_def book_new_def sample_keys sample_v2_def hm_insert_def hm_get_def)

theorem sync_payload_moves_pool_witness:
  "\<exists>l book' p'. book_apply_log (\<lambda>_. None) l sample_book = (book', Ok Applied) \<and>
    book_v2_pool book' ''0xPOOL'' = Some p' \<and> unat (v2_reserve0 p') = 42 \<and> unat (v2_reserve1 p') = 84"
proof -
  obtain n i where raw: "raw_log_from_value indexed_sync_value = Some (sync_raw (Some n) (Some i))"
    using sync_raw_values(2) by blast
  let ?raw = "sync_raw (Some n) (Some i)"
  let ?l = "to_log sample_abi ?raw (sample_metadata\<lparr>md_tx_hash := rw_tx_hash ?raw, md_block_context := raw_log_context ?raw\<rparr>)"
  have "log_from sample_abi indexed_sync_value ?l"
    unfolding log_from_def using raw by (intro exI[of _ ?raw] exI conjI) (rule refl | simp)+
  moreover have "eq_ignore_ascii_case ''0xPOOL'' (v2_address sample_v2)" by (simp add: sample_v2_def sample_keys)
  ultimately show ?thesis
    using sync_payload_moves_pool[OF _ raw sample_sync_message, of ?l "''0xPOOL''" sample_book sample_v2 "''0xt1''" i "\<lambda>_. None"]
      sample_book_pool by (fastforce simp: sync_raw_def)
qed

theorem flashblock_sync_ends_engine_witness:
  "\<exists>l w'. flash_log_from sample_abi sync_value l \<and>
    main_loop sample_runtime [Got_Event sample_instants (Event_Log l), Events_Closed]
      ((sample_engine risk_state_default)\<lparr>en_store := None\<rparr>) = (Err ''failed to handle ingest event'', w') \<and>
    book_pool sample_book ''0xPOOL'' \<noteq> None \<and> book_pool (en_book w') ''0xPOOL'' = None"
proof -
  let ?raw = "sync_raw None None" and ?w = "(sample_engine risk_state_default)\<lparr>en_store := None\<rparr>"
  let ?l = "to_log sample_abi ?raw (sample_metadata\<lparr>md_tx_hash := rw_tx_hash ?raw, md_block_context := Pending,
    md_channel := FlashblocksWs\<rparr>)"
  have f: "flash_log_from sample_abi sync_value ?l"
    unfolding flash_log_from_def using sync_raw_values(1)
    by (intro exI[of _ ?raw] exI conjI) (rule refl | simp)+
  have "persist_observed_log sj h ?l (en_store ?w) = (Ok None, None)" for sj h
    by (simp add: persist_observed_log_def with_pool_def)
  moreover have "book_v2_pool (en_book ?w) ''0xPOOL'' = Some sample_v2"
    using sample_book_pool by (simp add: sample_engine_def)
  ultimately obtain w' where "main_loop sample_runtime [Got_Event sample_instants (Event_Log ?l), Events_Closed] ?w =
      (Err ''failed to handle ingest event'', w')" "book_pool (en_book w') ''0xPOOL'' = None"
    using flashblock_sync_ends_engine[OF f sync_raw_values(1) sample_sync_message, of "''0xPOOL''" ?w sample_v2 sample_runtime
        None None sample_instants "[Events_Closed]"] by (auto simp: sync_raw_def)
  moreover have "book_pool sample_book ''0xPOOL'' \<noteq> None"
    using sample_book_pool by (auto simp: book_v2_pool_def split: option.splits)
  ultimately show ?thesis using f by blast
qed

end
