(* ===== verification/Router.thy ===== *)
theory Router
  imports Effects
begin

text \<open>
  The on-chain executor (\<open>src/contracts/src/BaseExecutionRouter.sol\<close>).  The contract's own
  storage is explicit; the base contracts it inherits, the tokens, the vault, the venues, the
  ABI codec and the hash are external and are the fields of \<open>evm\<close>.  Every external call acts on
  the whole state, the contract's storage included, because the callee may call back:
  \<open>reenters\<close> says what such a call can do, namely call the contract's own entry points, from any
  sender, and change the rest of the chain.  A revert anywhere undoes the transaction.
\<close>

section \<open>Data\<close>

type_synonym address = "160 word"
type_synonym uint256 = "256 word"
type_synonym bytes32 = "256 word"
type_synonym calldata = "u8 list"

datatype VenueKind = Unsupported_Venue | Kind_UniswapV2 | Kind_UniswapV3Single | Kind_AerodromeV2

record RouteStep =
  sv_venueKind :: VenueKind
  sv_target :: address
  sv_tokenIn :: address
  sv_tokenOut :: address
  sv_fee :: "24 word"
  sv_minAmountOut :: uint256
  sv_extraData :: calldata

record ExecutionPlan =
  ep_settlementToken :: address
  ep_fundingAmount :: uint256
  ep_minRepayAmount :: uint256
  ep_minSurplus :: uint256
  ep_deadline :: uint256
  ep_steps :: "RouteStep list"
  ep_riskHash :: bytes32

datatype RouterEvent =
    ExecutorUpdated address bool
  | PlanExecuted address address uint256 uint256 uint256 bool bytes32
  | TokenRescued address address uint256

text \<open>The contract's errors; \<open>Arithmetic\<close> is the compiler's revert on overflow, \<open>Base_Revert\<close> one
  of an inherited modifier, \<open>Callee_Revert\<close> one bubbling up from a called contract or a decoder.\<close>

datatype revert =
    ExecutorNotAuthorized
  | PlanExpired uint256 uint256
  | EmptyRoute
  | UnsupportedVenue VenueKind
  | InvalidRouteToken nat address address
  | InsufficientStepOutput nat uint256 uint256
  | InsufficientSettlement uint256 uint256
  | UnexpectedFlashLoanCaller address
  | UnexpectedFlashLoanFee uint256
  | UnexpectedFlashLoanToken address address
  | UnexpectedFlashLoanAmount uint256 uint256
  | UnexpectedFlashLoanArrayLength
  | LoanFingerprintMismatch bytes32 bytes32
  | FlashLoanContextActive
  | Arithmetic
  | Base_Revert
  | Callee_Revert calldata

record ExactInputSingleParams =
  ei_tokenIn :: address
  ei_tokenOut :: address
  ei_fee :: "24 word"
  ei_recipient :: address
  ei_deadline :: uint256
  ei_amountIn :: uint256
  ei_amountOutMinimum :: uint256
  ei_sqrtPriceLimitX96 :: "160 word"

record Route =
  ar_from :: address
  ar_to :: address
  ar_stable :: bool
  ar_factory :: address

text \<open>The contract's storage: that of its bases, its own, the events logged, and the rest of the
  chain.\<close>

record ('g, 'w) router =
  ro_base :: 'g
  ro_executors :: "address \<Rightarrow> bool"
  ro_fingerprint :: bytes32
  ro_events :: "RouterEvent list"
  ro_world :: 'w

type_synonym ('g, 'w, 'a) contract = "(('g, 'w) router, revert, 'a) act"

record ('g, 'w) evm =
  vm_self :: address
  vm_vault :: address
  vm_timestamp :: uint256
  vm_owner :: "'g \<Rightarrow> address"
  vm_paused :: "'g \<Rightarrow> bool"
  vm_pause :: "'g \<Rightarrow> 'g option"
  vm_unpause :: "'g \<Rightarrow> 'g option"
  vm_transfer_ownership :: "address \<Rightarrow> address \<Rightarrow> 'g \<Rightarrow> 'g option"
  vm_renounce_ownership :: "address \<Rightarrow> 'g \<Rightarrow> 'g option"
  vm_enter :: "'g \<Rightarrow> 'g option"
  vm_leave :: "'g \<Rightarrow> 'g"
  vm_transfer_from :: "address \<Rightarrow> address \<Rightarrow> address \<Rightarrow> uint256 \<Rightarrow> ('g, 'w, unit) contract"
  vm_transfer :: "address \<Rightarrow> address \<Rightarrow> uint256 \<Rightarrow> ('g, 'w, unit) contract"
  vm_approve :: "address \<Rightarrow> address \<Rightarrow> uint256 \<Rightarrow> ('g, 'w, unit) contract"
  vm_exact_input_single :: "address \<Rightarrow> ExactInputSingleParams \<Rightarrow> ('g, 'w, uint256) contract"
  vm_swap_v2 :: "address \<Rightarrow> uint256 \<Rightarrow> uint256 \<Rightarrow> address list \<Rightarrow> address \<Rightarrow> uint256 \<Rightarrow> ('g, 'w, uint256 list) contract"
  vm_swap_aerodrome :: "address \<Rightarrow> uint256 \<Rightarrow> uint256 \<Rightarrow> Route list \<Rightarrow> address \<Rightarrow> uint256 \<Rightarrow> ('g, 'w, uint256 list) contract"
  vm_flash_loan :: "address \<Rightarrow> address list \<Rightarrow> uint256 list \<Rightarrow> calldata \<Rightarrow> ('g, 'w, unit) contract"
  vm_encode :: "address \<Rightarrow> ExecutionPlan \<Rightarrow> calldata"
  vm_decode :: "calldata \<Rightarrow> (address \<times> ExecutionPlan) option"
  vm_decode_extra :: "calldata \<Rightarrow> (bool \<times> address) option"
  vm_keccak :: "calldata \<Rightarrow> bytes32"

section \<open>Modifiers and helpers\<close>

definition require :: "bool \<Rightarrow> revert \<Rightarrow> ('g, 'w, unit) contract" where
  "require b e = lift (ensure b e)"

text \<open>A call that either completes or leaves no trace.\<close>

definition transact :: "('g, 'w, 'a) contract \<Rightarrow> ('g, 'w, 'a) contract" where
  "transact m s = (case m s of (Ok x, s') \<Rightarrow> (Ok x, s') | (r, _) \<Rightarrow> (r, s))"

definition checked :: "uint256 option \<Rightarrow> ('g, 'w, uint256) contract" where
  "checked v = lift (ok_or Arithmetic v)"

definition emit :: "RouterEvent \<Rightarrow> ('g, 'w, unit) contract" where
  "emit e = act_modify (\<lambda>s. s\<lparr>ro_events := ro_events s @ [e]\<rparr>)"

definition set_fingerprint :: "bytes32 \<Rightarrow> ('g, 'w, unit) contract" where
  "set_fingerprint h = act_modify (\<lambda>s. s\<lparr>ro_fingerprint := h\<rparr>)"

definition base_update :: "('g \<Rightarrow> 'g option) \<Rightarrow> ('g, 'w, unit) contract" where
  "base_update f s =
    (case f (ro_base s) of None \<Rightarrow> (Err Base_Revert, s) | Some g \<Rightarrow> (Ok (), s\<lparr>ro_base := g\<rparr>))"

definition onlyOwner :: "('g, 'w) evm \<Rightarrow> address \<Rightarrow> ('g, 'w, unit) contract" where
  "onlyOwner vm sender s = require (sender = vm_owner vm (ro_base s)) Base_Revert s"

definition onlyExecutor :: "('g, 'w) evm \<Rightarrow> address \<Rightarrow> ('g, 'w, unit) contract" where
  "onlyExecutor vm sender s =
    require (ro_executors s sender \<or> sender = vm_owner vm (ro_base s)) ExecutorNotAuthorized s"

definition whenNotPaused :: "('g, 'w) evm \<Rightarrow> ('g, 'w, unit) contract" where
  "whenNotPaused vm s = require (\<not> vm_paused vm (ro_base s)) Base_Revert s"

definition nonReentrant :: "('g, 'w) evm \<Rightarrow> ('g, 'w, 'a) contract \<Rightarrow> ('g, 'w, 'a) contract" where
  "nonReentrant vm body =
    act_bind (base_update (vm_enter vm)) (\<lambda>_.
    act_bind body (\<lambda>x.
    act_bind (base_update (\<lambda>g. Some (vm_leave vm g))) (\<lambda>_.
    ret x)))"

definition checkDeadline :: "('g, 'w) evm \<Rightarrow> uint256 \<Rightarrow> ('g, 'w, unit) contract" where
  "checkDeadline vm deadline = require (vm_timestamp vm \<le> deadline) (PlanExpired deadline (vm_timestamp vm))"

section \<open>Administration\<close>

text \<open>Deployment: the bases set their own storage from the first owner or refuse it.\<close>

definition deploy :: "(address \<Rightarrow> 'g option) \<Rightarrow> 'w \<Rightarrow> address \<Rightarrow> ('g, 'w) router option" where
  "deploy bases world initialOwner = map_option (\<lambda>g. \<lparr>ro_base = g, ro_executors = (\<lambda>_. False), ro_fingerprint = 0,
    ro_events = [], ro_world = world\<rparr>) (bases initialOwner)"

definition setExecutor :: "('g, 'w) evm \<Rightarrow> address \<Rightarrow> address \<Rightarrow> bool \<Rightarrow> ('g, 'w, unit) contract" where
  "setExecutor vm sender executor allowed =
    act_bind (onlyOwner vm sender) (\<lambda>_.
    act_bind (act_modify (\<lambda>s. s\<lparr>ro_executors := (ro_executors s)(executor := allowed)\<rparr>)) (\<lambda>_.
    emit (ExecutorUpdated executor allowed)))"

definition pause :: "('g, 'w) evm \<Rightarrow> address \<Rightarrow> ('g, 'w, unit) contract" where
  "pause vm sender = act_bind (onlyOwner vm sender) (\<lambda>_. base_update (vm_pause vm))"

definition unpause :: "('g, 'w) evm \<Rightarrow> address \<Rightarrow> ('g, 'w, unit) contract" where
  "unpause vm sender = act_bind (onlyOwner vm sender) (\<lambda>_. base_update (vm_unpause vm))"

definition rescueToken :: "('g, 'w) evm \<Rightarrow> address \<Rightarrow> address \<Rightarrow> address \<Rightarrow> uint256 \<Rightarrow> ('g, 'w, unit) contract" where
  "rescueToken vm sender token recipient amount =
    act_bind (onlyOwner vm sender) (\<lambda>_.
    act_bind (vm_transfer vm token recipient amount) (\<lambda>_.
    emit (TokenRescued token recipient amount)))"

section \<open>The route engine\<close>

definition swapUniswapV3Single ::
  "('g, 'w) evm \<Rightarrow> RouteStep \<Rightarrow> uint256 \<Rightarrow> uint256 \<Rightarrow> ('g, 'w, uint256) contract" where
  "swapUniswapV3Single vm step amountIn deadline =
    act_bind (vm_approve vm (sv_tokenIn step) (sv_target step) amountIn) (\<lambda>_.
    vm_exact_input_single vm (sv_target step)
      \<lparr>ei_tokenIn = sv_tokenIn step, ei_tokenOut = sv_tokenOut step, ei_fee = sv_fee step,
       ei_recipient = vm_self vm, ei_deadline = deadline, ei_amountIn = amountIn,
       ei_amountOutMinimum = sv_minAmountOut step, ei_sqrtPriceLimitX96 = 0\<rparr>)"

text \<open>\<open>amounts[amounts.length - 1]\<close>\<close>

definition last_amount :: "uint256 list \<Rightarrow> ('g, 'w, uint256) contract" where
  "last_amount amounts = checked (if amounts = [] then None else Some (last amounts))"

definition swapUniswapV2 ::
  "('g, 'w) evm \<Rightarrow> RouteStep \<Rightarrow> uint256 \<Rightarrow> uint256 \<Rightarrow> ('g, 'w, uint256) contract" where
  "swapUniswapV2 vm step amountIn deadline =
    act_bind (vm_approve vm (sv_tokenIn step) (sv_target step) amountIn) (\<lambda>_.
    act_bind (vm_swap_v2 vm (sv_target step) amountIn (sv_minAmountOut step)
      [sv_tokenIn step, sv_tokenOut step] (vm_self vm) deadline) last_amount)"

definition swapAerodromeV2 ::
  "('g, 'w) evm \<Rightarrow> RouteStep \<Rightarrow> uint256 \<Rightarrow> uint256 \<Rightarrow> ('g, 'w, uint256) contract" where
  "swapAerodromeV2 vm step amountIn deadline =
    act_bind (lift (ok_or (Callee_Revert []) (vm_decode_extra vm (sv_extraData step)))) (\<lambda>(stable, factory).
    act_bind (vm_approve vm (sv_tokenIn step) (sv_target step) amountIn) (\<lambda>_.
    act_bind (vm_swap_aerodrome vm (sv_target step) amountIn (sv_minAmountOut step)
      [\<lparr>ar_from = sv_tokenIn step, ar_to = sv_tokenOut step, ar_stable = stable, ar_factory = factory\<rparr>]
      (vm_self vm) deadline) last_amount))"

definition executeStep ::
  "('g, 'w) evm \<Rightarrow> RouteStep \<Rightarrow> uint256 \<Rightarrow> uint256 \<Rightarrow> ('g, 'w, uint256) contract" where
  "executeStep vm step amountIn deadline =
    (if sv_venueKind step = Kind_UniswapV3Single then swapUniswapV3Single vm step amountIn deadline
     else if sv_venueKind step = Kind_UniswapV2 then swapUniswapV2 vm step amountIn deadline
     else if sv_venueKind step = Kind_AerodromeV2 then swapAerodromeV2 vm step amountIn deadline
     else lift (Err (UnsupportedVenue (sv_venueKind step))))"

fun route_loop ::
  "('g, 'w) evm \<Rightarrow> uint256 \<Rightarrow> nat \<Rightarrow> uint256 \<Rightarrow> address \<Rightarrow> RouteStep list \<Rightarrow> ('g, 'w, uint256 \<times> address) contract" where
  "route_loop vm deadline i currentAmount currentToken [] = ret (currentAmount, currentToken)"
| "route_loop vm deadline i currentAmount currentToken (step # rest) =
    act_bind (require (sv_tokenIn step = currentToken) (InvalidRouteToken i currentToken (sv_tokenIn step))) (\<lambda>_.
    act_bind (executeStep vm step currentAmount deadline) (\<lambda>nextAmount.
    act_bind (require (sv_minAmountOut step \<le> nextAmount)
      (InsufficientStepOutput i nextAmount (sv_minAmountOut step))) (\<lambda>_.
    route_loop vm deadline (i + 1) nextAmount (sv_tokenOut step) rest)))"

definition runRoute :: "('g, 'w) evm \<Rightarrow> ExecutionPlan \<Rightarrow> uint256 \<Rightarrow> ('g, 'w, uint256) contract" where
  "runRoute vm plan startingAmount =
    act_bind (require (ep_steps plan \<noteq> []) EmptyRoute) (\<lambda>_.
    act_bind (route_loop vm (ep_deadline plan) 0 startingAmount (ep_settlementToken plan) (ep_steps plan))
      (\<lambda>(currentAmount, currentToken).
    act_bind (require (currentToken = ep_settlementToken plan)
      (InvalidRouteToken (length (ep_steps plan)) (ep_settlementToken plan) currentToken)) (\<lambda>_.
    ret currentAmount)))"

text \<open>The settlement check both entry points share.\<close>

definition check_settlement :: "ExecutionPlan \<Rightarrow> uint256 \<Rightarrow> ('g, 'w, unit) contract" where
  "check_settlement plan amountOut =
    act_bind (checked (checked_add (ep_minRepayAmount plan) (ep_minSurplus plan))) (\<lambda>minimumSettlement.
    require (minimumSettlement \<le> amountOut) (InsufficientSettlement amountOut minimumSettlement))"

section \<open>Entry points\<close>

definition check_no_loan :: "('g, 'w, unit) contract" where
  "check_no_loan s = require (ro_fingerprint s = 0) FlashLoanContextActive s"

definition executePlan :: "('g, 'w) evm \<Rightarrow> address \<Rightarrow> ExecutionPlan \<Rightarrow> ('g, 'w, uint256) contract" where
  "executePlan vm sender plan =
    act_bind (onlyExecutor vm sender) (\<lambda>_.
    act_bind (whenNotPaused vm) (\<lambda>_.
    nonReentrant vm (
      act_bind (checkDeadline vm (ep_deadline plan)) (\<lambda>_.
      act_bind check_no_loan (\<lambda>_.
      act_bind (vm_transfer_from vm (ep_settlementToken plan) sender (vm_self vm) (ep_fundingAmount plan)) (\<lambda>_.
      act_bind (runRoute vm plan (ep_fundingAmount plan)) (\<lambda>amountOut.
      act_bind (check_settlement plan amountOut) (\<lambda>_.
      act_bind (vm_transfer vm (ep_settlementToken plan) sender amountOut) (\<lambda>_.
      act_bind (checked (checked_sub amountOut (ep_minRepayAmount plan))) (\<lambda>surplus.
      act_bind (emit (PlanExecuted sender (ep_settlementToken plan) (ep_fundingAmount plan) amountOut surplus False
        (ep_riskHash plan))) (\<lambda>_.
      ret amountOut)))))))))))"

definition loan_check :: "bytes32 \<Rightarrow> ('g, 'w, unit) contract" where
  "loan_check fingerprint s =
    (if ro_fingerprint s \<noteq> 0
     then act_bind (set_fingerprint 0) (\<lambda>_. lift (Err (LoanFingerprintMismatch 0 fingerprint))) s
     else ret () s)"

definition executePlanWithFlashLoan :: "('g, 'w) evm \<Rightarrow> address \<Rightarrow> ExecutionPlan \<Rightarrow> ('g, 'w, unit) contract" where
  "executePlanWithFlashLoan vm sender plan =
    act_bind (onlyExecutor vm sender) (\<lambda>_.
    act_bind (whenNotPaused vm) (\<lambda>_.
    nonReentrant vm (
      act_bind (checkDeadline vm (ep_deadline plan)) (\<lambda>_.
      act_bind check_no_loan (\<lambda>_.
      let userData = vm_encode vm sender plan; fingerprint = vm_keccak vm userData in
      act_bind (set_fingerprint fingerprint) (\<lambda>_.
      act_bind (vm_flash_loan vm (vm_self vm) [ep_settlementToken plan] [ep_fundingAmount plan] userData) (\<lambda>_.
      loan_check fingerprint)))))))"

definition settle_loan :: "('g, 'w) evm \<Rightarrow> address \<Rightarrow> ExecutionPlan \<Rightarrow> ('g, 'w, unit) contract" where
  "settle_loan vm loanCaller plan =
    act_bind (runRoute vm plan (ep_fundingAmount plan)) (\<lambda>amountOut.
    act_bind (check_settlement plan amountOut) (\<lambda>_.
    act_bind (vm_transfer vm (ep_settlementToken plan) (vm_vault vm) (ep_fundingAmount plan)) (\<lambda>_.
    act_bind (checked (checked_sub amountOut (ep_fundingAmount plan))) (\<lambda>surplus.
    act_bind (if surplus > 0 then vm_transfer vm (ep_settlementToken plan) loanCaller surplus else ret ()) (\<lambda>_.
    emit (PlanExecuted loanCaller (ep_settlementToken plan) (ep_fundingAmount plan) amountOut surplus True
      (ep_riskHash plan)))))))"

definition receiveFlashLoan :: "('g, 'w) evm \<Rightarrow> address \<Rightarrow> address list \<Rightarrow> uint256 list \<Rightarrow> uint256 list \<Rightarrow> calldata \<Rightarrow>
    ('g, 'w, unit) contract" where
  "receiveFlashLoan vm sender tokens amounts feeAmounts userData s =
    (let expected = ro_fingerprint s; fingerprint = vm_keccak vm userData in
     act_bind (require (sender = vm_vault vm) (UnexpectedFlashLoanCaller sender)) (\<lambda>_.
     act_bind (require (expected \<noteq> 0 \<and> expected = fingerprint) (LoanFingerprintMismatch expected fingerprint)) (\<lambda>_.
     act_bind (set_fingerprint 0) (\<lambda>_.
     act_bind (lift (ok_or (Callee_Revert []) (vm_decode vm userData))) (\<lambda>(loanCaller, plan).
     act_bind (require (length tokens = 1 \<and> length amounts = 1 \<and> length feeAmounts = 1)
       UnexpectedFlashLoanArrayLength) (\<lambda>_.
     act_bind (require (tokens ! 0 = ep_settlementToken plan)
       (UnexpectedFlashLoanToken (ep_settlementToken plan) (tokens ! 0))) (\<lambda>_.
     act_bind (require (amounts ! 0 = ep_fundingAmount plan)
       (UnexpectedFlashLoanAmount (ep_fundingAmount plan) (amounts ! 0))) (\<lambda>_.
     act_bind (require (feeAmounts ! 0 = 0) (UnexpectedFlashLoanFee (feeAmounts ! 0))) (\<lambda>_.
     settle_loan vm loanCaller plan)))))))) s)"

section \<open>What a route that completes has done\<close>

lemma require_Ok [act_simps]: "require b e s = (Ok u, s') \<longleftrightarrow> b \<and> s' = s"
  by (auto simp: require_def lift_def ensure_def)

lemma checked_Ok [act_simps]: "checked v s = (Ok x, s') \<longleftrightarrow> v = Some x \<and> s' = s"
  by (cases v) (auto simp: checked_def lift_def)

lemma emit_Ok [act_simps]: "emit e s = (Ok u, s') \<longleftrightarrow> s' = s\<lparr>ro_events := ro_events s @ [e]\<rparr>"
  by (auto simp: emit_def act_modify_def)

lemma set_fingerprint_Ok [act_simps]: "set_fingerprint h s = (Ok u, s') \<longleftrightarrow> s' = s\<lparr>ro_fingerprint := h\<rparr>"
  by (auto simp: set_fingerprint_def act_modify_def)

lemma base_update_Ok [act_simps]:
  "base_update f s = (Ok u, s') \<longleftrightarrow> (\<exists>g. f (ro_base s) = Some g \<and> s' = s\<lparr>ro_base := g\<rparr>)"
  by (auto simp: base_update_def split: option.splits)

lemma modifiers_Ok [act_simps]:
  "onlyOwner vm sender s = (Ok u, s') \<longleftrightarrow> sender = vm_owner vm (ro_base s) \<and> s' = s"
  "onlyExecutor vm sender s = (Ok u, s') \<longleftrightarrow>
    (ro_executors s sender \<or> sender = vm_owner vm (ro_base s)) \<and> s' = s"
  "whenNotPaused vm s = (Ok u, s') \<longleftrightarrow> \<not> vm_paused vm (ro_base s) \<and> s' = s"
  "check_no_loan s = (Ok u, s') \<longleftrightarrow> ro_fingerprint s = 0 \<and> s' = s"
  "checkDeadline vm deadline s = (Ok u, s') \<longleftrightarrow> vm_timestamp vm \<le> deadline \<and> s' = s"
  by (simp_all add: onlyOwner_def onlyExecutor_def whenNotPaused_def check_no_loan_def checkDeadline_def require_Ok)

lemma nonReentrant_Ok [act_simps]:
  "nonReentrant vm body s = (Ok x, s') \<longleftrightarrow>
    (\<exists>g s1. vm_enter vm (ro_base s) = Some g \<and> body (s\<lparr>ro_base := g\<rparr>) = (Ok x, s1) \<and>
      s' = s1\<lparr>ro_base := vm_leave vm (ro_base s1)\<rparr>)"
  by (auto simp: nonReentrant_def act_simps)

text \<open>The calls one step makes and what the venue answered: the venue is approved for the amount and
  then asked to swap it, with the step's own minimum, for the contract itself and by the deadline.\<close>

definition swap_made ::
  "('g, 'w) evm \<Rightarrow> uint256 \<Rightarrow> RouteStep \<Rightarrow> uint256 \<Rightarrow> ('g, 'w) router \<Rightarrow> uint256 \<Rightarrow> ('g, 'w) router \<Rightarrow> bool" where
  "swap_made vm deadline step a s out s' \<longleftrightarrow>
    (\<exists>s1. vm_approve vm (sv_tokenIn step) (sv_target step) a s = (Ok (), s1) \<and>
      (case sv_venueKind step of
         Unsupported_Venue \<Rightarrow> False
       | Kind_UniswapV2 \<Rightarrow> \<exists>amounts. vm_swap_v2 vm (sv_target step) a (sv_minAmountOut step)
           [sv_tokenIn step, sv_tokenOut step] (vm_self vm) deadline s1 = (Ok amounts, s') \<and>
           amounts \<noteq> [] \<and> out = last amounts
       | Kind_UniswapV3Single \<Rightarrow> vm_exact_input_single vm (sv_target step)
           \<lparr>ei_tokenIn = sv_tokenIn step, ei_tokenOut = sv_tokenOut step, ei_fee = sv_fee step,
            ei_recipient = vm_self vm, ei_deadline = deadline, ei_amountIn = a,
            ei_amountOutMinimum = sv_minAmountOut step, ei_sqrtPriceLimitX96 = 0\<rparr> s1 = (Ok out, s')
       | Kind_AerodromeV2 \<Rightarrow> \<exists>is_stable factory amounts. vm_decode_extra vm (sv_extraData step) = Some (is_stable, factory) \<and>
           vm_swap_aerodrome vm (sv_target step) a (sv_minAmountOut step)
             [\<lparr>ar_from = sv_tokenIn step, ar_to = sv_tokenOut step, ar_stable = is_stable, ar_factory = factory\<rparr>]
             (vm_self vm) deadline s1 = (Ok amounts, s') \<and> amounts \<noteq> [] \<and> out = last amounts))"

text \<open>A route step by step, from the state before it to the state after it: every step takes the
  token the last one gave and all of the amount its venue reported, and its own venue reports at
  least the minimum of the step.\<close>

fun legs_made :: "('g, 'w) evm \<Rightarrow> uint256 \<Rightarrow> address \<Rightarrow> uint256 \<Rightarrow> RouteStep list \<Rightarrow> uint256 list \<Rightarrow>
    ('g, 'w) router \<Rightarrow> ('g, 'w) router \<Rightarrow> bool" where
  "legs_made vm deadline token a [] [] s s' \<longleftrightarrow> s' = s"
| "legs_made vm deadline token a (step # steps) (out # outs) s s' \<longleftrightarrow>
    sv_tokenIn step = token \<and> sv_minAmountOut step \<le> out \<and>
    (\<exists>s1. swap_made vm deadline step a s out s1 \<and> legs_made vm deadline (sv_tokenOut step) out steps outs s1 s')"
| "legs_made vm deadline token a _ _ s s' \<longleftrightarrow> False"

lemma executeStep_made:
  assumes "executeStep vm step a d s = (Ok out, s')"
  shows "swap_made vm d step a s out s'"
  using assms
  by (cases "sv_venueKind step")
    (auto simp: executeStep_def swapUniswapV3Single_def swapUniswapV2_def swapAerodromeV2_def last_amount_def swap_made_def
      act_simps lift_def res_simps split: if_splits)

lemma route_loop_legs:
  assumes "route_loop vm deadline i a token steps s = (Ok (b, token'), s')"
  shows "\<exists>outs. legs_made vm deadline token a steps outs s s' \<and> b = last (a # outs) \<and>
    token' = last (token # map sv_tokenOut steps)"
  using assms
proof (induction steps arbitrary: i a token s)
  case Nil
  then show ?case by (auto simp: ret_eq intro!: exI[of _ "[]"])
next
  case (Cons step steps)
  from Cons.prems obtain out s1 where one: "sv_tokenIn step = token" "executeStep vm step a deadline s = (Ok out, s1)"
      "sv_minAmountOut step \<le> out" "route_loop vm deadline (i + 1) out (sv_tokenOut step) steps s1 = (Ok (b, token'), s')"
    by (auto simp: act_simps)
  from Cons.IH[OF one(4)] obtain outs where
    "legs_made vm deadline (sv_tokenOut step) out steps outs s1 s'" "b = last (out # outs)"
      "token' = last (sv_tokenOut step # map sv_tokenOut steps)" by blast
  with one executeStep_made[OF one(2)] show ?case by (intro exI[of _ "out # outs"]) auto
qed

lemma runRoute_sound:
  assumes "runRoute vm plan a s = (Ok b, s')"
  shows "\<exists>outs. ep_steps plan \<noteq> [] \<and>
    legs_made vm (ep_deadline plan) (ep_settlementToken plan) a (ep_steps plan) outs s s' \<and> b = last outs \<and>
    sv_tokenOut (last (ep_steps plan)) = ep_settlementToken plan"
proof -
  from assms have ne: "ep_steps plan \<noteq> []" and loop: "route_loop vm (ep_deadline plan) 0 a (ep_settlementToken plan)
      (ep_steps plan) s = (Ok (b, ep_settlementToken plan), s')"
    by (auto simp: runRoute_def act_simps)
  from route_loop_legs[OF loop] obtain outs where
    o: "legs_made vm (ep_deadline plan) (ep_settlementToken plan) a (ep_steps plan) outs s s'"
    "b = last (a # outs)" "ep_settlementToken plan = last (ep_settlementToken plan # map sv_tokenOut (ep_steps plan))" by blast
  from o(1) ne have "outs \<noteq> []" by (cases "ep_steps plan") (auto elim: legs_made.elims)
  with o ne show ?thesis by (auto simp: last_map)
qed

lemma check_settlement_Ok:
  assumes "check_settlement plan b s = (Ok u, s')"
  shows "unat (ep_minRepayAmount plan) + unat (ep_minSurplus plan) \<le> unat b \<and> s' = s"
  using assms by (auto simp: check_settlement_def act_simps checked_add_eq_Some word_le_nat_alt)

text \<open>C16: a plan that executes has been executed as written.  When the self-funded entry point
  returns, the caller was the owner or an executor, the contract was neither paused nor inside
  another plan, the deadline had not passed; the funding was taken from the caller; then the steps
  were made one after the other, each with its own venue, in the token and with all of the amount
  the last one gave, and each venue reported at least the minimum of its step; the route is not
  empty and starts and ends in the settlement token; and the amount returned is what the last
  venue reported, covers the repayment and the surplus, as exact numbers, and was paid to the
  caller.\<close>

theorem executed_plan_sound:
  assumes "executePlan vm sender plan s = (Ok amountOut, s')"
  shows "(ro_executors s sender \<or> sender = vm_owner vm (ro_base s)) \<and> \<not> vm_paused vm (ro_base s) \<and>
    ro_fingerprint s = 0 \<and> vm_timestamp vm \<le> ep_deadline plan \<and>
    unat (ep_minRepayAmount plan) + unat (ep_minSurplus plan) \<le> unat amountOut \<and>
    ep_steps plan \<noteq> [] \<and> sv_tokenOut (last (ep_steps plan)) = ep_settlementToken plan \<and>
    (\<exists>g s1 s2 s3 outs. vm_enter vm (ro_base s) = Some g \<and>
      vm_transfer_from vm (ep_settlementToken plan) sender (vm_self vm) (ep_fundingAmount plan) (s\<lparr>ro_base := g\<rparr>) = (Ok (), s1) \<and>
      legs_made vm (ep_deadline plan) (ep_settlementToken plan) (ep_fundingAmount plan) (ep_steps plan) outs s1 s2 \<and>
      amountOut = last outs \<and> vm_transfer vm (ep_settlementToken plan) sender amountOut s2 = (Ok (), s3))"
proof -
  from assms obtain g s1 s2 s3 s4 u where
    g: "ro_executors s sender \<or> sender = vm_owner vm (ro_base s)" "\<not> vm_paused vm (ro_base s)"
      "vm_enter vm (ro_base s) = Some g" "ro_fingerprint s = 0" "vm_timestamp vm \<le> ep_deadline plan"
      "vm_transfer_from vm (ep_settlementToken plan) sender (vm_self vm) (ep_fundingAmount plan) (s\<lparr>ro_base := g\<rparr>) = (Ok (), s1)"
    and r: "runRoute vm plan (ep_fundingAmount plan) s1 = (Ok amountOut, s2)"
      "check_settlement plan amountOut s2 = (Ok u, s3)"
      "vm_transfer vm (ep_settlementToken plan) sender amountOut s3 = (Ok (), s4)"
    by (auto simp: executePlan_def act_simps)
  from g r(3) runRoute_sound[OF r(1)] check_settlement_Ok[OF r(2)] show ?thesis by blast
qed

section \<open>What a called contract can do\<close>

text \<open>The calls the contract accepts, its own and the inherited ones.\<close>

datatype entry =
    Call_SetExecutor address bool
  | Call_Pause
  | Call_Unpause
  | Call_TransferOwnership address
  | Call_RenounceOwnership
  | Call_Rescue address address uint256
  | Call_Plan ExecutionPlan
  | Call_FlashPlan ExecutionPlan
  | Call_Receive "address list" "uint256 list" "uint256 list" calldata

fun entry_body :: "('g, 'w) evm \<Rightarrow> address \<Rightarrow> entry \<Rightarrow> ('g, 'w, unit) contract" where
  "entry_body vm sender (Call_SetExecutor executor allowed) = setExecutor vm sender executor allowed"
| "entry_body vm sender Call_Pause = pause vm sender"
| "entry_body vm sender Call_Unpause = unpause vm sender"
| "entry_body vm sender (Call_TransferOwnership owner) = base_update (vm_transfer_ownership vm sender owner)"
| "entry_body vm sender Call_RenounceOwnership = base_update (vm_renounce_ownership vm sender)"
| "entry_body vm sender (Call_Rescue token recipient amount) = rescueToken vm sender token recipient amount"
| "entry_body vm sender (Call_Plan plan) = act_bind (executePlan vm sender plan) (\<lambda>_. ret ())"
| "entry_body vm sender (Call_FlashPlan plan) = executePlanWithFlashLoan vm sender plan"
| "entry_body vm sender (Call_Receive tokens amounts fees userData) =
    receiveFlashLoan vm sender tokens amounts fees userData"

inductive reenters :: "('g, 'w) evm \<Rightarrow> ('g, 'w) router \<Rightarrow> (address \<times> entry) list \<Rightarrow> ('g, 'w) router \<Rightarrow> bool" for vm where
  none: "reenters vm s [] s"
| elsewhere: "reenters vm s tr s1 \<Longrightarrow> reenters vm s tr (s1\<lparr>ro_world := w\<rparr>)"
| call: "reenters vm s tr s1 \<Longrightarrow> transact (entry_body vm sender e) s1 = (Ok (), s2) \<Longrightarrow>
    reenters vm s (tr @ [(sender, e)]) s2"

text \<open>The outcome of a call to another contract.\<close>

inductive calls_out :: "('g, 'w) evm \<Rightarrow> ('g, 'w) router \<Rightarrow> ('g, 'w) router \<Rightarrow> bool" for vm where
  "vm_transfer_from vm t a b n s = (Ok (), s') \<Longrightarrow> calls_out vm s s'"
| "vm_transfer vm t b n s = (Ok (), s') \<Longrightarrow> calls_out vm s s'"
| "vm_approve vm t b n s = (Ok (), s') \<Longrightarrow> calls_out vm s s'"
| "vm_exact_input_single vm v params s = (Ok x, s') \<Longrightarrow> calls_out vm s s'"
| "vm_swap_v2 vm v n m path b d s = (Ok xs, s') \<Longrightarrow> calls_out vm s s'"
| "vm_swap_aerodrome vm v n m routes b d s = (Ok xs, s') \<Longrightarrow> calls_out vm s s'"

text \<open>The chain at each remaining call depth: with no depth left a callee cannot call back; with
  one more it can make the calls of the depth below.  What is not a call is the same at every
  depth.\<close>

definition fixed_part where
  "fixed_part vm = (vm_self vm, vm_vault vm, vm_timestamp vm, vm_owner vm, vm_paused vm, vm_pause vm, vm_unpause vm,
    vm_transfer_ownership vm, vm_renounce_ownership vm, vm_enter vm, vm_leave vm, vm_encode vm, vm_decode vm,
    vm_decode_extra vm, vm_keccak vm)"

fun justified ::
  "(nat \<Rightarrow> ('g, 'w) evm) \<Rightarrow> nat \<Rightarrow> ('g, 'w) router \<Rightarrow> (address \<times> entry) list \<Rightarrow> ('g, 'w) router \<Rightarrow> bool" where
  "justified vms 0 s tr s' \<longleftrightarrow> tr = [] \<and> s' = s\<lparr>ro_world := ro_world s'\<rparr>"
| "justified vms (Suc d) s tr s' \<longleftrightarrow> reenters (vms d) s tr s'"

definition confined :: "(nat \<Rightarrow> ('g, 'w) evm) \<Rightarrow> bool" where
  "confined vms \<longleftrightarrow> (\<forall>d. fixed_part (vms d) = fixed_part (vms 0)) \<and>
    (\<forall>d s s'. calls_out (vms d) s s' \<longrightarrow> (\<exists>tr. justified vms d s tr s')) \<and>
    (\<forall>d r ts ns data s s'. vm_flash_loan (vms d) r ts ns data s = (Ok (), s') \<longrightarrow> (\<exists>tr. justified vms d s tr s'))"

text \<open>The inherited guard, as documented: while a guarded function runs none can be entered,
  and nothing else changes that.\<close>

definition bases_ok :: "('g, 'w) evm \<Rightarrow> bool" where
  "bases_ok vm \<longleftrightarrow>
    (\<forall>g g'. vm_enter vm g = Some g' \<longrightarrow> vm_enter vm g' = None) \<and>
    (\<forall>g g' f. f \<in> {vm_pause vm, vm_unpause vm} \<union> range (\<lambda>(a, b). vm_transfer_ownership vm a b) \<union>
        range (vm_renounce_ownership vm) \<longrightarrow> vm_enter vm g = None \<longrightarrow> f g = Some g' \<longrightarrow> vm_enter vm g' = None)"

fun is_plan :: "RouterEvent \<Rightarrow> bool" where
  "is_plan (PlanExecuted _ _ _ _ _ _ _) = True"
| "is_plan _ = False"

text \<open>Inside a guarded function, with the given loan fingerprint and plans logged.\<close>

definition guarded :: "('g, 'w) evm \<Rightarrow> bytes32 \<Rightarrow> RouterEvent list \<Rightarrow> ('g, 'w) router \<Rightarrow> bool" where
  "guarded vm h plans s \<longleftrightarrow>
    vm_enter vm (ro_base s) = None \<and> ro_fingerprint s = h \<and> filter is_plan (ro_events s) = plans"

text \<open>The plan in the loan data has been run and logged: it reported enough to repay the loan
  and to meet its own minimum.\<close>

definition loan_settled :: "(nat \<Rightarrow> ('g, 'w) evm) \<Rightarrow> bytes32 \<Rightarrow> RouterEvent \<Rightarrow> bool" where
  "loan_settled vms h e \<longleftrightarrow> (\<exists>data caller plan out surplus outs d s1 s2.
    vm_keccak (vms 0) data = h \<and> vm_decode (vms 0) data = Some (caller, plan) \<and>
    e = PlanExecuted caller (ep_settlementToken plan) (ep_fundingAmount plan) out surplus True (ep_riskHash plan) \<and>
    unat out = unat (ep_fundingAmount plan) + unat surplus \<and>
    unat (ep_minRepayAmount plan) + unat (ep_minSurplus plan) \<le> unat out \<and>
    ep_steps plan \<noteq> [] \<and> out = last outs \<and>
    legs_made (vms d) (ep_deadline plan) (ep_settlementToken plan) (ep_fundingAmount plan) (ep_steps plan) outs s1 s2)"

definition loan_open :: "(nat \<Rightarrow> ('g, 'w) evm) \<Rightarrow> bytes32 \<Rightarrow> RouterEvent list \<Rightarrow> ('g, 'w) router \<Rightarrow> bool" where
  "loan_open vms h plans s \<longleftrightarrow>
    guarded (vms 0) h plans s \<or> (\<exists>e. loan_settled vms h e \<and> guarded (vms 0) 0 (plans @ [e]) s)"

section \<open>Nothing gets past the guard\<close>

definition ok_keeps :: "('s \<Rightarrow> bool) \<Rightarrow> ('s, 'e, 'a) act \<Rightarrow> bool" where
  "ok_keeps P m \<longleftrightarrow> (\<forall>s x s'. P s \<longrightarrow> m s = (Ok x, s') \<longrightarrow> P s')"

lemma ok_keepsD: "ok_keeps P m \<Longrightarrow> P s \<Longrightarrow> m s = (Ok x, s') \<Longrightarrow> P s'"
  by (auto simp: ok_keeps_def)

named_theorems ok_intros "properties kept by contract code that completes"

lemma ok_keeps_bind [ok_intros]:
  assumes "ok_keeps P m" "\<And>x. ok_keeps P (k x)"
  shows "ok_keeps P (act_bind m k)"
  unfolding ok_keeps_def
proof (intro allI impI)
  fix s x s' assume s: "P s" and "act_bind m k s = (Ok x, s')"
  then obtain y s1 where "m s = (Ok y, s1)" "k y s1 = (Ok x, s')" by (auto simp: act_bind_eq_Ok)
  with s show "P s'" by (meson assms ok_keepsD)
qed

lemma ok_keeps_basic [ok_intros]:
  "ok_keeps P (ret x)" "ok_keeps P (lift r)" "ok_keeps P (require b e)" "ok_keeps P (checked v)"
  "ok_keeps P (onlyOwner vm sender)"
  by (auto simp: ok_keeps_def act_simps)

lemma ok_keeps_emit [ok_intros]:
  "\<not> is_plan e \<Longrightarrow> ok_keeps (guarded vm h plans) (emit e)" "\<not> is_plan e \<Longrightarrow> ok_keeps (loan_open vms h plans) (emit e)"
  by (auto simp: ok_keeps_def act_simps guarded_def loan_open_def)

text \<open>Code all of whose outward calls keep a property of guard and fingerprint keeps it.\<close>

definition outward :: "('g, 'w) evm \<Rightarrow> (('g, 'w) router \<Rightarrow> bool) \<Rightarrow> bool" where
  "outward vm P \<longleftrightarrow> (\<forall>s s'. calls_out vm s s' \<longrightarrow> P s \<longrightarrow> P s')"

lemma outward_calls [ok_intros]:
  assumes "outward vm P"
  shows "ok_keeps P (vm_transfer_from vm t a b n)" "ok_keeps P (vm_transfer vm t b n)" "ok_keeps P (vm_approve vm t b n)"
    "ok_keeps P (vm_exact_input_single vm v params)" "ok_keeps P (vm_swap_v2 vm v n m path b d)"
    "ok_keeps P (vm_swap_aerodrome vm v n m routes b d)"
  using assms by (auto simp: ok_keeps_def outward_def intro: calls_out.intros)

lemma executeStep_outward [ok_intros]:
  assumes "outward vm P"
  shows "ok_keeps P (executeStep vm step a d)"
  unfolding executeStep_def swapUniswapV3Single_def swapUniswapV2_def swapAerodromeV2_def last_amount_def
  by (auto intro!: ok_intros assms split: prod.split)

lemma runRoute_outward [ok_intros]:
  assumes "outward vm P"
  shows "ok_keeps P (runRoute vm plan a)"
proof -
  have "ok_keeps P (route_loop vm d i b token steps)" for d i b token steps
    by (induction steps arbitrary: i b token) (auto intro!: ok_intros assms)
  then show ?thesis unfolding runRoute_def by (auto intro!: ok_intros split: prod.split)
qed

lemma settle_loan_logs:
  assumes "outward (vms d) (guarded (vms 0) 0 plans)" "settle_loan (vms d) caller plan s = (Ok (), s')" "guarded (vms 0) 0 plans s"
    and "vm_keccak (vms 0) data = h" "vm_decode (vms 0) data = Some (caller, plan)"
  shows "\<exists>e. loan_settled vms h e \<and> guarded (vms 0) 0 (plans @ [e]) s'"
proof -
  from assms(2) obtain out s1 s2 u s3 surplus v s4 where
    r: "runRoute (vms d) plan (ep_fundingAmount plan) s = (Ok out, s1)" "check_settlement plan out s1 = (Ok u, s2)"
      "vm_transfer (vms d) (ep_settlementToken plan) (vm_vault (vms d)) (ep_fundingAmount plan) s2 = (Ok v, s3)"
      "checked_sub out (ep_fundingAmount plan) = Some surplus"
      "(if surplus > 0 then vm_transfer (vms d) (ep_settlementToken plan) caller surplus else ret ()) s3 = (Ok (), s4)"
    and s': "s' = s4\<lparr>ro_events := ro_events s4 @ [PlanExecuted caller (ep_settlementToken plan) (ep_fundingAmount plan)
      out surplus True (ep_riskHash plan)]\<rparr>"
    by (auto simp: settle_loan_def act_simps)
  note c = check_settlement_Ok[OF r(2)]
  have "guarded (vms 0) 0 plans s1" by (rule ok_keepsD[OF runRoute_outward[OF assms(1)] assms(3) r(1)])
  then have "guarded (vms 0) 0 plans s3" using c ok_keepsD[OF outward_calls(2)[OF assms(1)] _ r(3)] by blast
  moreover have "ok_keeps (guarded (vms 0) 0 plans)
      (if surplus > 0 then vm_transfer (vms d) (ep_settlementToken plan) caller surplus else ret ())"
    by (auto intro: ok_intros assms(1))
  ultimately have g: "guarded (vms 0) 0 plans s4" using r(5) by (blast intro: ok_keepsD)
  from runRoute_sound[OF r(1)] obtain outs where "ep_steps plan \<noteq> []"
    "legs_made (vms d) (ep_deadline plan) (ep_settlementToken plan) (ep_fundingAmount plan) (ep_steps plan) outs s s1"
    "out = last outs" by blast
  moreover have "unat out = unat (ep_fundingAmount plan) + unat surplus" using r(4) by (simp add: checked_sub_eq_Some)
  ultimately have "loan_settled vms h (PlanExecuted caller (ep_settlementToken plan) (ep_fundingAmount plan) out surplus True
      (ep_riskHash plan))"
    using assms(4,5) c unfolding loan_settled_def by blast
  with g s' show ?thesis by (auto simp: guarded_def)
qed

lemma confinedD:
  assumes "confined vms"
  shows "vm_enter (vms d) = vm_enter (vms 0)" "vm_pause (vms d) = vm_pause (vms 0)" "vm_unpause (vms d) = vm_unpause (vms 0)"
    "vm_transfer_ownership (vms d) = vm_transfer_ownership (vms 0)"
    "vm_renounce_ownership (vms d) = vm_renounce_ownership (vms 0)" "vm_keccak (vms d) = vm_keccak (vms 0)"
    "vm_decode (vms d) = vm_decode (vms 0)"
  using assms by (auto simp: confined_def fixed_part_def)

lemma transact_Ok: "transact m s = (Ok x, s') \<longleftrightarrow> m s = (Ok x, s')"
  by (auto simp: transact_def split: prod.splits res.splits)

text \<open>Administration never touches the guard, whatever else is the case.\<close>

lemma base_update_keeps:
  assumes "\<And>g g'. vm_enter (vms 0) g = None \<Longrightarrow> f g = Some g' \<Longrightarrow> vm_enter (vms 0) g' = None"
  shows "ok_keeps (guarded (vms 0) h plans) (base_update f)" "ok_keeps (loan_open vms h plans) (base_update f)"
proof -
  show g: "ok_keeps (guarded (vms 0) h plans) (base_update f)" for h plans
    using assms unfolding ok_keeps_def base_update_Ok guarded_def by force
  show "ok_keeps (loan_open vms h plans) (base_update f)"
    using g unfolding ok_keeps_def loan_open_def by metis
qed

lemma set_executors_keeps:
  "ok_keeps (guarded (vms 0) h plans) (act_modify (\<lambda>s. s\<lparr>ro_executors := f s\<rparr>))"
  "ok_keeps (loan_open vms h plans) (act_modify (\<lambda>s. s\<lparr>ro_executors := f s\<rparr>))"
  by (simp_all add: ok_keeps_def act_modify_eq guarded_def loan_open_def)

fun administrative :: "entry \<Rightarrow> bool" where
  "administrative (Call_Plan _) = False"
| "administrative (Call_FlashPlan _) = False"
| "administrative (Call_Receive _ _ _ _) = False"
| "administrative _ = True"

lemma bases_okD:
  assumes "bases_ok vm" "vm_enter vm g = None"
  shows "vm_pause vm g = Some g' \<Longrightarrow> vm_enter vm g' = None" "vm_unpause vm g = Some g' \<Longrightarrow> vm_enter vm g' = None"
    "vm_transfer_ownership vm a b g = Some g' \<Longrightarrow> vm_enter vm g' = None"
    "vm_renounce_ownership vm a g = Some g' \<Longrightarrow> vm_enter vm g' = None"
  using assms unfolding bases_ok_def by blast+

lemma admin_guarded:
  assumes "confined vms" "bases_ok (vms 0)" "outward (vms d) (guarded (vms 0) h plans)" "administrative e"
  shows "ok_keeps (guarded (vms 0) h plans) (entry_body (vms d) sender e)"
proof -
  note keep = base_update_keeps[where vms = vms]
  note base = keep(1)[OF bases_okD(1)[OF assms(2)]] keep(1)[OF bases_okD(2)[OF assms(2)]]
    keep(1)[OF bases_okD(3)[OF assms(2)]] keep(1)[OF bases_okD(4)[OF assms(2)]]
  note bodies = setExecutor_def pause_def unpause_def rescueToken_def confinedD[OF assms(1), of d]
  show ?thesis
    using assms(4)
    by (cases e; simp add: bodies; intro ok_intros set_executors_keeps base outward_calls(2)[OF assms(3)]; simp)
qed

lemma admin_loan_open:
  assumes "confined vms" "bases_ok (vms 0)" "outward (vms d) (loan_open vms h plans)" "administrative e"
  shows "ok_keeps (loan_open vms h plans) (entry_body (vms d) sender e)"
proof -
  note keep = base_update_keeps[where vms = vms]
  note base = keep(2)[OF bases_okD(1)[OF assms(2)]] keep(2)[OF bases_okD(2)[OF assms(2)]]
    keep(2)[OF bases_okD(3)[OF assms(2)]] keep(2)[OF bases_okD(4)[OF assms(2)]]
  note bodies = setExecutor_def pause_def unpause_def rescueToken_def confinedD[OF assms(1), of d]
  show ?thesis
    using assms(4)
    by (cases e; simp add: bodies; intro ok_intros set_executors_keeps base outward_calls(2)[OF assms(3)]; simp)
qed

lemma plans_refused:
  assumes "vm_enter vm (ro_base s) = None"
  shows "executePlan vm sender plan s \<noteq> (Ok x, s')" "executePlanWithFlashLoan vm sender plan s \<noteq> (Ok (), s')"
  using assms by (auto simp: executePlan_def executePlanWithFlashLoan_def act_simps)

lemma receive_Ok:
  assumes "receiveFlashLoan vm sender tokens amounts fees data s = (Ok (), s')"
  obtains caller plan where "sender = vm_vault vm" "ro_fingerprint s \<noteq> 0" "vm_keccak vm data = ro_fingerprint s"
    "vm_decode vm data = Some (caller, plan)" "tokens = [ep_settlementToken plan]" "amounts = [ep_fundingAmount plan]"
    "fees = [0]" "settle_loan vm caller plan (s\<lparr>ro_fingerprint := 0\<rparr>) = (Ok (), s')"
proof (cases "vm_decode vm data")
  case None
  with assms show ?thesis by (simp add: receiveFlashLoan_def act_simps Let_def)
next
  case (Some x)
  obtain caller plan where x: "x = (caller, plan)" by (cases x)
  from assms Some x have a: "sender = vm_vault vm" "ro_fingerprint s \<noteq> 0" "vm_keccak vm data = ro_fingerprint s"
    "length tokens = 1" "length amounts = 1" "length fees = 1" "tokens ! 0 = ep_settlementToken plan"
    "amounts ! 0 = ep_fundingAmount plan" "fees ! 0 = 0"
    "settle_loan vm caller plan (s\<lparr>ro_fingerprint := 0\<rparr>) = (Ok (), s')"
    by (auto simp: receiveFlashLoan_def act_simps Let_def)
  from a(4-9) have "tokens = [ep_settlementToken plan]" "amounts = [ep_fundingAmount plan]" "fees = [0]"
    by (simp_all add: list_eq_iff_nth_eq)
  with that[OF a(1-3) Some[unfolded x]] a(10) show ?thesis by simp
qed

lemma entry_guarded:
  assumes "confined vms" "bases_ok (vms 0)" "outward (vms d) (guarded (vms 0) 0 plans)"
  shows "ok_keeps (guarded (vms 0) 0 plans) (entry_body (vms d) sender e)"
proof (cases "administrative e")
  case True
  with assms show ?thesis by (rule admin_guarded)
next
  case False
  have "\<not> guarded (vms 0) 0 plans s" if "entry_body (vms d) sender e s = (Ok x, s')" for s x s'
  proof
    assume g: "guarded (vms 0) 0 plans s"
    then have "vm_enter (vms d) (ro_base s) = None" using confinedD(1)[OF assms(1), of d] by (simp add: guarded_def)
    note refused = plans_refused[OF this]
    from False that g refused show False
      by (cases e) (auto simp: act_bind_eq_Ok guarded_def elim: receive_Ok)
  qed
  then show ?thesis by (auto simp: ok_keeps_def)
qed

lemma reenters_guarded:
  assumes "confined vms" "bases_ok (vms 0)" "outward (vms d) (guarded (vms 0) 0 plans)"
    and "reenters (vms d) s tr s'" "guarded (vms 0) 0 plans s"
  shows "guarded (vms 0) 0 plans s'"
  using assms(4,5)
proof induction
  case (elsewhere s tr s1 w)
  then show ?case by (simp add: guarded_def)
next
  case (call s tr s1 sender e s2)
  then show ?case using ok_keepsD[OF entry_guarded[OF assms(1-3)]] by (simp add: transact_Ok)
qed simp

lemma world_only:
  assumes "s' = s\<lparr>ro_world := w\<rparr>"
  shows "ro_base s' = ro_base s" "ro_fingerprint s' = ro_fingerprint s" "ro_events s' = ro_events s"
  using assms by simp_all

text \<open>With the fingerprint clear, nothing a callee does gets past the guard, at any depth.\<close>

lemma justified_guarded:
  assumes "confined vms" "bases_ok (vms 0)"
  shows "outward (vms d) (guarded (vms 0) 0 plans)"
proof (induction d)
  case 0
  show ?case unfolding outward_def
  proof (intro allI impI)
    fix s s' assume "calls_out (vms 0) s s'" and g: "guarded (vms 0) 0 plans s"
    with assms(1) have "s' = s\<lparr>ro_world := ro_world s'\<rparr>" unfolding confined_def by fastforce
    from world_only[OF this] g show "guarded (vms 0) 0 plans s'" by (simp add: guarded_def)
  qed
next
  case (Suc d)
  show ?case unfolding outward_def
  proof (intro allI impI)
    fix s s' assume "calls_out (vms (Suc d)) s s'" and g: "guarded (vms 0) 0 plans s"
    with assms(1) obtain tr where "justified vms (Suc d) s tr s'" unfolding confined_def by blast
    then have "reenters (vms d) s tr s'" by simp
    from reenters_guarded[OF assms Suc this g] show "guarded (vms 0) 0 plans s'" .
  qed
qed

lemma entry_loan_open:
  assumes "confined vms" "bases_ok (vms 0)" "outward (vms d) (loan_open vms h plans)"
  shows "ok_keeps (loan_open vms h plans) (entry_body (vms d) sender e)"
proof (cases "administrative e")
  case True
  with assms show ?thesis by (rule admin_loan_open)
next
  case False
  show ?thesis unfolding ok_keeps_def
  proof (intro allI impI)
    fix s x s' assume o: "loan_open vms h plans s" and run: "entry_body (vms d) sender e s = (Ok x, s')"
    then have "vm_enter (vms d) (ro_base s) = None"
      using confinedD(1)[OF assms(1), of d] by (auto simp: guarded_def loan_open_def)
    note refused = plans_refused[OF this]
    from False run refused obtain tokens amounts fees data where
      "receiveFlashLoan (vms d) sender tokens amounts fees data s = (Ok (), s')"
      by (cases e) (auto simp: act_bind_eq_Ok)
    then show "loan_open vms h plans s'"
    proof (cases rule: receive_Ok)
      case (1 caller plan)
      with o have g: "guarded (vms 0) h plans s" by (auto simp: loan_open_def guarded_def)
      then have g0: "guarded (vms 0) 0 plans (s\<lparr>ro_fingerprint := 0\<rparr>)" by (simp add: guarded_def)
      have "vm_keccak (vms 0) data = h" "vm_decode (vms 0) data = Some (caller, plan)"
        using 1 g confinedD[OF assms(1), of d] by (simp_all add: guarded_def)
      from settle_loan_logs[OF justified_guarded[OF assms(1,2)] 1(8) g0 this] show ?thesis
        by (simp add: loan_open_def)
    qed
  qed
qed

lemma reenters_loan_open:
  assumes "confined vms" "bases_ok (vms 0)" "outward (vms d) (loan_open vms h plans)"
    and "reenters (vms d) s tr s'" "loan_open vms h plans s"
  shows "loan_open vms h plans s'"
  using assms(4,5)
proof induction
  case (elsewhere s tr s1 w)
  then show ?case by (simp add: guarded_def loan_open_def)
next
  case (call s tr s1 sender e s2)
  then show ?case using ok_keepsD[OF entry_loan_open[OF assms(1-3)]] by (simp add: transact_Ok)
qed simp

lemma justified_loan_open:
  assumes "confined vms" "bases_ok (vms 0)" "justified vms d s tr s'" "loan_open vms h plans s"
  shows "loan_open vms h plans s'"
  using assms(3,4)
proof (induction d arbitrary: s tr s')
  case 0
  from world_only[OF justified.simps(1)[THEN iffD1, THEN conjunct2, OF 0(1)]] 0(2) show ?case by (simp add: guarded_def loan_open_def)
next
  case (Suc d)
  have "outward (vms d) (loan_open vms h plans)"
    unfolding outward_def using Suc.IH assms(1) unfolding confined_def by blast
  from reenters_loan_open[OF assms(1,2) this _ Suc.prems(2)] Suc.prems(1) show ?case by simp
qed

lemma loan_check_Ok: "loan_check h s = (Ok u, s') \<longleftrightarrow> ro_fingerprint s = 0 \<and> s' = s"
  by (simp add: loan_check_def act_simps)

lemma flash_plan_Ok:
  assumes "executePlanWithFlashLoan vm sender plan s = (Ok (), s')"
  obtains g s1 where "ro_executors s sender \<or> sender = vm_owner vm (ro_base s)" "vm_enter vm (ro_base s) = Some g"
    "vm_flash_loan vm (vm_self vm) [ep_settlementToken plan] [ep_fundingAmount plan] (vm_encode vm sender plan)
      (s\<lparr>ro_base := g, ro_fingerprint := vm_keccak vm (vm_encode vm sender plan)\<rparr>) = (Ok (), s1)"
    "ro_fingerprint s1 = 0" "s' = s1\<lparr>ro_base := vm_leave vm (ro_base s1)\<rparr>"
proof -
  from assms obtain g s1 where g: "ro_executors s sender \<or> sender = vm_owner vm (ro_base s)" "vm_enter vm (ro_base s) = Some g"
    and b: "act_bind (checkDeadline vm (ep_deadline plan)) (\<lambda>_. act_bind check_no_loan (\<lambda>_.
        act_bind (set_fingerprint (vm_keccak vm (vm_encode vm sender plan))) (\<lambda>_.
        act_bind (vm_flash_loan vm (vm_self vm) [ep_settlementToken plan] [ep_fundingAmount plan] (vm_encode vm sender plan))
          (\<lambda>_. loan_check (vm_keccak vm (vm_encode vm sender plan)))))) (s\<lparr>ro_base := g\<rparr>) = (Ok (), s1)"
    and s': "s' = s1\<lparr>ro_base := vm_leave vm (ro_base s1)\<rparr>"
    unfolding executePlanWithFlashLoan_def Let_def act_bind_eq_Ok[of "onlyExecutor vm sender"]
      act_bind_eq_Ok[of "whenNotPaused vm"] modifiers_Ok nonReentrant_Ok by blast
  from b have "vm_flash_loan vm (vm_self vm) [ep_settlementToken plan] [ep_fundingAmount plan] (vm_encode vm sender plan)
      (s\<lparr>ro_base := g, ro_fingerprint := vm_keccak vm (vm_encode vm sender plan)\<rparr>) = (Ok (), s1) \<and> ro_fingerprint s1 = 0"
    by (auto simp: act_simps loan_check_Ok)
  with g s' that show ?thesis by blast
qed


section \<open>The contract's own tokens\<close>

text \<open>What the contract holds of a token, read from the rest of the chain.\<close>

definition held :: "('g, 'w) evm \<Rightarrow> ('w \<Rightarrow> address \<Rightarrow> address \<Rightarrow> int) \<Rightarrow> ('g, 'w) router \<Rightarrow> address \<Rightarrow> int" where
  "held vm bal s token = bal (ro_world s) token (vm_self vm)"

definition at_token :: "address \<Rightarrow> uint256 \<Rightarrow> address \<Rightarrow> int" where
  "at_token t n t' = (if t' = t then uint n else 0)"

text \<open>Tokens and venues that do what their interfaces document: transfers move the amount named,
  approvals move nothing, and a venue takes the input and delivers the output it reports.\<close>

definition honest_tokens :: "('g, 'w) evm \<Rightarrow> ('w \<Rightarrow> address \<Rightarrow> address \<Rightarrow> int) \<Rightarrow> bool" where
  "honest_tokens vm bal \<longleftrightarrow>
    (\<forall>t a n s s'. vm_transfer_from vm t a (vm_self vm) n s = (Ok (), s') \<longrightarrow> a \<noteq> vm_self vm \<longrightarrow>
      held vm bal s' = (\<lambda>t'. held vm bal s t' + at_token t n t')) \<and>
    (\<forall>t b n s s'. vm_transfer vm t b n s = (Ok (), s') \<longrightarrow> b \<noteq> vm_self vm \<longrightarrow>
      held vm bal s' = (\<lambda>t'. held vm bal s t' - at_token t n t')) \<and>
    (\<forall>t b n s s'. vm_approve vm t b n s = (Ok (), s') \<longrightarrow> held vm bal s' = held vm bal s)"

definition honest_venues :: "('g, 'w) evm \<Rightarrow> ('w \<Rightarrow> address \<Rightarrow> address \<Rightarrow> int) \<Rightarrow> bool" where
  "honest_venues vm bal \<longleftrightarrow>
    (\<forall>v p s x s'. vm_exact_input_single vm v p s = (Ok x, s') \<longrightarrow> ei_recipient p = vm_self vm \<longrightarrow> held vm bal s' =
      (\<lambda>t. held vm bal s t - at_token (ei_tokenIn p) (ei_amountIn p) t + at_token (ei_tokenOut p) x t)) \<and>
    (\<forall>v n m a b d s xs s'. vm_swap_v2 vm v n m [a, b] (vm_self vm) d s = (Ok xs, s') \<longrightarrow> xs \<noteq> [] \<longrightarrow> held vm bal s' =
      (\<lambda>t. held vm bal s t - at_token a n t + at_token b (last xs) t)) \<and>
    (\<forall>v n m r d s xs s'. vm_swap_aerodrome vm v n m [r] (vm_self vm) d s = (Ok xs, s') \<longrightarrow> xs \<noteq> [] \<longrightarrow> held vm bal s' =
      (\<lambda>t. held vm bal s t - at_token (ar_from r) n t + at_token (ar_to r) (last xs) t))"

lemma last_amount_Ok: "last_amount xs s = (Ok x, s') \<longleftrightarrow> xs \<noteq> [] \<and> x = last xs \<and> s' = s"
  by (auto simp: last_amount_def checked_Ok)

lemma executeStep_held:
  assumes "honest_tokens vm bal" "honest_venues vm bal" "executeStep vm step a d s = (Ok out, s')"
  shows "held vm bal s' t = held vm bal s t - at_token (sv_tokenIn step) a t + at_token (sv_tokenOut step) out t"
proof -
  have ap: "held vm bal s1 = held vm bal s0" if "vm_approve vm x b n s0 = (Ok u, s1)" for x b n s0 u s1
    using assms(1) that unfolding honest_tokens_def by simp
  show ?thesis
  proof (cases "sv_venueKind step")
    case Kind_UniswapV3Single
    with assms(3) obtain s1 where "vm_approve vm (sv_tokenIn step) (sv_target step) a s = (Ok (), s1)"
      "vm_exact_input_single vm (sv_target step) \<lparr>ei_tokenIn = sv_tokenIn step, ei_tokenOut = sv_tokenOut step,
        ei_fee = sv_fee step, ei_recipient = vm_self vm, ei_deadline = d, ei_amountIn = a,
        ei_amountOutMinimum = sv_minAmountOut step, ei_sqrtPriceLimitX96 = 0\<rparr> s1 = (Ok out, s')"
      by (auto simp: executeStep_def swapUniswapV3Single_def act_bind_eq_Ok)
    with ap assms(2) show ?thesis unfolding honest_venues_def by fastforce
  next
    case Kind_UniswapV2
    with assms(3) obtain s1 xs where "vm_approve vm (sv_tokenIn step) (sv_target step) a s = (Ok (), s1)"
      "vm_swap_v2 vm (sv_target step) a (sv_minAmountOut step) [sv_tokenIn step, sv_tokenOut step] (vm_self vm) d s1 = (Ok xs, s')"
      "xs \<noteq> []" "out = last xs"
      by (auto simp: executeStep_def swapUniswapV2_def act_bind_eq_Ok last_amount_Ok)
    with ap assms(2) show ?thesis unfolding honest_venues_def by fastforce
  next
    case Kind_AerodromeV2
    with assms(3) obtain s1 xs r where "vm_approve vm (sv_tokenIn step) (sv_target step) a s = (Ok (), s1)"
      "ar_from r = sv_tokenIn step" "ar_to r = sv_tokenOut step"
      "vm_swap_aerodrome vm (sv_target step) a (sv_minAmountOut step) [r] (vm_self vm) d s1 = (Ok xs, s')"
      "xs \<noteq> []" "out = last xs"
      by (force simp: executeStep_def swapAerodromeV2_def act_bind_eq_Ok lift_eq last_amount_Ok)
    with ap assms(2) show ?thesis unfolding honest_venues_def by fastforce
  qed (use executeStep_made[OF assms(3)] in \<open>simp add: swap_made_def\<close>)
qed

lemma route_loop_held:
  assumes "honest_tokens vm bal" "honest_venues vm bal" "route_loop vm d i a token steps s = (Ok (b, token'), s')"
  shows "held vm bal s' t = held vm bal s t - at_token token a t + at_token token' b t"
  using assms(3)
proof (induction steps arbitrary: i a token s)
  case Nil
  then show ?case by (simp add: ret_eq)
next
  case (Cons step steps)
  from Cons.prems obtain out s1 where one: "sv_tokenIn step = token" "executeStep vm step a d s = (Ok out, s1)"
      "route_loop vm d (i + 1) out (sv_tokenOut step) steps s1 = (Ok (b, token'), s')"
    by (auto simp: act_simps)
  from Cons.IH[OF one(3)] executeStep_held[OF assms(1,2) one(2)] one(1) show ?case by simp
qed

lemma runRoute_held:
  assumes "honest_tokens vm bal" "honest_venues vm bal" "runRoute vm plan a s = (Ok b, s')"
  shows "held vm bal s' t = held vm bal s t - at_token (ep_settlementToken plan) a t + at_token (ep_settlementToken plan) b t"
proof -
  from assms(3) have "route_loop vm (ep_deadline plan) 0 a (ep_settlementToken plan) (ep_steps plan) s =
      (Ok (b, ep_settlementToken plan), s')"
    by (auto simp: runRoute_def act_simps)
  from route_loop_held[OF assms(1,2) this] show ?thesis .
qed

lemma held_other [simp]:
  "held vm bal (s\<lparr>ro_base := g\<rparr>) = held vm bal s" "held vm bal (s\<lparr>ro_fingerprint := h\<rparr>) = held vm bal s"
  "held vm bal (s\<lparr>ro_events := es\<rparr>) = held vm bal s"
  by (simp_all add: held_def fun_eq_iff)

lemma transfer_held:
  assumes "honest_tokens vm bal" "vm_transfer vm t b n s = (Ok u, s')" "b \<noteq> vm_self vm"
  shows "held vm bal s' = (\<lambda>t'. held vm bal s t' - at_token t n t')"
  using assms unfolding honest_tokens_def by simp

lemma executePlan_held:
  assumes "honest_tokens vm bal" "honest_venues vm bal" "sender \<noteq> vm_self vm"
    and "executePlan vm sender plan s = (Ok amountOut, s')"
  shows "held vm bal s' = held vm bal s"
proof -
  from assms(4) obtain g s1 s2 s3 s4 u where
    f: "vm_transfer_from vm (ep_settlementToken plan) sender (vm_self vm) (ep_fundingAmount plan) (s\<lparr>ro_base := g\<rparr>) = (Ok (), s1)"
    and r: "runRoute vm plan (ep_fundingAmount plan) s1 = (Ok amountOut, s2)"
    and c: "check_settlement plan amountOut s2 = (Ok u, s3)"
    and p: "vm_transfer vm (ep_settlementToken plan) sender amountOut s3 = (Ok (), s4)"
    and e: "held vm bal s' = held vm bal s4"
    by (auto simp: executePlan_def act_simps)
  have "held vm bal s1 = (\<lambda>t. held vm bal (s\<lparr>ro_base := g\<rparr>) t + at_token (ep_settlementToken plan) (ep_fundingAmount plan) t)"
    using f assms(1,3) unfolding honest_tokens_def by blast
  with e transfer_held[OF assms(1) p assms(3)] runRoute_held[OF assms(1,2) r] check_settlement_Ok[OF c]
  show ?thesis by (simp add: fun_eq_iff)
qed

lemma settle_loan_held:
  assumes "honest_tokens vm bal" "honest_venues vm bal" "sender \<noteq> vm_self vm" "vm_vault vm \<noteq> vm_self vm"
    and "settle_loan vm sender plan s = (Ok (), s')"
  shows "held vm bal s' = (\<lambda>t. held vm bal s t - at_token (ep_settlementToken plan) (ep_fundingAmount plan) t)"
proof -
  from assms(5) obtain out s1 s2 u s3 surplus s4 where
    r: "runRoute vm plan (ep_fundingAmount plan) s = (Ok out, s1)"
    and c: "check_settlement plan out s1 = (Ok u, s2)"
    and p: "vm_transfer vm (ep_settlementToken plan) (vm_vault vm) (ep_fundingAmount plan) s2 = (Ok (), s3)"
    and d: "checked_sub out (ep_fundingAmount plan) = Some surplus"
    and q: "(if surplus > 0 then vm_transfer vm (ep_settlementToken plan) sender surplus else ret ()) s3 = (Ok (), s4)"
    and e: "held vm bal s' = held vm bal s4"
    by (auto simp: settle_loan_def act_simps)
  have "held vm bal s4 = (\<lambda>t. held vm bal s3 t - at_token (ep_settlementToken plan) surplus t)"
  proof (cases "surplus = 0")
    case True
    with q show ?thesis by (auto simp: ret_eq at_token_def)
  next
    case False
    with q transfer_held[OF assms(1) _ assms(3)] show ?thesis by (simp add: word_gt_0)
  qed
  moreover have "uint out = uint (ep_fundingAmount plan) + uint surplus"
    using d by (simp add: checked_sub_eq_Some) (metis of_nat_add uint_nat)
  ultimately show ?thesis
    using e transfer_held[OF assms(1) p assms(4)] runRoute_held[OF assms(1,2) r] check_settlement_Ok[OF c]
    by (simp add: fun_eq_iff at_token_def)
qed

text \<open>C17: running plans does not touch the contract's own tokens.  With tokens and venues that
  do what they document, a self-funded plan leaves every balance of the contract as it was,
  and the loan callback leaves every balance as it was except that the borrowed amount, which
  the vault had sent before, is gone again.\<close>

theorem inventory_untouched:
  assumes "honest_tokens vm bal" "honest_venues vm bal" "sender \<noteq> vm_self vm" "vm_vault vm \<noteq> vm_self vm"
  shows "(executePlan vm sender plan s = (Ok amountOut, s') \<longrightarrow> held vm bal s' = held vm bal s) \<and>
    (receiveFlashLoan vm from tokens amounts fees data s = (Ok (), s') \<longrightarrow> vm_decode vm data = Some (sender, plan) \<longrightarrow>
      held vm bal s' = (\<lambda>t. held vm bal s t - at_token (ep_settlementToken plan) (ep_fundingAmount plan) t))"
proof -
  have "settle_loan vm sender plan (s\<lparr>ro_fingerprint := 0\<rparr>) = (Ok (), s')"
    if "receiveFlashLoan vm from tokens amounts fees data s = (Ok (), s')" "vm_decode vm data = Some (sender, plan)"
    using that by (auto elim: receive_Ok)
  then show ?thesis using executePlan_held[OF assms(1-3)] settle_loan_held[OF assms] by fastforce
qed

section \<open>Between calls no loan is open\<close>

definition idle :: "('g, 'w) router \<Rightarrow> bool" where
  "idle s \<longleftrightarrow> ro_fingerprint s = 0"

lemma idle_kept [ok_intros]:
  "ok_keeps idle (emit e)" "ok_keeps idle (base_update f)" "ok_keeps idle (onlyExecutor vm sender)"
  "ok_keeps idle (whenNotPaused vm)" "ok_keeps idle (checkDeadline vm t)" "ok_keeps idle check_no_loan"
  "ok_keeps idle (act_modify (\<lambda>s. s\<lparr>ro_executors := ex s\<rparr>))" "ok_keeps idle (check_settlement plan n)"
  by (auto simp: ok_keeps_def idle_def act_simps check_no_loan_def act_modify_eq dest!: check_settlement_Ok)

lemma flash_plan_idle: "executePlanWithFlashLoan vm sender plan s = (Ok (), s') \<Longrightarrow> idle s'"
  by (auto simp: idle_def elim: flash_plan_Ok)

lemma entry_idle:
  assumes "outward vm idle"
  shows "ok_keeps idle (entry_body vm sender e)"
proof (cases e)
  case (Call_FlashPlan plan)
  then show ?thesis by (auto simp: ok_keeps_def intro: flash_plan_idle)
next
  case (Call_Receive tokens amounts fees data)
  then show ?thesis by (auto simp: ok_keeps_def idle_def elim: receive_Ok)
qed (auto simp: setExecutor_def pause_def unpause_def rescueToken_def executePlan_def nonReentrant_def intro!: ok_intros assms)

lemma reenters_idle:
  assumes "outward vm idle" "reenters vm s tr s'" "idle s"
  shows "idle s'"
  using assms(2,3)
proof induction
  case (call s tr s1 sender e s2)
  then show ?case using ok_keepsD[OF entry_idle[OF assms(1)]] by (simp add: transact_Ok)
qed (simp_all add: idle_def)

lemma outward_idle:
  assumes "confined vms"
  shows "outward (vms d) idle"
proof (induction d)
  case 0
  show ?case unfolding outward_def
  proof (intro allI impI)
    fix s s' assume "calls_out (vms 0) s s'" "idle s"
    with assms have "s' = s\<lparr>ro_world := ro_world s'\<rparr>" unfolding confined_def by (metis justified.simps(1))
    from world_only(2)[OF this] \<open>idle s\<close> show "idle s'" by (simp add: idle_def)
  qed
next
  case (Suc d)
  show ?case unfolding outward_def
  proof (intro allI impI)
    fix s s' assume "calls_out (vms (Suc d)) s s'" "idle s"
    with assms obtain tr where "reenters (vms d) s tr s'" unfolding confined_def by (metis justified.simps(2))
    from reenters_idle[OF Suc this \<open>idle s\<close>] show "idle s'" .
  qed
qed

text \<open>C18: a finished call leaves no loan behind.  From the deployment on, through any sequence of
  calls by anyone, each of them free to call back at any point and to any depth, the loan
  fingerprint is clear whenever no call is running; so no plan is ever refused because of an
  earlier loan, and outside a flash plan the vault cannot have a plan run.\<close>

theorem no_loan_between_calls:
  assumes "confined vms" "deploy bases world initialOwner = Some s0" "reenters (vms d) s0 tr s"
  shows "ro_fingerprint s = 0 \<and> fst (check_no_loan s) = Ok () \<and>
    receiveFlashLoan (vms d') sender tokens amounts fees data s \<noteq> (Ok (), s')"
proof -
  have "idle s0" using assms(2) by (auto simp: deploy_def idle_def)
  from reenters_idle[OF outward_idle[OF assms(1)] assms(3) this] show ?thesis
    by (auto simp: idle_def check_no_loan_def require_def ensure_def lift_def elim: receive_Ok)
qed

section \<open>A small chain\<close>

text \<open>The guard as a flag, one token, a venue that reports a fixed amount, and a vault that calls
  back as often as the call depth allows: not at all at depth zero.\<close>

definition sample_hop :: RouteStep where
  "sample_hop = \<lparr>sv_venueKind = Kind_UniswapV2, sv_target = 9, sv_tokenIn = 5, sv_tokenOut = 5, sv_fee = 0,
    sv_minAmountOut = 100, sv_extraData = []\<rparr>"

definition sample_trade :: ExecutionPlan where
  "sample_trade = \<lparr>ep_settlementToken = 5, ep_fundingAmount = 100, ep_minRepayAmount = 100, ep_minSurplus = 1,
    ep_deadline = 50, ep_steps = [sample_hop], ep_riskHash = 77\<rparr>"

type_synonym holdings = "address \<Rightarrow> int"

definition move :: "int \<Rightarrow> address \<Rightarrow> (bool, holdings) router \<Rightarrow> (bool, holdings) router" where
  "move n t s = s\<lparr>ro_world := (ro_world s)(t := ro_world s t + n)\<rparr>"

definition plain_evm :: "(bool, holdings) evm" where
  "plain_evm = \<lparr>vm_self = 1, vm_vault = 2, vm_timestamp = 40, vm_owner = (\<lambda>_. 3), vm_paused = (\<lambda>_. False),
    vm_pause = (\<lambda>g. Some g), vm_unpause = (\<lambda>g. Some g), vm_transfer_ownership = (\<lambda>_ _ _. None),
    vm_renounce_ownership = (\<lambda>_ _. None), vm_enter = (\<lambda>g. if g then None else Some True), vm_leave = (\<lambda>_. False),
    vm_transfer_from = (\<lambda>t a b n s. (Ok (), move (if b = 1 then uint n else 0) t s)),
    vm_transfer = (\<lambda>t b n s. (Ok (), move (if b = 1 then 0 else - uint n) t s)),
    vm_approve = (\<lambda>t b n s. (Ok (), s)),
    vm_exact_input_single = (\<lambda>v p s. (Err (Callee_Revert []), s)),
    vm_swap_v2 = (\<lambda>v n m path b d s. (Ok [n, 110], move 110 (last path) (move (- uint n) (hd path) s))),
    vm_swap_aerodrome = (\<lambda>v n m routes b d s. (Err (Callee_Revert []), s)),
    vm_flash_loan = (\<lambda>r ts ns data s. (Err (Callee_Revert []), s)),
    vm_encode = (\<lambda>_ _. [1]), vm_decode = (\<lambda>_. Some (3, sample_trade)), vm_decode_extra = (\<lambda>_. None),
    vm_keccak = (\<lambda>data. if data = [1] then 7 else 0)\<rparr>"

primrec sample_evm :: "nat \<Rightarrow> (bool, holdings) evm" where
  "sample_evm 0 = plain_evm"
| "sample_evm (Suc d) = plain_evm\<lparr>vm_flash_loan := (\<lambda>r ts ns data.
    act_bind (act_modify (move (uint (hd ns)) (hd ts)))
      (\<lambda>_. transact (entry_body (sample_evm d) 2 (Call_Receive ts ns [0] data))))\<rparr>"

definition sample_router :: "(bool, holdings) router" where
  "sample_router = \<lparr>ro_base = False, ro_executors = (\<lambda>_. False), ro_fingerprint = 0, ro_events = [],
    ro_world = (\<lambda>_. 1000)\<rparr>"

lemma sample_fixed: "fixed_part (sample_evm d) = fixed_part (sample_evm 0)"
  by (cases d) (simp_all add: fixed_part_def)

lemma sample_calls_out:
  assumes "calls_out (sample_evm d) s s'"
  shows "s' = s\<lparr>ro_world := ro_world s'\<rparr>"
  using assms by (cases d) (auto simp: plain_evm_def move_def elim!: calls_out.cases split: if_splits)

lemma sample_flash_loan:
  assumes "vm_flash_loan (sample_evm d) r ts ns data s = (Ok (), s')"
  shows "\<exists>tr. justified sample_evm d s tr s'"
proof (cases d)
  case (Suc k)
  let ?s = "move (uint (hd ns)) (hd ts) s"
  from assms Suc have "transact (entry_body (sample_evm k) 2 (Call_Receive ts ns [0] data)) ?s = (Ok (), s')"
    by (simp add: act_bind_def act_modify_def)
  moreover have "reenters (sample_evm k) s [] ?s"
    unfolding move_def by (intro reenters.elsewhere reenters.none)
  ultimately have "reenters (sample_evm k) s ([] @ [(2, Call_Receive ts ns [0] data)]) s'"
    by (intro reenters.call)
  with Suc show ?thesis by auto
qed (use assms in \<open>simp add: plain_evm_def\<close>)

lemma sample_confined: "confined sample_evm"
  unfolding confined_def
proof (intro conjI allI impI)
  fix d s s' assume "calls_out (sample_evm d) s s'"
  note w = sample_calls_out[OF this]
  have "reenters vm s [] s'" for vm
    by (subst w) (intro reenters.elsewhere reenters.none)
  with w show "\<exists>tr. justified sample_evm d s tr s'" by (cases d) auto
qed (use sample_fixed sample_flash_loan in blast)+

lemma sample_bases: "bases_ok (sample_evm 0)"
  by (auto simp: bases_ok_def plain_evm_def)

lemmas run_sample = plain_evm_def move_def act_bind_def act_modify_def lift_def ret_def require_def ensure_def checked_def emit_def
  set_fingerprint_def base_update_def onlyExecutor_def whenNotPaused_def nonReentrant_def checkDeadline_def
  check_no_loan_def loan_check_def check_settlement_def runRoute_def executeStep_def swapUniswapV2_def last_amount_def
  sample_trade_def sample_hop_def sample_router_def checked_add_def checked_sub_def transact_def word_le_nat_alt
  word_less_nat_alt

lemma sample_executes: "\<exists>s'. executePlan (sample_evm 0) 3 sample_trade sample_router = (Ok 110, s')"
  by (simp add: executePlan_def run_sample)

lemma sample_flash_executes: "\<exists>s'. executePlanWithFlashLoan (sample_evm 1) 3 sample_trade sample_router = (Ok (), s')"
  by (simp add: executePlanWithFlashLoan_def receiveFlashLoan_def settle_loan_def run_sample Let_def)

theorem executed_plan_sound_witness:
  "\<exists>s'. executePlan (sample_evm 0) 3 sample_trade sample_router = (Ok 110, s') \<and>
    (\<exists>s1 s2. swap_made (sample_evm 0) (ep_deadline sample_trade) sample_hop 100 s1 110 s2)"
proof -
  obtain s' where run: "executePlan (sample_evm 0) 3 sample_trade sample_router = (Ok 110, s')"
    using sample_executes by blast
  have plan: "ep_steps sample_trade = [sample_hop]" "ep_fundingAmount sample_trade = 100" by (simp_all add: sample_trade_def)
  from executed_plan_sound[OF run] obtain outs s1 s2 where
    "legs_made (sample_evm 0) (ep_deadline sample_trade) (ep_settlementToken sample_trade) 100 [sample_hop] outs s1 s2"
    "110 = last outs" unfolding plan by blast
  then have "\<exists>s3. swap_made (sample_evm 0) (ep_deadline sample_trade) sample_hop 100 s1 110 s3"
    by (cases outs rule: remdups_adj.cases) auto
  with run show ?thesis by blast
qed


theorem no_loan_between_calls_witness:
  "\<exists>s. transact (entry_body (sample_evm 1) 3 (Call_FlashPlan sample_trade)) sample_router = (Ok (), s) \<and>
    ro_fingerprint s = 0 \<and> receiveFlashLoan (sample_evm 1) 2 [5] [100] [0] [1] s \<noteq> (Ok (), sample_router)"
proof -
  obtain s where "executePlanWithFlashLoan (sample_evm 1) 3 sample_trade sample_router = (Ok (), s)"
    using sample_flash_executes by blast
  then have run: "transact (entry_body (sample_evm 1) 3 (Call_FlashPlan sample_trade)) sample_router = (Ok (), s)"
    by (simp add: transact_Ok)
  from reenters.call[OF reenters.none this] have "reenters (sample_evm 1) sample_router
    ([] @ [(3, Call_FlashPlan sample_trade)]) s" .
  moreover have "deploy (\<lambda>_. Some False) (\<lambda>_. 1000) 3 = Some sample_router"
    by (simp add: deploy_def sample_router_def)
  ultimately show ?thesis using no_loan_between_calls[OF sample_confined] run by blast
qed

definition sample_holdings :: "holdings \<Rightarrow> address \<Rightarrow> address \<Rightarrow> int" where
  "sample_holdings w token who = (if who = 1 then w token else 0)"

lemma sample_honest: "honest_tokens (sample_evm 0) sample_holdings" "honest_venues (sample_evm 0) sample_holdings"
  by (auto simp: honest_tokens_def honest_venues_def plain_evm_def held_def sample_holdings_def at_token_def move_def fun_eq_iff)

lemma sample_repays: "\<exists>s'. receiveFlashLoan plain_evm 2 [5] [100] [0] [1] (sample_router\<lparr>ro_fingerprint := 7\<rparr>) = (Ok (), s')"
  by (simp add: receiveFlashLoan_def settle_loan_def run_sample Let_def)

lemma sample_inventory: "held plain_evm sample_holdings sample_router 5 = 1000"
  "held plain_evm sample_holdings (sample_router\<lparr>ro_fingerprint := 7\<rparr>) 5 = 1000"
  by (simp_all add: held_def plain_evm_def sample_holdings_def sample_router_def)

theorem inventory_untouched_witness:
  "\<exists>s' s''. executePlan plain_evm 3 sample_trade sample_router = (Ok 110, s') \<and>
    held plain_evm sample_holdings s' 5 = 1000 \<and>
    receiveFlashLoan plain_evm 2 [5] [100] [0] [1] (sample_router\<lparr>ro_fingerprint := 7\<rparr>) = (Ok (), s'') \<and>
    held plain_evm sample_holdings s'' 5 = 900"
proof -
  obtain s' s'' where run: "executePlan plain_evm 3 sample_trade sample_router = (Ok 110, s')"
    and loan: "receiveFlashLoan plain_evm 2 [5] [100] [0] [1] (sample_router\<lparr>ro_fingerprint := 7\<rparr>) = (Ok (), s'')"
    using sample_executes sample_repays by auto
  have ok: "honest_tokens plain_evm sample_holdings" "honest_venues plain_evm sample_holdings"
    "(3 :: address) \<noteq> vm_self plain_evm" "vm_vault plain_evm \<noteq> vm_self plain_evm"
    and plan: "vm_decode plain_evm [1] = Some (3, sample_trade)"
    using sample_honest by (simp_all add: plain_evm_def)
  have a: "held plain_evm sample_holdings s' = held plain_evm sample_holdings sample_router"
    using inventory_untouched[OF ok] run by blast
  have b: "held plain_evm sample_holdings s'' = (\<lambda>t. held plain_evm sample_holdings (sample_router\<lparr>ro_fingerprint := 7\<rparr>) t -
      at_token (ep_settlementToken sample_trade) (ep_fundingAmount sample_trade) t)"
    using inventory_untouched[OF ok] loan plan by blast
  have "at_token (ep_settlementToken sample_trade) (ep_fundingAmount sample_trade) 5 = 100"
    by (simp add: at_token_def sample_trade_def)
  with sample_inventory have "held plain_evm sample_holdings s' 5 = 1000" "held plain_evm sample_holdings s'' 5 = 900"
    by (simp_all add: fun_cong[OF a, of 5] fun_cong[OF b, of 5])
  with run loan show ?thesis by blast
qed

end
