(* ===== verification/Settlement.thy ===== *)
theory Settlement
  imports App Router
begin

text \<open>
  From a detected loop to the contract.  The plan \<open>build_plan\<close> hands to the ABI encoder
  (\<open>src/crates/execution/src/lib.rs\<close>) is read as the plan the contract receives
  (\<open>src/contracts/src/BaseExecutionRouter.sol\<close>): addresses and hashes as big-endian numbers, venue
  kinds by their number.  The plan of every accepted loop passes all checks of the contract, so that
  only a call of a token or a venue can stop it; but its steps are addressed to the pools
  themselves, which the contract calls as if they were swap routers.
\<close>

section \<open>The plan as the contract receives it\<close>

definition of_bytes :: "bytes \<Rightarrow> ('a :: len) word" where
  "of_bytes = foldl (\<lambda>n b. n * 256 + ucast b) 0"

definition venue_of_u8 :: "u8 \<Rightarrow> VenueKind option" where
  "venue_of_u8 n = (if n = 0 then Some Unsupported_Venue else if n = 1 then Some Kind_UniswapV2
    else if n = 2 then Some Kind_UniswapV3Single else if n = 3 then Some Kind_AerodromeV2 else None)"

definition received_step :: "RouterRouteStep \<Rightarrow> RouteStep option" where
  "received_step r = map_option (\<lambda>kind.
    \<lparr>sv_venueKind = kind, sv_target = of_bytes (rs_target r), sv_tokenIn = of_bytes (rs_tokenIn r),
     sv_tokenOut = of_bytes (rs_tokenOut r), sv_fee = rs_fee r, sv_minAmountOut = rs_minAmountOut r,
     sv_extraData = rs_extraData r\<rparr>) (venue_of_u8 (rs_venueKind r))"

definition received_plan :: "RouterExecutionPlan \<Rightarrow> ExecutionPlan option" where
  "received_plan p = map_option (\<lambda>steps.
    \<lparr>ep_settlementToken = of_bytes (pl_settlementToken p), ep_fundingAmount = pl_fundingAmount p,
     ep_minRepayAmount = pl_minRepayAmount p, ep_minSurplus = pl_minSurplus p, ep_deadline = pl_deadline p,
     ep_steps = steps, ep_riskHash = of_bytes (pl_riskHash p)\<rparr>) (those (map received_step (pl_steps p)))"

section \<open>The plan of a loop\<close>

lemma loop_request:
  assumes "detect_two_leg_loop input = Ok (Some opp)" "build_execution_request opp d = Some rq"
  obtains s1 s2 where "rq_steps rq = [s1, s2]" "rd_accepted d"
    "st_token_in s1 = tl_settlement_token input" "st_token_in s2 = st_token_out s1"
    "st_token_out s2 = tl_settlement_token input"
    "st_target s1 = v2_address (tl_first_pool input)" "st_target s2 = v2_address (tl_second_pool input)"
    "st_calldata_hint s1 = Some ''v2_exact_input''" "st_calldata_hint s2 = Some ''v2_exact_input''"
    "unat (rq_min_repay rq) + unat (op_expected_net_profit opp) = unat (st_min_amount_out s2)"
    "rq_flashloan_asset rq = Some (tl_settlement_token input)" "rq_flashloan_amount rq = Some (rq_min_repay rq)"
    "rq_min_surplus rq = rd_min_surplus d"
  using assms(1)
proof (cases rule: detect_SomeE)
  case (1 q1 q2)
  from assms(1) 1(1-3)
  have "map leg_target (op_route opp) = [v2_address (tl_first_pool input), v2_address (tl_second_pool input)]"
    by (auto simp: detect_two_leg_loop_def split: if_splits option.splits)
  with 1(11-14) obtain l1 l2 where route: "op_route opp = [l1, l2]"
    "leg_target l1 = v2_address (tl_first_pool input)" "leg_target l2 = v2_address (tl_second_pool input)"
    "leg_token_in l1 = tl_settlement_token input" "leg_token_in l2 = leg_token_out l1"
    "leg_token_out l2 = tl_settlement_token input" "leg_min_amount_out l1 = Some (pq_amount_out q1)"
    "leg_min_amount_out l2 = Some (pq_amount_out q2)"
    by (auto simp: map_eq_Cons_conv)
  from assms(2) route(1,7,8) have rq: "rd_accepted d" "rq_steps rq = [the (step_of_leg l1), the (step_of_leg l2)]"
    "rq_min_repay rq = op_input_amount opp" "rq_flashloan_asset rq = Some (op_settlement_token opp)"
    "rq_flashloan_amount rq = Some (op_input_amount opp)" "rq_min_surplus rq = rd_min_surplus d"
    by (auto simp: build_execution_request_def step_of_leg_def split: if_splits)
  show thesis
    by (rule that[OF rq(2,1)]) (simp_all add: step_of_leg_def route rq 1(4,8,9))
qed

lemma build_route_step_v2:
  assumes "build_route_step al s i = Ok r" "st_calldata_hint s = Some ''v2_exact_input''"
  shows "rs_venueKind r = 1"
  using assms by (auto simp: build_route_step_def hint_arm_def res_simps)

lemma loop_plan:
  assumes "detect_two_leg_loop input = Ok (Some opp)" "build_execution_request opp d = Some rq"
    and "build_plan al config rq now = Ok (router, p)"
  obtains plan t1 t2 where "received_plan p = Some plan" "ep_steps plan = [t1, t2]"
    "sv_venueKind t1 = Kind_UniswapV2" "sv_venueKind t2 = Kind_UniswapV2"
    "sv_tokenIn t1 = ep_settlementToken plan" "sv_tokenIn t2 = sv_tokenOut t1" "sv_tokenOut t2 = ep_settlementToken plan"
    "\<exists>a. al_address al (v2_address (tl_first_pool input)) = Some a \<and> sv_target t1 = of_bytes a"
    "\<exists>a. al_address al (v2_address (tl_second_pool input)) = Some a \<and> sv_target t2 = of_bytes a"
    "unat (ep_minRepayAmount plan) + unat (op_expected_net_profit opp) = unat (sv_minAmountOut t2)"
    "ep_fundingAmount plan = ep_minRepayAmount plan" "unat (ep_minSurplus plan) = unat (rd_min_surplus d)"
    "unat (ep_deadline plan) = unat now + unat (ex_plan_deadline_secs config)"
  using assms(1,2)
proof (cases rule: loop_request)
  case (1 s1 s2)
  from assms(3) 1(11) have settle: "al_address al (tl_settlement_token input) = Some (pl_settlementToken p)"
    by (auto simp: build_plan_def parse_address_def res_simps)
  from assms(3) have "map_res (\<lambda>(i, s). build_route_step al s i) (enumerate 0 (rq_steps rq)) = Ok (pl_steps p)"
    by (auto simp: build_plan_def res_simps)
  from map_res_enumerate_Ok[OF this] 1(1) obtain r1 r2 i1 i2 where
    r: "pl_steps p = [r1, r2]" "build_route_step al s1 i1 = Ok r1" "build_route_step al s2 i2 = Ok r2"
    by (auto simp: list_all2_Cons1)
  have kind: "rs_venueKind r1 = 1" "rs_venueKind r2 = 1"
    using r(2,3) 1(8,9) by (auto dest: build_route_step_v2)
  note steps = build_route_step_sound[OF r(2), unfolded step_of_request_def]
    build_route_step_sound[OF r(3), unfolded step_of_request_def]
  note p = build_plan_sound(2-5)[OF assms(3)]
  show thesis
    by (rule that)
      (use 1 settle kind steps p in \<open>auto simp: received_plan_def received_step_def venue_of_u8_def r(1) word_unat_eq_iff\<close>)
qed


section \<open>Who stops a plan\<close>

text \<open>A failure without its value type, and a call of another contract that fails in that way.\<close>

definition failure :: "('e, 'a) res \<Rightarrow> ('e, unit) res" where
  "failure r = attempt r (\<lambda>_. Ok ())"

lemma failure_simps [simp]: "failure (Ok x) = Ok ()" "failure (Err e) = Err e" "failure Panic = Panic"
  by (simp_all add: failure_def)

definition call_fails :: "('w, 'e, 'a) act \<Rightarrow> 'w \<Rightarrow> ('e, unit) res \<Rightarrow> bool" where
  "call_fails m s r \<longleftrightarrow> (\<exists>v s'. m s = (v, s') \<and> \<not> is_ok v \<and> r = failure v)"

lemma bind_outcome:
  assumes "act_bind m k s = (r, s'')"
  obtains (goes_on) x s' where "m s = (Ok x, s')" "k x s' = (r, s'')"
    | (fails) "call_fails m s (failure r)" "\<not> is_ok r"
  using assms by (cases "m s"; cases "fst (m s)") (auto simp: act_bind_def call_fails_def)

lemma bind_lift: "act_bind (lift (Ok x)) k = k x"
  by (rule ext) simp

text \<open>A V2 step that is not made: its venue cannot be approved, refuses the swap, or reports nothing
  or less than the minimum of the step.\<close>

definition step_refused ::
  "('g, 'w) evm \<Rightarrow> uint256 \<Rightarrow> nat \<Rightarrow> RouteStep \<Rightarrow> uint256 \<Rightarrow> ('g, 'w) router \<Rightarrow> (revert, unit) res \<Rightarrow> bool" where
  "step_refused vm deadline i step a s r \<longleftrightarrow>
    call_fails (vm_approve vm (sv_tokenIn step) (sv_target step) a) s r \<or>
    (\<exists>s1. vm_approve vm (sv_tokenIn step) (sv_target step) a s = (Ok (), s1) \<and>
      (let swap = vm_swap_v2 vm (sv_target step) a (sv_minAmountOut step) [sv_tokenIn step, sv_tokenOut step] (vm_self vm) deadline in
       call_fails swap s1 r \<or>
       (\<exists>amounts s2. swap s1 = (Ok amounts, s2) \<and>
         (amounts = [] \<and> r = Err Arithmetic \<or>
          amounts \<noteq> [] \<and> last amounts < sv_minAmountOut step \<and>
            r = Err (InsufficientStepOutput i (last amounts) (sv_minAmountOut step))))))"

text \<open>A route that stops: some steps were made, the next one was refused.\<close>

definition route_refused ::
  "('g, 'w) evm \<Rightarrow> ExecutionPlan \<Rightarrow> ('g, 'w) router \<Rightarrow> (revert, unit) res \<Rightarrow> bool" where
  "route_refused vm plan s r \<longleftrightarrow> (\<exists>pre step rest outs s1. ep_steps plan = pre @ step # rest \<and>
    legs_made vm (ep_deadline plan) (ep_settlementToken plan) (ep_fundingAmount plan) pre outs s s1 \<and>
    step_refused vm (ep_deadline plan) (length pre) step (last (ep_fundingAmount plan # outs)) s1 r)"

text \<open>A self-funded plan and a plan inside its loan that stop: the funding cannot be taken, the route
  is refused, or the tokens it ended with cannot be paid out.\<close>

definition plan_refused ::
  "('g, 'w) evm \<Rightarrow> address \<Rightarrow> ExecutionPlan \<Rightarrow> ('g, 'w) router \<Rightarrow> (revert, unit) res \<Rightarrow> bool" where
  "plan_refused vm sender plan s r \<longleftrightarrow>
    (let fund = vm_transfer_from vm (ep_settlementToken plan) sender (vm_self vm) (ep_fundingAmount plan) in
     call_fails fund s r \<or>
     (\<exists>s1. fund s = (Ok (), s1) \<and>
       (route_refused vm plan s1 r \<or>
        (\<exists>outs s2. legs_made vm (ep_deadline plan) (ep_settlementToken plan) (ep_fundingAmount plan) (ep_steps plan) outs s1 s2 \<and>
          call_fails (vm_transfer vm (ep_settlementToken plan) sender (last outs)) s2 r))))"

definition loan_refused ::
  "('g, 'w) evm \<Rightarrow> address \<Rightarrow> ExecutionPlan \<Rightarrow> ('g, 'w) router \<Rightarrow> (revert, unit) res \<Rightarrow> bool" where
  "loan_refused vm caller plan s r \<longleftrightarrow>
    route_refused vm plan s r \<or>
    (\<exists>outs s1. legs_made vm (ep_deadline plan) (ep_settlementToken plan) (ep_fundingAmount plan) (ep_steps plan) outs s s1 \<and>
      (let repay = vm_transfer vm (ep_settlementToken plan) (vm_vault vm) (ep_fundingAmount plan) in
       call_fails repay s1 r \<or>
       (\<exists>s2. repay s1 = (Ok (), s2) \<and>
         call_fails (vm_transfer vm (ep_settlementToken plan) caller (last outs - ep_fundingAmount plan)) s2 r)))"

section \<open>No check of the contract stops a plan that is covered\<close>

fun v2_chain :: "address \<Rightarrow> RouteStep list \<Rightarrow> bool" where
  "v2_chain token [] = True"
| "v2_chain token (step # steps) \<longleftrightarrow>
    sv_venueKind step = Kind_UniswapV2 \<and> sv_tokenIn step = token \<and> v2_chain (sv_tokenOut step) steps"

text \<open>The steps chain from the settlement token back to it, and the minimum of the last one covers the
  settlement.\<close>

definition covered :: "ExecutionPlan \<Rightarrow> bool" where
  "covered plan \<longleftrightarrow> v2_chain (ep_settlementToken plan) (ep_steps plan) \<and> ep_steps plan \<noteq> [] \<and>
    sv_tokenOut (last (ep_steps plan)) = ep_settlementToken plan \<and> ep_fundingAmount plan = ep_minRepayAmount plan \<and>
    unat (ep_minRepayAmount plan) + unat (ep_minSurplus plan) \<le> unat (sv_minAmountOut (last (ep_steps plan)))"

lemma step_outcome:
  assumes "sv_venueKind step = Kind_UniswapV2" "executeStep vm step a d s = (v, s')"
  shows "(\<exists>out. v = Ok out \<and> swap_made vm d step a s out s' \<and>
      (out < sv_minAmountOut step \<longrightarrow> step_refused vm d i step a s (Err (InsufficientStepOutput i out (sv_minAmountOut step))))) \<or>
    \<not> is_ok v \<and> step_refused vm d i step a s (failure v)"
proof -
  from assms have "swapUniswapV2 vm step a d s = (v, s')" by (simp add: executeStep_def)
  then show ?thesis
    unfolding swapUniswapV2_def
  proof (cases rule: bind_outcome)
    case (goes_on u s1)
    from goes_on(2) show ?thesis
    proof (cases rule: bind_outcome)
      case (goes_on amounts s2)
      with \<open>vm_approve vm _ _ _ s = _\<close> assms(1) show ?thesis
        by (cases "amounts = []")
          (auto simp: last_amount_def checked_def lift_def step_refused_def swap_made_def Let_def)
    qed (use goes_on(1) in \<open>auto simp: step_refused_def Let_def\<close>)
  qed (auto simp: step_refused_def)
qed

lemma route_outcome:
  assumes "v2_chain token steps" "route_loop vm d i a token steps s = (v, s')"
  shows "is_ok v \<or> (\<exists>pre step rest outs s1. steps = pre @ step # rest \<and> legs_made vm d token a pre outs s s1 \<and>
    step_refused vm d (i + length pre) step (last (a # outs)) s1 (failure v))"
  using assms
proof (induction steps arbitrary: i a token s)
  case Nil
  then show ?case by (auto simp: ret_def)
next
  case (Cons step steps)
  obtain v1 s1 where one: "executeStep vm step a d s = (v1, s1)" by fastforce
  have first: "\<exists>pre step' rest outs s1. step # steps = pre @ step' # rest \<and> legs_made vm d token a pre outs s s1 \<and>
      step_refused vm d (i + length pre) step' (last (a # outs)) s1 r" if "step_refused vm d i step a s r" for r
    using that by (intro exI[of _ "[]"] exI[of _ step] exI[of _ steps] exI[of _ "[]"] exI[of _ s]) simp
  have run: "act_bind (executeStep vm step a d) (\<lambda>out. act_bind (require (sv_minAmountOut step \<le> out)
      (InsufficientStepOutput i out (sv_minAmountOut step))) (\<lambda>_. route_loop vm d (i + 1) out (sv_tokenOut step) steps)) s = (v, s')"
    using Cons.prems by (simp add: require_def ensure_def)
  from step_outcome[OF _ one, of i] Cons.prems(1)
  consider out where "v1 = Ok out" "swap_made vm d step a s out s1" "sv_minAmountOut step \<le> out"
    | out where "v1 = Ok out" "\<not> sv_minAmountOut step \<le> out"
        "step_refused vm d i step a s (Err (InsufficientStepOutput i out (sv_minAmountOut step)))"
    | "\<not> is_ok v1" "step_refused vm d i step a s (failure v1)" by fastforce
  then show ?case
  proof cases
    case (1 out)
    with run one have "route_loop vm d (i + 1) out (sv_tokenOut step) steps s1 = (v, s')"
      by (simp add: require_def ensure_def)
    from Cons.IH[OF _ this] Cons.prems(1) consider "is_ok v"
      | pre step' rest outs s2 where "steps = pre @ step' # rest" "legs_made vm d (sv_tokenOut step) out pre outs s1 s2"
        "step_refused vm d (i + 1 + length pre) step' (last (out # outs)) s2 (failure v)" by auto
    then show ?thesis
    proof cases
      case (2 pre step' rest outs s2)
      with 1 Cons.prems(1) show ?thesis
        by (intro disjI2 exI[of _ "step # pre"] exI[of _ step'] exI[of _ rest] exI[of _ "out # outs"] exI[of _ s2]) auto
    qed simp
  next
    case (2 out)
    with run one have "failure v = Err (InsufficientStepOutput i out (sv_minAmountOut step))"
      by (auto simp: require_def ensure_def)
    with first[OF 2(3)] show ?thesis by simp
  next
    case 3
    with run one have "failure v = failure v1" by (cases v1) auto
    with first[OF 3(2)] show ?thesis by simp
  qed
qed

lemma legs_last_minimum:
  "legs_made vm d token a steps outs s s' \<Longrightarrow> steps \<noteq> [] \<Longrightarrow> sv_minAmountOut (last steps) \<le> last outs"
proof (induction vm d token a steps outs s s' rule: legs_made.induct)
  case (2 vm d token a step steps out outs s s')
  show ?case
  proof (cases "steps = []")
    case True
    with 2(2) show ?thesis by (cases outs) auto
  next
    case False
    with 2(2) have "outs \<noteq> []" by (cases outs; cases steps) auto
    with 2 False show ?thesis by auto
  qed
qed auto

lemma runRoute_outcome:
  assumes "covered plan" "runRoute vm plan (ep_fundingAmount plan) s = (v, s')"
  shows "(\<exists>outs. v = Ok (last outs) \<and>
      legs_made vm (ep_deadline plan) (ep_settlementToken plan) (ep_fundingAmount plan) (ep_steps plan) outs s s' \<and>
      sv_minAmountOut (last (ep_steps plan)) \<le> last outs) \<or>
    \<not> is_ok v \<and> route_refused vm plan s (failure v)"
proof -
  note c = assms(1)[unfolded covered_def]
  obtain v1 s1 where loop: "route_loop vm (ep_deadline plan) 0 (ep_fundingAmount plan) (ep_settlementToken plan) (ep_steps plan) s = (v1, s1)"
    by fastforce
  have run: "act_bind (route_loop vm (ep_deadline plan) 0 (ep_fundingAmount plan) (ep_settlementToken plan) (ep_steps plan))
      (\<lambda>(b, token). act_bind (require (token = ep_settlementToken plan)
        (InvalidRouteToken (length (ep_steps plan)) (ep_settlementToken plan) token)) (\<lambda>_. ret b)) s = (v, s')"
    using assms(2) c by (simp add: runRoute_def require_def ensure_def)
  have stopped: "is_ok v1 \<or> route_refused vm plan s (failure v1)"
    using route_outcome[OF conjunct1[OF c] loop] unfolding route_refused_def by (simp del: last.simps)
  show ?thesis
  proof (cases v1)
    case (Ok bt)
    obtain b token' where bt: "bt = (b, token')" by (cases bt)
    from route_loop_legs[OF loop[unfolded Ok bt]] c have "token' = ep_settlementToken plan" by (auto simp: last_map)
    with run loop Ok bt have ok: "runRoute vm plan (ep_fundingAmount plan) s = (Ok b, s')" "v = Ok b"
      using assms(2) by (auto simp: require_def ensure_def ret_def)
    from runRoute_sound[OF ok(1)] ok(2) legs_last_minimum show ?thesis by blast
  next
    case (Err e)
    with run loop have "v = Err e" by simp
    with Err stopped show ?thesis by simp
  next
    case Panic
    with run loop have "v = Panic" by simp
    with Panic stopped show ?thesis by simp
  qed
qed

lemma check_settlement_completes:
  assumes "unat (ep_minRepayAmount plan) + unat (ep_minSurplus plan) \<le> unat b"
  shows "check_settlement plan b s = (Ok (), s)" "checked_sub b (ep_minRepayAmount plan) = Some (b - ep_minRepayAmount plan)"
proof -
  have fits: "unat (ep_minRepayAmount plan) + unat (ep_minSurplus plan) < 2 ^ LENGTH(256)"
    using assms unat_lt_width[of b] by simp
  then obtain m where "checked_add (ep_minRepayAmount plan) (ep_minSurplus plan) = Some m"
    by (simp add: checked_add_def)
  with assms show "check_settlement plan b s = (Ok (), s)"
    by (auto simp: check_settlement_def act_bind_eq_Ok checked_Ok require_Ok checked_add_eq_Some word_le_nat_alt)
qed (use assms in \<open>simp add: checked_sub_def word_le_nat_alt\<close>)

lemma executePlan_outcome:
  assumes "covered plan" "ro_executors s sender \<or> sender = vm_owner vm (ro_base s)" "\<not> vm_paused vm (ro_base s)"
    and "vm_enter vm (ro_base s) = Some g" "ro_fingerprint s = 0" "vm_timestamp vm \<le> ep_deadline plan"
    and "executePlan vm sender plan s = (v, s')"
  shows "(\<exists>b. v = Ok b \<and> sv_minAmountOut (last (ep_steps plan)) \<le> b) \<or>
    \<not> is_ok v \<and> plan_refused vm sender plan (s\<lparr>ro_base := g\<rparr>) (failure v)"
proof -
  let ?s = "s\<lparr>ro_base := g\<rparr>" and ?fund = "vm_transfer_from vm (ep_settlementToken plan) sender (vm_self vm) (ep_fundingAmount plan)"
  let ?body = "act_bind ?fund (\<lambda>_. act_bind (runRoute vm plan (ep_fundingAmount plan)) (\<lambda>b.
    act_bind (check_settlement plan b) (\<lambda>_. act_bind (vm_transfer vm (ep_settlementToken plan) sender b) (\<lambda>_.
    act_bind (checked (checked_sub b (ep_minRepayAmount plan))) (\<lambda>surplus.
    act_bind (emit (PlanExecuted sender (ep_settlementToken plan) (ep_fundingAmount plan) b surplus False (ep_riskHash plan))) (\<lambda>_.
    ret b))))))"
  obtain v0 s0 where body: "?body ?s = (v0, s0)" by fastforce
  have v: "v = v0"
    using assms(2-7) body by (cases v0)
      (simp_all add: executePlan_def nonReentrant_def onlyExecutor_def whenNotPaused_def require_def ensure_def base_update_def
        checkDeadline_def check_no_loan_def act_bind_def lift_def ret_def)
  show ?thesis
    using body
  proof (cases rule: bind_outcome)
    case fails
    then show ?thesis by (auto simp: plan_refused_def v)
  next
    case (goes_on u s1)
    then have fund: "?fund ?s = (Ok (), s1)" by simp
    obtain w s2 where route: "runRoute vm plan (ep_fundingAmount plan) s1 = (w, s2)" by fastforce
    from runRoute_outcome[OF assms(1) route] show ?thesis
    proof (elim disjE exE conjE)
      fix outs assume outs: "w = Ok (last outs)" "sv_minAmountOut (last (ep_steps plan)) \<le> last outs"
        "legs_made vm (ep_deadline plan) (ep_settlementToken plan) (ep_fundingAmount plan) (ep_steps plan) outs s1 s2"
      from outs(2) assms(1) have enough: "unat (ep_minRepayAmount plan) + unat (ep_minSurplus plan) \<le> unat (last outs)"
        by (auto simp: covered_def word_le_nat_alt)
      note ok = check_settlement_completes[OF enough]
      have settled: "act_bind (check_settlement plan (last outs)) k t = k () t" for k t
        using ok(1)[of t] by simp
      obtain x s3 where pay: "vm_transfer vm (ep_settlementToken plan) sender (last outs) s2 = (x, s3)" by fastforce
      have rest: "v0 = attempt x (\<lambda>_. Ok (last outs))"
        using goes_on(2) route outs(1) pay
        by (cases x) (simp_all add: settled ok(2) checked_def emit_def act_modify_def act_bind_def[of "\<lambda>w. (_ w, _ w)"] ret_def)
      show ?thesis
      proof (cases "is_ok x")
        case True
        with rest v outs(2) show ?thesis by (cases x) auto
      next
        case False
        with rest v have "call_fails (vm_transfer vm (ep_settlementToken plan) sender (last outs)) s2 (failure v)" "\<not> is_ok v"
          using pay by (cases x; auto simp: call_fails_def)+
        with fund outs(3) show ?thesis by (auto simp: plan_refused_def)
      qed
    next
      assume "\<not> is_ok w" and r: "route_refused vm plan s1 (failure w)"
      with goes_on(2) route have "failure v0 = failure w" "\<not> is_ok v0" by (cases w; auto)+
      with r fund show ?thesis by (auto simp: plan_refused_def v)
    qed
  qed
qed

lemma settle_loan_outcome:
  assumes "covered plan" "settle_loan vm caller plan s = (v, s')"
  shows "(\<exists>b surplus. v = Ok () \<and> sv_minAmountOut (last (ep_steps plan)) \<le> b \<and> unat b = unat (ep_fundingAmount plan) + unat surplus \<and>
      last (ro_events s') = PlanExecuted caller (ep_settlementToken plan) (ep_fundingAmount plan) b surplus True (ep_riskHash plan)) \<or>
    \<not> is_ok v \<and> loan_refused vm caller plan s (failure v)"
proof -
  obtain w s1 where route: "runRoute vm plan (ep_fundingAmount plan) s = (w, s1)" by fastforce
  from runRoute_outcome[OF assms(1) route] show ?thesis
  proof (elim disjE exE conjE)
    fix outs assume outs: "w = Ok (last outs)" "sv_minAmountOut (last (ep_steps plan)) \<le> last outs"
      "legs_made vm (ep_deadline plan) (ep_settlementToken plan) (ep_fundingAmount plan) (ep_steps plan) outs s s1"
    let ?repay = "vm_transfer vm (ep_settlementToken plan) (vm_vault vm) (ep_fundingAmount plan)"
    let ?surplus = "last outs - ep_fundingAmount plan"
    let ?pay = "vm_transfer vm (ep_settlementToken plan) caller ?surplus"
    from outs(2) assms(1) have enough: "unat (ep_minRepayAmount plan) + unat (ep_minSurplus plan) \<le> unat (last outs)"
      and same: "ep_minRepayAmount plan = ep_fundingAmount plan"
      by (auto simp: covered_def word_le_nat_alt)
    note ok = check_settlement_completes[OF enough, unfolded same]
    have diff: "unat (last outs) = unat (ep_fundingAmount plan) + unat ?surplus"
      using ok(2) by (simp add: checked_sub_eq_Some)
    have settled: "act_bind (check_settlement plan (last outs)) k t = k () t" for k t
      using ok(1)[of t] by simp
    have run: "act_bind ?repay (\<lambda>_. act_bind (if ?surplus > 0 then ?pay else ret ()) (\<lambda>_.
        emit (PlanExecuted caller (ep_settlementToken plan) (ep_fundingAmount plan) (last outs) ?surplus True (ep_riskHash plan)))) s1 = (v, s')"
      using assms(2) route outs(1) by (simp add: settle_loan_def settled ok(2) checked_def bind_lift split del: if_split)
    then show ?thesis
    proof (cases rule: bind_outcome)
      case fails
      with outs(3) show ?thesis by (auto simp: loan_refused_def Let_def)
    next
      case (goes_on u s2)
      from goes_on(2) show ?thesis
      proof (cases rule: bind_outcome)
        case (goes_on u' s3)
        with diff outs(2) show ?thesis by (auto simp: emit_def act_modify_def)
      next
        case fails
        then have "call_fails ?pay s2 (failure v)" by (auto simp: call_fails_def ret_def split: if_splits)
        with fails(2) goes_on(1) outs(3) show ?thesis by (auto simp: loan_refused_def Let_def)
      qed
    qed
  next
    assume "\<not> is_ok w" and r: "route_refused vm plan s (failure w)"
    with assms(2) route have "failure v = failure w" "\<not> is_ok v" by (cases w; auto simp: settle_loan_def)+
    with r show ?thesis by (auto simp: loan_refused_def)
  qed
qed

lemma receive_outcome:
  assumes "covered plan" "ro_fingerprint s \<noteq> 0" "vm_keccak vm data = ro_fingerprint s" "vm_decode vm data = Some (caller, plan)"
  shows "receiveFlashLoan vm (vm_vault vm) [ep_settlementToken plan] [ep_fundingAmount plan] [0] data s =
    settle_loan vm caller plan (s\<lparr>ro_fingerprint := 0\<rparr>)"
  using assms(2-4)
  by (simp add: receiveFlashLoan_def require_def ensure_def set_fingerprint_def act_bind_def act_modify_def lift_def)

section \<open>From the engine to the chain\<close>

text \<open>What the risk engine accepts leaves at least its own minimum as profit.\<close>

lemma accepted_surplus:
  assumes "detect_two_leg_loop input = Ok (Some opp)" "simulate_two_leg_opportunity opp cfg = Some sim"
    and "assess sha policy fe clock opp sim st = (d, st')" "rd_accepted d"
  shows "unat (rd_min_surplus d) \<le> unat (op_expected_net_profit opp)"
proof -
  have "pol_min_net_profit_wei policy \<le> sim_expected_net_profit sim \<and> rd_min_surplus d = pol_min_net_profit_wei policy"
    using assms(3)
  proof (cases rule: assess_cases)
    case accepted
    then show ?thesis using assess_surplus[OF assms(3)] by (simp add: stateless_reject_def split: if_splits)
  qed (use assms(4) in simp)
  moreover have "unat (sim_expected_net_profit sim) \<le> unat (op_expected_net_profit opp)"
    using assms(1)
  proof (cases rule: detect_SomeE)
    case (1 q1 q2)
    then show ?thesis using simulate_SomeD[OF assms(2)] by auto
  qed
  ultimately show ?thesis by (auto simp: word_le_nat_alt)
qed

lemma loop_plan_covered:
  assumes "detect_two_leg_loop input = Ok (Some opp)" "simulate_two_leg_opportunity opp cfg = Some sim"
    and "assess sha policy fe clock opp sim st = (d, st')" "build_execution_request opp d = Some rq"
    and "build_plan al config rq now = Ok (router, p)"
  obtains plan where "received_plan p = Some plan" "covered plan"
    "unat (op_input_amount opp) + unat (op_expected_net_profit opp) = unat (sv_minAmountOut (last (ep_steps plan)))"
    "unat (ep_deadline plan) = unat now + unat (ex_plan_deadline_secs config)"
    "unat (ep_fundingAmount plan) = unat (op_input_amount opp)"
  using assms(1,4,5)
proof (cases rule: loop_plan)
  case (1 plan t1 t2)
  have "rd_accepted d" "rq_min_repay rq = op_input_amount opp"
    using assms(4) by (auto simp: build_execution_request_def split: if_splits bind_splits)
  then have "unat (ep_minRepayAmount plan) = unat (op_input_amount opp)"
    using build_plan_sound(3)[OF assms(5)] 1(1) by (auto simp: received_plan_def)
  with 1 accepted_surplus[OF assms(1-3) \<open>rd_accepted d\<close>] show thesis
    by (intro that[of plan]) (auto simp: covered_def)
qed

lemma is_ok_fst: "is_ok (fst r) \<longleftrightarrow> (\<exists>x s. r = (Ok x, s))"
  by (cases r; cases "fst r") auto

text \<open>C13: the contract's own checks accept what the engine accepts.  Take any loop the detector finds, the
  simulator prices and the risk engine accepts, and the plan built from it; let the contract be
  idle and running, the caller be allowed to use it and the deadline not have passed.  Nothing is
  assumed of the tokens and the venues.  If the plan fails, then in one of their calls: the funding
  could not be taken, or after some steps were made as planned the next venue could not be
  approved, refused the swap or reported less than the minimum of its step, or the proceeds could
  not be paid out, and the failure is the one of that call; no check of the contract on the shape
  of the plan, its tokens, its deadline or its settlement ever fires.  Otherwise the plan returns at
  least the input and the detected profit.  The same holds inside the loan callback, whose
  surplus is then at least the detected profit.\<close>

theorem engine_plan_accepted:
  assumes "detect_two_leg_loop input = Ok (Some opp)" "simulate_two_leg_opportunity opp cfg = Some sim"
    and "assess sha policy fe clock opp sim st = (d, st')" "build_execution_request opp d = Some rq"
    and "build_plan al config rq now = Ok (router, p)"
    and "ro_executors s sender \<or> sender = vm_owner vm (ro_base s)" "\<not> vm_paused vm (ro_base s)"
    and "vm_enter vm (ro_base s) = Some g" "ro_fingerprint s = 0"
    and "unat (vm_timestamp vm) \<le> unat now + unat (ex_plan_deadline_secs config)"
  shows "\<exists>plan. received_plan p = Some plan \<and>
    (\<forall>v s'. executePlan vm sender plan s = (v, s') \<longrightarrow>
      (\<exists>amountOut. v = Ok amountOut \<and> unat (op_input_amount opp) + unat (op_expected_net_profit opp) \<le> unat amountOut) \<or>
      \<not> is_ok v \<and> plan_refused vm sender plan (s\<lparr>ro_base := g\<rparr>) (failure v)) \<and>
    (\<forall>caller data s v s'. ro_fingerprint s \<noteq> 0 \<and> vm_keccak vm data = ro_fingerprint s \<and> vm_decode vm data = Some (caller, plan) \<and>
        receiveFlashLoan vm (vm_vault vm) [ep_settlementToken plan] [ep_fundingAmount plan] [0] data s = (v, s') \<longrightarrow>
      (\<exists>amountOut surplus. v = Ok () \<and> unat (op_expected_net_profit opp) \<le> unat surplus \<and>
        last (ro_events s') = PlanExecuted caller (ep_settlementToken plan) (ep_fundingAmount plan) amountOut surplus True
          (ep_riskHash plan)) \<or>
      \<not> is_ok v \<and> loan_refused vm caller plan (s\<lparr>ro_fingerprint := 0\<rparr>) (failure v))"
  using assms(1-5)
proof (cases rule: loop_plan_covered)
  case (1 plan)
  have "vm_timestamp vm \<le> ep_deadline plan" using 1(4) assms(10) by (simp add: word_le_nat_alt)
  from executePlan_outcome[OF 1(2) assms(6-9) this] 1(3)
  have self: "(\<exists>amountOut. v = Ok amountOut \<and> unat (op_input_amount opp) + unat (op_expected_net_profit opp) \<le> unat amountOut) \<or>
      \<not> is_ok v \<and> plan_refused vm sender plan (s\<lparr>ro_base := g\<rparr>) (failure v)"
    if "executePlan vm sender plan s = (v, s')" for v s' using that by (auto simp: word_le_nat_alt)
  have loan: "(\<exists>amountOut surplus. v = Ok () \<and> unat (op_expected_net_profit opp) \<le> unat surplus \<and>
        last (ro_events s') = PlanExecuted caller (ep_settlementToken plan) (ep_fundingAmount plan) amountOut surplus True
          (ep_riskHash plan)) \<or>
      \<not> is_ok v \<and> loan_refused vm caller plan (s\<lparr>ro_fingerprint := 0\<rparr>) (failure v)"
    if "ro_fingerprint s \<noteq> 0" "vm_keccak vm data = ro_fingerprint s" "vm_decode vm data = Some (caller, plan)"
      "receiveFlashLoan vm (vm_vault vm) [ep_settlementToken plan] [ep_fundingAmount plan] [0] data s = (v, s')"
    for caller data s v s'
  proof -
    from that(4) have "settle_loan vm caller plan (s\<lparr>ro_fingerprint := 0\<rparr>) = (v, s')"
      by (simp only: receive_outcome[OF 1(2) that(1-3)])
    from settle_loan_outcome[OF 1(2) this] 1(3,5) show ?thesis by (fastforce simp: word_le_nat_alt)
  qed
  from 1(1) self loan show ?thesis by (intro exI[of _ plan]) blast
qed

text \<open>C14: the plan of a loop is addressed to the pools.  Both steps of the plan built from a detected
  loop ask the contract to call the pools of the loop themselves as swap routers, the first step
  the first pool and the second step the second; when either pool refuses that call, as a pair
  contract does, the plan cannot complete, neither self-funded nor in the loan callback.\<close>

theorem loop_plan_calls_pool:
  assumes "detect_two_leg_loop input = Ok (Some opp)" "build_execution_request opp d = Some rq"
    and "build_plan al config rq now = Ok (router, p)"
    and "al_address al (v2_address (tl_first_pool input)) = Some pool1"
    and "al_address al (v2_address (tl_second_pool input)) = Some pool2"
    and "pool \<in> {pool1, pool2}" "\<And>n m path b d s. \<not> is_ok (fst (vm_swap_v2 vm (of_bytes pool) n m path b d s))"
  shows "\<exists>plan. received_plan p = Some plan \<and> map sv_target (ep_steps plan) = [of_bytes pool1, of_bytes pool2] \<and>
    map sv_venueKind (ep_steps plan) = [Kind_UniswapV2, Kind_UniswapV2] \<and>
    \<not> is_ok (fst (executePlan vm sender plan s)) \<and> \<not> is_ok (fst (settle_loan vm caller plan s))"
  using assms(1-3)
proof (cases rule: loop_plan)
  case (1 plan t1 t2)
  have t: "sv_target t1 = of_bytes pool1" "sv_target t2 = of_bytes pool2" using 1(8,9) assms(4,5) by auto
  have "executeStep vm t a e w \<noteq> (Ok x, w')" if "sv_target t = of_bytes pool" "sv_venueKind t = Kind_UniswapV2" for t a e w x w'
    using assms(7) that by (auto simp: executeStep_def swapUniswapV2_def act_bind_eq_Ok is_ok_fst)
  then have "(\<forall>a e w x w'. executeStep vm t1 a e w \<noteq> (Ok x, w')) \<or> (\<forall>a e w x w'. executeStep vm t2 a e w \<noteq> (Ok x, w'))"
    using assms(6) t 1(3,4) by blast
  then have route: "runRoute vm plan a w \<noteq> (Ok x, w')" for a w x w'
    by (auto simp: runRoute_def 1(2) act_bind_eq_Ok)
  have "executePlan vm sender plan s \<noteq> (Ok x, w')" for x w'
    by (simp add: executePlan_def act_bind_eq_Ok nonReentrant_Ok route)
  moreover have "settle_loan vm caller plan s \<noteq> (Ok (), w')" for w'
    by (simp add: settle_loan_def act_bind_eq_Ok route)
  ultimately show ?thesis using 1(1-4) t
    by (intro exI[of _ plan]) (auto simp: is_ok_fst)
qed

section \<open>A loop that goes through\<close>

abbreviation live_input :: TwoLegLoopInput where
  "live_input \<equiv> loop_input (Block_At 7 None) ''0xAA'' 10000 (Some ''0xt1'') (synced_v2, sample_v2b)"

abbreviation live_config :: ExecutionConfig where
  "live_config \<equiv> sample_exec_config\<lparr>ex_mode := Live\<rparr>"

lemma live_plan: "\<exists>router p. build_plan sample_alloy live_config live_request 100 = Ok (router, p)"
  using live_payload[of 100]
  by (auto simp: build_submission_payload_def current_unix_timestamp_def build_submission_payload_at_def res_simps)

text \<open>A chain on which every call goes through and a swap pays its minimum, and whose loan data is the
  given plan.\<close>

definition paying_evm :: "RouterExecutionPlan \<Rightarrow> (bool, holdings) evm" where
  "paying_evm p = plain_evm\<lparr>vm_swap_v2 := (\<lambda>v n m path b d s. (Ok [n, m], s)),
    vm_decode := (\<lambda>_. Some (3, the (received_plan p)))\<rparr>"

lemma paying_refuses_nothing:
  "\<not> plan_refused (paying_evm p) sender plan s r" "\<not> loan_refused (paying_evm p) caller plan s r"
  by (auto simp: plan_refused_def loan_refused_def route_refused_def step_refused_def call_fails_def paying_evm_def
      plain_evm_def Let_def)

theorem engine_plan_accepted_witness:
  "\<exists>router p plan out s' s''. build_plan sample_alloy live_config live_request 100 = Ok (router, p) \<and>
    received_plan p = Some plan \<and> executePlan (paying_evm p) 3 plan sample_router = (Ok out, s') \<and> 16730 \<le> unat out \<and>
    receiveFlashLoan (paying_evm p) 2 [ep_settlementToken plan] [ep_fundingAmount plan] [0] [1]
      (sample_router\<lparr>ro_fingerprint := 7\<rparr>) = (Ok (), s'')"
proof -
  obtain st' where accepted:
    "assess (\<lambda>s. s) sample_policy (\<lambda>_. False) 1000 live_opp live_sim risk_state_default = (live_decision, st')"
    using live_accepted by blast
  obtain router p where plan: "build_plan sample_alloy live_config live_request 100 = Ok (router, p)"
    using live_plan by blast
  let ?vm = "paying_evm p" and ?loan = "sample_router\<lparr>ro_fingerprint := 7\<rparr>"
  have idle: "ro_executors sample_router 3 \<or> 3 = vm_owner ?vm (ro_base sample_router)"
    "\<not> vm_paused ?vm (ro_base sample_router)" "vm_enter ?vm (ro_base sample_router) = Some True"
    "ro_fingerprint sample_router = 0"
    "unat (vm_timestamp ?vm) \<le> unat (100 :: u64) + unat (ex_plan_deadline_secs live_config)"
    and vm: "vm_vault ?vm = 2" "vm_keccak ?vm [1] = ro_fingerprint ?loan"
    "ro_fingerprint ?loan \<noteq> 0" "vm_decode ?vm [1] = Some (3, the (received_plan p))"
    by (simp_all add: sample_router_def paying_evm_def plain_evm_def)
  from engine_plan_accepted[OF live_detect(1) live_sim_eq(1) accepted live_request_eq(1) plan idle]
  obtain plan' where r: "received_plan p = Some plan'"
    and self: "\<forall>v s'. executePlan ?vm 3 plan' sample_router = (v, s') \<longrightarrow>
      (\<exists>out. v = Ok out \<and> unat (op_input_amount live_opp) + unat (op_expected_net_profit live_opp) \<le> unat out)"
    and loan: "\<forall>caller data s v s'. ro_fingerprint s \<noteq> 0 \<and> vm_keccak ?vm data = ro_fingerprint s \<and>
      vm_decode ?vm data = Some (caller, plan') \<and>
      receiveFlashLoan ?vm (vm_vault ?vm) [ep_settlementToken plan'] [ep_fundingAmount plan'] [0] data s = (v, s') \<longrightarrow> v = Ok ()"
    using paying_refuses_nothing by (elim exE conjE) (rule that; blast)
  have live: "op_input_amount live_opp = 10000" "op_expected_net_profit live_opp = 6730" by (simp_all add: live_opp_def)
  obtain v s' where run: "executePlan ?vm 3 plan' sample_router = (v, s')" by fastforce
  obtain v' s'' where callback:
    "receiveFlashLoan ?vm 2 [ep_settlementToken plan'] [ep_fundingAmount plan'] [0] [1] ?loan = (v', s'')" by fastforce
  from self[rule_format, OF run] run obtain out where "executePlan ?vm 3 plan' sample_router = (Ok out, s')" "16730 \<le> unat out"
    by (auto simp: live)
  moreover have "v' = Ok ()"
    by (rule loan[rule_format, of ?loan "[1]" 3 v' s'']) (use vm r callback in simp)
  ultimately show ?thesis using plan r callback by blast
qed

definition pair_evm :: "(bool, holdings) evm" where
  "pair_evm = plain_evm\<lparr>vm_swap_v2 := (\<lambda>v n m path b d s. (Err (Callee_Revert []), s))\<rparr>"

theorem loop_plan_calls_pool_witness:
  "\<exists>router p plan. build_plan sample_alloy live_config live_request 100 = Ok (router, p) \<and> received_plan p = Some plan \<and>
    map sv_target (ep_steps plan) = [of_bytes (replicate 20 6), of_bytes (replicate 20 7)] \<and>
    \<not> is_ok (fst (executePlan pair_evm 3 plan sample_router))"
proof -
  obtain router p where plan: "build_plan sample_alloy live_config live_request 100 = Ok (router, p)"
    using live_plan by blast
  have pools: "al_address sample_alloy (v2_address (tl_first_pool live_input)) = Some (replicate 20 6)"
    "al_address sample_alloy (v2_address (tl_second_pool live_input)) = Some (replicate 20 7)"
    by (simp_all add: sample_alloy_def loop_input_def synced_v2_def sample_v2_def sample_v2b_def)
  have "\<And>n m path b d s. \<not> is_ok (fst (vm_swap_v2 pair_evm (of_bytes (replicate 20 6)) n m path b d s))"
    by (simp add: pair_evm_def)
  from loop_plan_calls_pool[OF live_detect(1) live_request_eq(1) plan pools insertI1 this, of 3 sample_router 3] plan
  show ?thesis by (elim exE conjE) (intro exI conjI; assumption)
qed

end
