(* ===== verification/Discovery.thy ===== *)
theory Discovery
  imports App
begin

text \<open>
  Pool discovery (\<open>src/crates/discovery/src\<close>) and the start-up pass that runs it
  (\<open>run_pool_discovery\<close> of \<open>src/crates/app/src/main.rs\<close>): the scan of a factory's creation
  events in chunks, the hydration of the pools through one aggregated call, and their
  insertion into the pool book.  The node is a parameter (\<open>chain\<close>), as are the generated
  decoders of events and return values (\<open>sol\<close>).
\<close>

section \<open>Factories\<close>

datatype FactoryKind = Factory_UniswapV2 | Factory_UniswapV3

record FactoryConfig =
  fa_address :: string
  fa_kind :: FactoryKind
  fa_protocol :: Protocol
  fa_exchange :: "Exchange option"
  fa_deployment_block :: u64
  fa_default_v2_fee_bps :: "u32 option"
  fa_log_chunk_size :: "u64 option"

definition factory_validate :: "FactoryConfig \<Rightarrow> (string, unit) res" where
  "factory_validate f =
    attempt (ensure (trim (fa_address f) \<noteq> []) ''factory address must not be empty'') (\<lambda>_.
    ensure (\<not> (fa_kind f = Factory_UniswapV2 \<and> fa_default_v2_fee_bps f = None)) ''v2 factory requires default_v2_fee_bps'')"

definition log_chunk_size_or_default :: "FactoryConfig \<Rightarrow> u64" where
  "log_chunk_size_or_default f = max (case fa_log_chunk_size f of Some n \<Rightarrow> n | None \<Rightarrow> 5000) 1"

definition uniswap_v2 :: FactoryConfig where
  "uniswap_v2 =
    \<lparr>fa_address = ''0x8909Dc15e40173Ff4699343b6eB8132c65e18eC6'', fa_kind = Factory_UniswapV2,
     fa_protocol = UniswapV2, fa_exchange = None, fa_deployment_block = 6601915,
     fa_default_v2_fee_bps = Some 30, fa_log_chunk_size = None\<rparr>"

definition uniswap_v3 :: FactoryConfig where
  "uniswap_v3 =
    \<lparr>fa_address = ''0x33128a8fC17869897dcE68Ed026d694621f6FDfD'', fa_kind = Factory_UniswapV3,
     fa_protocol = UniswapV3, fa_exchange = None, fa_deployment_block = 1371680,
     fa_default_v2_fee_bps = None, fa_log_chunk_size = None\<rparr>"

definition aerodrome_v2 :: FactoryConfig where
  "aerodrome_v2 =
    \<lparr>fa_address = ''0x420DD381b31aEf6683db6B902084cB0FFECe40Da'', fa_kind = Factory_UniswapV2,
     fa_protocol = Protocol_Aerodrome, fa_exchange = Some Exchange_Aerodrome, fa_deployment_block = 3200559,
     fa_default_v2_fee_bps = Some 30, fa_log_chunk_size = None\<rparr>"

section \<open>The reader\<close>

record DiscoveredV2Pool =
  d2_address :: string
  d2_token0 :: string
  d2_token1 :: string
  d2_reserve0 :: u128
  d2_reserve1 :: u128
  d2_fee_bps :: u32

record DiscoveredV3Pool =
  d3_address :: string
  d3_token0 :: string
  d3_token1 :: string
  d3_fee_pips :: u32
  d3_tick_spacing :: i32
  d3_sqrt_price_x96 :: U256
  d3_tick :: i32
  d3_liquidity :: u128

record 'w FactoryReader =
  rd_latest_block :: "('w, string, u64) act"
  rd_fetch_v2 :: "FactoryConfig \<Rightarrow> u64 \<Rightarrow> u64 \<Rightarrow> ('w, string, DiscoveredV2Pool list) act"
  rd_fetch_v3 :: "FactoryConfig \<Rightarrow> u64 \<Rightarrow> u64 \<Rightarrow> ('w, string, DiscoveredV3Pool list) act"
  rd_hydrate_v2 :: "bytes \<Rightarrow> DiscoveredV2Pool list \<Rightarrow> ('w, string, DiscoveredV2Pool list) act"
  rd_hydrate_v3 :: "bytes \<Rightarrow> DiscoveredV3Pool list \<Rightarrow> ('w, string, DiscoveredV3Pool list) act"

text \<open>The node, and the generated ABI code.\<close>

record RpcLog =
  rl_address :: bytes
  rl_topics :: "bytes list"
  rl_data :: bytes

record 'w chain =
  ch_block_number :: "('w, string, u64) act"
  ch_get_logs :: "bytes \<Rightarrow> bytes \<Rightarrow> u64 \<Rightarrow> u64 \<Rightarrow> ('w, string, RpcLog list) act"
  ch_call :: "bytes \<Rightarrow> bytes \<Rightarrow> ('w, string, bytes) act"

record Call3 =
  c3_target :: bytes
  c3_allow_failure :: bool
  c3_call_data :: bytes

record PairCreated =
  pc_token0 :: bytes
  pc_token1 :: bytes
  pc_pair :: bytes

record PoolCreated =
  ev_token0 :: bytes
  ev_token1 :: bytes
  ev_fee :: "24 word"
  ev_tick_spacing :: "24 word"
  ev_pool :: bytes

record sol =
  so_pair_created_topic :: bytes
  so_pool_created_topic :: bytes
  so_pair_created :: "RpcLog \<Rightarrow> PairCreated option"
  so_pool_created :: "RpcLog \<Rightarrow> PoolCreated option"
  so_get_reserves :: bytes
  so_slot0 :: bytes
  so_liquidity :: bytes
  so_reserves_returns :: "bytes \<Rightarrow> (112 word \<times> 112 word) option"
  so_slot0_returns :: "bytes \<Rightarrow> (160 word \<times> 24 word) option"
  so_liquidity_returns :: "bytes \<Rightarrow> u128 option"
  so_aggregate3 :: "Call3 list \<Rightarrow> bytes"
  so_aggregate3_returns :: "bytes \<Rightarrow> (bool \<times> bytes) list option"

text \<open>\<open>AlloyFactoryReader\<close> holds the provider; the parsers of the address type are in \<open>alloy\<close>.\<close>

record 'w AlloyFactoryReader =
  af_chain :: "'w chain"
  af_sol :: sol
  af_alloy :: alloy

definition reader_parse_address :: "alloy \<Rightarrow> string \<Rightarrow> (string, bytes) res" where
  "reader_parse_address al input = ok_or (''invalid hex address `'' @ input @ ''`'') (al_address al (trim input))"

definition decode_v2_pair_created :: "sol \<Rightarrow> FactoryConfig \<Rightarrow> RpcLog \<Rightarrow> DiscoveredV2Pool option" where
  "decode_v2_pair_created so factory lg =
    Option.bind (so_pair_created so lg) (\<lambda>evt.
    Some \<lparr>d2_address = hash_text (pc_pair evt), d2_token0 = hash_text (pc_token0 evt),
          d2_token1 = hash_text (pc_token1 evt), d2_reserve0 = 0, d2_reserve1 = 0,
          d2_fee_bps = (case fa_default_v2_fee_bps factory of Some n \<Rightarrow> n | None \<Rightarrow> 30)\<rparr>)"

definition decode_v3_pool_created :: "sol \<Rightarrow> RpcLog \<Rightarrow> DiscoveredV3Pool option" where
  "decode_v3_pool_created so lg =
    Option.bind (so_pool_created so lg) (\<lambda>evt.
    Some \<lparr>d3_address = hash_text (ev_pool evt), d3_token0 = hash_text (ev_token0 evt),
          d3_token1 = hash_text (ev_token1 evt), d3_fee_pips = ucast (ev_fee evt),
          d3_tick_spacing = scast (ev_tick_spacing evt), d3_sqrt_price_x96 = 0, d3_tick = 0,
          d3_liquidity = 0\<rparr>)"

text \<open>The end of the chunk that starts at \<open>cursor\<close>: \<open>(cursor + chunk - 1).min(to_block)\<close>.  The engine
  is built with \<open>--release\<close> (\<open>src/Dockerfile\<close>), where the sum of two \<open>u64\<close> wraps.\<close>

definition chunk_end :: "u64 \<Rightarrow> u64 \<Rightarrow> u64 \<Rightarrow> u64" where
  "chunk_end cursor chunk to_block = min (cursor + chunk - 1) to_block"

text \<open>The loop of both scans; \<open>keep\<close> decodes one log, or drops it.  A chunk whose end wraps
  around moves the cursor back, and the cursor does not pass the largest block number, so the
  loop may run for ever: then it has no value.\<close>

partial_function (option) fetch_loop ::
  "(u64 \<Rightarrow> u64 \<Rightarrow> ('w, string, RpcLog list) act) \<Rightarrow> (RpcLog \<Rightarrow> 'p option) \<Rightarrow> FactoryConfig \<Rightarrow> u64 \<Rightarrow> u64 \<Rightarrow> 'p list
    \<Rightarrow> 'w \<Rightarrow> ((string, 'p list) res \<times> 'w) option" where
  "fetch_loop get keep factory to_block cursor out w =
    (if cursor \<le> to_block then
       (let e = chunk_end cursor (log_chunk_size_or_default factory) to_block in
        case get cursor e w of (r, w') \<Rightarrow>
          (case r of
             Ok logs \<Rightarrow> fetch_loop get keep factory to_block (saturating_add e 1) (out @ List.map_filter keep logs) w'
           | Err msg \<Rightarrow> Some (Err msg, w')
           | Panic \<Rightarrow> Some (Panic, w')))
     else Some (Ok out, w))"

text \<open>The caller of a scan that never returns gets nothing from it and does nothing more, as after
  a panic, which is how the model's outcomes render it.\<close>

definition scanned :: "('w \<Rightarrow> ((string, 'p list) res \<times> 'w) option) \<Rightarrow> ('w, string, 'p list) act" where
  "scanned loop w = (case loop w of Some rw \<Rightarrow> rw | None \<Rightarrow> (Panic, w))"

definition fetch_v2_pair_created ::
  "'w AlloyFactoryReader \<Rightarrow> FactoryConfig \<Rightarrow> u64 \<Rightarrow> u64 \<Rightarrow> ('w, string, DiscoveredV2Pool list) act" where
  "fetch_v2_pair_created rd factory from_block to_block =
    act_bind (lift (map_err (\<lambda>_. ''v2 factory address must be valid hex'')
      (reader_parse_address (af_alloy rd) (fa_address factory)))) (\<lambda>factory_address.
    scanned (fetch_loop (\<lambda>cursor e. act_err (\<lambda>_. ''eth_getLogs failed for v2 factory chunk '' @ show_uint cursor @ ''-'' @ show_uint e)
        (ch_get_logs (af_chain rd) factory_address (so_pair_created_topic (af_sol rd)) cursor e))
      (decode_v2_pair_created (af_sol rd) factory) factory to_block from_block []))"

definition fetch_v3_pool_created ::
  "'w AlloyFactoryReader \<Rightarrow> FactoryConfig \<Rightarrow> u64 \<Rightarrow> u64 \<Rightarrow> ('w, string, DiscoveredV3Pool list) act" where
  "fetch_v3_pool_created rd factory from_block to_block =
    act_bind (lift (map_err (\<lambda>_. ''v3 factory address must be valid hex'')
      (reader_parse_address (af_alloy rd) (fa_address factory)))) (\<lambda>factory_address.
    scanned (fetch_loop (\<lambda>cursor e. act_err (\<lambda>_. ''eth_getLogs failed for v3 factory chunk '' @ show_uint cursor @ ''-'' @ show_uint e)
        (ch_get_logs (af_chain rd) factory_address (so_pool_created_topic (af_sol rd)) cursor e))
      (decode_v3_pool_created (af_sol rd)) factory to_block from_block []))"

definition multicall_aggregate3 ::
  "'w AlloyFactoryReader \<Rightarrow> bytes \<Rightarrow> Call3 list \<Rightarrow> ('w, string, (bool \<times> bytes) list) act" where
  "multicall_aggregate3 rd multicall3 calls =
    act_bind (act_err (\<lambda>_. ''eth_call to multicall3.aggregate3 failed'')
      (ch_call (af_chain rd) multicall3 (so_aggregate3 (af_sol rd) calls))) (\<lambda>raw.
    lift (ok_or ''failed to decode multicall3 aggregate3 returns'' (so_aggregate3_returns (af_sol rd) raw)))"

text \<open>\<open>parse_address(..).unwrap_or(Address::ZERO)\<close>.\<close>

definition call_target :: "alloy \<Rightarrow> string \<Rightarrow> bytes" where
  "call_target al address = (case reader_parse_address al address of Ok a \<Rightarrow> a | _ \<Rightarrow> replicate 20 0)"

definition set_reserves :: "sol \<Rightarrow> DiscoveredV2Pool \<Rightarrow> bool \<times> bytes \<Rightarrow> DiscoveredV2Pool" where
  "set_reserves so slot res =
    (if \<not> fst res then slot
     else case so_reserves_returns so (snd res) of
       Some (r0, r1) \<Rightarrow> slot\<lparr>d2_reserve0 := ucast r0, d2_reserve1 := ucast r1\<rparr>
     | None \<Rightarrow> slot)"

text \<open>\<open>zip\<close> stops with the shorter side; the remaining pools keep what they had.\<close>

fun zip_update :: "('p \<Rightarrow> 'r \<Rightarrow> 'p) \<Rightarrow> 'p list \<Rightarrow> 'r list \<Rightarrow> 'p list" where
  "zip_update f (p # ps) (r # rs) = f p r # zip_update f ps rs"
| "zip_update f ps _ = ps"

definition hydrate_v2_reserves ::
  "'w AlloyFactoryReader \<Rightarrow> bytes \<Rightarrow> DiscoveredV2Pool list \<Rightarrow> ('w, string, DiscoveredV2Pool list) act" where
  "hydrate_v2_reserves rd multicall3 pools =
    (if pools = [] then ret pools
     else
       act_bind (act_err (\<lambda>_. ''v2 multicall hydration failed'')
         (multicall_aggregate3 rd multicall3 (map (\<lambda>p. \<lparr>c3_target = call_target (af_alloy rd) (d2_address p),
           c3_allow_failure = True, c3_call_data = so_get_reserves (af_sol rd)\<rparr>) pools))) (\<lambda>results.
       ret (zip_update (set_reserves (af_sol rd)) pools results)))"

definition set_v3_state :: "sol \<Rightarrow> DiscoveredV3Pool \<Rightarrow> bool \<times> bytes \<Rightarrow> bool \<times> bytes \<Rightarrow> DiscoveredV3Pool" where
  "set_v3_state so slot slot0_res liq_res =
    (if \<not> fst slot0_res \<or> \<not> fst liq_res then slot
     else
       let slot = (case so_slot0_returns so (snd slot0_res) of
           Some (sp, tk) \<Rightarrow> slot\<lparr>d3_sqrt_price_x96 := ucast sp, d3_tick := scast tk\<rparr> | None \<Rightarrow> slot)
       in (case so_liquidity_returns so (snd liq_res) of
           Some l \<Rightarrow> slot\<lparr>d3_liquidity := l\<rparr> | None \<Rightarrow> slot))"

text \<open>\<open>results[2 * k]\<close> and \<open>results[2 * k + 1]\<close>: indexing past the end panics.\<close>

fun pair_update :: "('p \<Rightarrow> 'r \<Rightarrow> 'r \<Rightarrow> 'p) \<Rightarrow> 'p list \<Rightarrow> 'r list \<Rightarrow> (string, 'p list) res" where
  "pair_update f [] rs = Ok []"
| "pair_update f (p # ps) (r # s # rs) = attempt (pair_update f ps rs) (\<lambda>qs. Ok (f p r s # qs))"
| "pair_update f (p # ps) _ = Panic"

definition hydrate_v3_state ::
  "'w AlloyFactoryReader \<Rightarrow> bytes \<Rightarrow> DiscoveredV3Pool list \<Rightarrow> ('w, string, DiscoveredV3Pool list) act" where
  "hydrate_v3_state rd multicall3 pools =
    (if pools = [] then ret pools
     else
       act_bind (act_err (\<lambda>_. ''v3 multicall hydration failed'')
         (multicall_aggregate3 rd multicall3 (concat (map (\<lambda>p.
           [\<lparr>c3_target = call_target (af_alloy rd) (d3_address p), c3_allow_failure = True,
             c3_call_data = so_slot0 (af_sol rd)\<rparr>,
            \<lparr>c3_target = call_target (af_alloy rd) (d3_address p), c3_allow_failure = True,
             c3_call_data = so_liquidity (af_sol rd)\<rparr>]) pools)))) (\<lambda>results.
       lift (pair_update (set_v3_state (af_sol rd)) pools results)))"

definition latest_block :: "'w AlloyFactoryReader \<Rightarrow> ('w, string, u64) act" where
  "latest_block rd = act_err (\<lambda>_. ''eth_blockNumber for discovery latest_block'') (ch_block_number (af_chain rd))"

definition alloy_factory_reader :: "'w AlloyFactoryReader \<Rightarrow> 'w FactoryReader" where
  "alloy_factory_reader rd =
    \<lparr>rd_latest_block = latest_block rd, rd_fetch_v2 = fetch_v2_pair_created rd, rd_fetch_v3 = fetch_v3_pool_created rd,
     rd_hydrate_v2 = hydrate_v2_reserves rd, rd_hydrate_v3 = hydrate_v3_state rd\<rparr>"

section \<open>Insertion into the book\<close>

fun ingest_v2 :: "FactoryConfig \<Rightarrow> DiscoveredV2Pool list \<Rightarrow> PoolBook \<Rightarrow> nat \<times> PoolBook" where
  "ingest_v2 factory [] book = (0, book)"
| "ingest_v2 factory (pool # pools) book =
    (if d2_reserve0 pool = 0 \<or> d2_reserve1 pool = 0 then ingest_v2 factory pools book
     else case v2_new (d2_address pool) (fa_protocol factory) (fa_exchange factory) (d2_token0 pool)
         (d2_token1 pool) (d2_reserve0 pool) (d2_reserve1 pool) (d2_fee_bps pool) of
       Ok state \<Rightarrow>
         (case ingest_v2 factory pools (insert_v2_pool state book) of (n, book') \<Rightarrow> (n + 1, book'))
     | _ \<Rightarrow> ingest_v2 factory pools book)"

fun ingest_v3 :: "FactoryConfig \<Rightarrow> DiscoveredV3Pool list \<Rightarrow> PoolBook \<Rightarrow> nat \<times> PoolBook" where
  "ingest_v3 factory [] book = (0, book)"
| "ingest_v3 factory (pool # pools) book =
    (if d3_liquidity pool = 0 \<or> d3_sqrt_price_x96 pool = 0 then ingest_v3 factory pools book
     else case v3_new (d3_address pool) (fa_protocol factory) (fa_exchange factory) (d3_token0 pool)
         (d3_token1 pool) (d3_fee_pips pool) (d3_tick_spacing pool) (d3_sqrt_price_x96 pool)
         (d3_liquidity pool) (d3_tick pool) of
       Ok state \<Rightarrow>
         (case ingest_v3 factory pools (insert_v3_pool state book) of (n, book') \<Rightarrow> (n + 1, book'))
     | _ \<Rightarrow> ingest_v3 factory pools book)"

section \<open>The service\<close>

datatype DiscoveryError =
    Disc_InvalidFactory string
  | Disc_Transport string
  | Disc_InvalidPool MarketError
  | Disc_MissingMulticall3

record DiscoveryReport =
  dp_factory_address :: string
  dp_kind :: FactoryKind
  dp_from_block :: u64
  dp_to_block :: u64
  dp_pools_scanned :: nat
  dp_pools_inserted :: nat

record 'w DiscoveryService =
  dv_reader :: "'w FactoryReader"
  dv_multicall3 :: bytes
  dv_pinned_head :: "u64 option"

definition discovery_new :: "alloy \<Rightarrow> 'w FactoryReader \<Rightarrow> string \<Rightarrow> (DiscoveryError, 'w DiscoveryService) res" where
  "discovery_new al reader multicall3 =
    attempt (ok_or (Disc_InvalidFactory ''multicall3 address is not valid hex'') (al_address al (trim multicall3))) (\<lambda>a.
    Ok \<lparr>dv_reader = reader, dv_multicall3 = a, dv_pinned_head = None\<rparr>)"

definition with_pinned_head :: "u64 \<Rightarrow> 'w DiscoveryService \<Rightarrow> 'w DiscoveryService" where
  "with_pinned_head head s = s\<lparr>dv_pinned_head := Some head\<rparr>"

text \<open>A pass changes the book and whatever is behind the reader; a reader call becomes
  \<open>DiscoveryError::Transport\<close> when it fails.\<close>

definition reading :: "('w, string, 'a) act \<Rightarrow> (PoolBook \<times> 'w, DiscoveryError, 'a) act" where
  "reading m = act_err Disc_Transport (act_zoom snd (\<lambda>n (b, _). (b, n)) m)"

definition into_book :: "(PoolBook \<Rightarrow> 'a \<times> PoolBook) \<Rightarrow> (PoolBook \<times> 'w, DiscoveryError, 'a) act" where
  "into_book f = (\<lambda>(b, n). case f b of (x, b') \<Rightarrow> (Ok x, (b', n)))"

definition scan_and_insert ::
  "'w DiscoveryService \<Rightarrow> FactoryConfig \<Rightarrow> u64 \<Rightarrow> u64 \<Rightarrow> (PoolBook \<times> 'w, DiscoveryError, nat \<times> nat) act" where
  "scan_and_insert s factory from_block to_block =
    (case fa_kind factory of
       Factory_UniswapV2 \<Rightarrow>
         act_bind (reading (rd_fetch_v2 (dv_reader s) factory from_block to_block)) (\<lambda>pools.
         act_bind (reading (rd_hydrate_v2 (dv_reader s) (dv_multicall3 s) pools)) (\<lambda>hydrated.
         act_bind (into_book (ingest_v2 factory hydrated)) (\<lambda>inserted. ret (length pools, inserted))))
     | Factory_UniswapV3 \<Rightarrow>
         act_bind (reading (rd_fetch_v3 (dv_reader s) factory from_block to_block)) (\<lambda>pools.
         act_bind (reading (rd_hydrate_v3 (dv_reader s) (dv_multicall3 s) pools)) (\<lambda>hydrated.
         act_bind (into_book (ingest_v3 factory hydrated)) (\<lambda>inserted. ret (length pools, inserted)))))"

definition run_factory ::
  "'w DiscoveryService \<Rightarrow> FactoryConfig \<Rightarrow> (PoolBook \<times> 'w, DiscoveryError, DiscoveryReport) act" where
  "run_factory s factory =
    act_bind (lift (map_err Disc_InvalidFactory (factory_validate factory))) (\<lambda>_.
    act_bind (case dv_pinned_head s of Some h \<Rightarrow> ret h | None \<Rightarrow> reading (rd_latest_block (dv_reader s))) (\<lambda>head.
    let report = (\<lambda>counts. \<lparr>dp_factory_address = fa_address factory, dp_kind = fa_kind factory,
      dp_from_block = fa_deployment_block factory, dp_to_block = head, dp_pools_scanned = fst counts,
      dp_pools_inserted = snd counts\<rparr>) in
    if head < fa_deployment_block factory then ret (report (0, 0))
    else act_bind (scan_and_insert s factory (fa_deployment_block factory) head) (\<lambda>counts. ret (report counts))))"

text \<open>The factories in turn; a failing one is logged and skipped.\<close>

fun run_factories :: "'w DiscoveryService \<Rightarrow> FactoryConfig list \<Rightarrow> (PoolBook \<times> 'w, string, unit) act" where
  "run_factories s [] = ret ()"
| "run_factories s (factory # rest) =
    act_match (run_factory s factory) (\<lambda>_. run_factories s rest) (\<lambda>_. run_factories s rest)"

definition run_pool_discovery ::
  "(string \<Rightarrow> (file_error, FactoryConfig list) res) \<Rightarrow> (string \<Rightarrow> bool) \<Rightarrow> bool \<Rightarrow> (string, u64) res \<Rightarrow>
    (EngineProvider \<Rightarrow> 'w AlloyFactoryReader) \<Rightarrow> alloy \<Rightarrow> DiscoveryConfig \<Rightarrow> RpcTopology \<Rightarrow>
    (PoolBook \<times> 'w, string, unit) act" where
  "run_pool_discovery read url_ok client_ok chain_id reader_of al config topology =
    act_bind (lift (ok_or ''DISCOVERY_FACTORIES_PATH must be set when discovery is enabled'' (di_factories_path config))) (\<lambda>path.
    act_bind (lift (ok_or ''DISCOVERY_MULTICALL3_ADDRESS must be set when discovery is enabled''
      (di_multicall3_address config))) (\<lambda>multicall3.
    act_bind (lift (map_err (\<lambda>e. case e of
        Unreadable \<Rightarrow> ''failed to read factories file `'' @ path @ ''`''
      | Unparsable \<Rightarrow> ''failed to parse factories file `'' @ path @ ''`'') (read path))) (\<lambda>factories.
    act_bind (lift (map_err (\<lambda>_. ''failed to connect HTTP rpc provider for discovery'')
      (connect_http url_ok client_ok topology))) (\<lambda>provider.
    act_bind (lift (map_err (\<lambda>_. ''rpc chain_id mismatch during discovery bootstrap'')
      (verify_chain_id provider chain_id))) (\<lambda>_.
    act_bind (lift (map_err (\<lambda>_. ''failed to construct DiscoveryService'')
      (discovery_new al (alloy_factory_reader (reader_of provider)) multicall3))) (\<lambda>service.
    run_factories (case di_pinned_head_block config of Some head \<Rightarrow> with_pinned_head head service | None \<Rightarrow> service)
      factories))))))"

section \<open>The chunked scan reads everything\<close>

text \<open>A node that answers every request of at most \<open>limit\<close> blocks with the logs of those
  blocks, in order; it may refuse longer ranges.\<close>

definition serves :: "'w chain \<Rightarrow> bytes \<Rightarrow> nat \<Rightarrow> (bytes \<Rightarrow> nat \<Rightarrow> RpcLog list) \<Rightarrow> bool" where
  "serves ch address limit blocks \<longleftrightarrow>
    (\<forall>topic lo hi w. lo \<le> hi \<longrightarrow> unat hi < unat lo + limit \<longrightarrow>
      (\<exists>w'. ch_get_logs ch address topic lo hi w = (Ok (concat (map (blocks topic) [unat lo..<Suc (unat hi)])), w')))"

lemma log_chunk_positive: "1 \<le> log_chunk_size_or_default f"
  by (simp add: log_chunk_size_or_default_def)

lemma chunk_end_fits:
  assumes "1 \<le> chunk" "unat cursor + unat chunk < 2 ^ 64"
  shows "unat (chunk_end cursor chunk to_block) = min (unat cursor + unat chunk - 1) (unat to_block)"
proof -
  from assms(1) have c: "1 \<le> unat chunk" by (simp add: word_le_nat_alt)
  have s: "unat (cursor + chunk) = unat cursor + unat chunk" using assms(2) by (simp add: unat_plus_fits)
  with c have "unat (cursor + chunk - 1) = unat cursor + unat chunk - 1"
    by (simp add: word_le_nat_alt unat_minus_le)
  then show ?thesis by (simp add: chunk_end_def min_def word_le_nat_alt)
qed

text \<open>A chunk that does not fit above the cursor makes the request end before it starts.\<close>

lemma oversized_chunk_inverted:
  assumes "2 ^ 64 < unat cursor + unat chunk"
  shows "chunk_end cursor chunk to_block < cursor"
proof -
  have "unat cursor < 2 ^ 64" "unat chunk < 2 ^ 64" using unat_lt_width[of cursor] unat_lt_width[of chunk] by simp_all
  with assms have s: "unat (cursor + chunk) = unat cursor + unat chunk - 2 ^ 64"
    by (simp add: unat_word_ariths mod_if)
  with assms have "unat (cursor + chunk - 1) = unat cursor + unat chunk - 2 ^ 64 - 1"
    by (simp add: word_le_nat_alt unat_minus_le)
  with assms \<open>unat chunk < 2 ^ 64\<close> have "cursor + chunk - 1 < cursor" by (simp add: word_less_nat_alt)
  then show ?thesis by (simp add: chunk_end_def min_less_iff_disj)
qed

text \<open>A node that refuses such a range ends the scan with its error.\<close>

lemma oversized_chunk_refused:
  assumes "cursor \<le> to_block" "2 ^ 64 < unat cursor + unat (log_chunk_size_or_default factory)"
    and "\<And>lo hi w. hi < lo \<Longrightarrow> \<exists>msg w'. get lo hi w = (Err msg, w')"
  shows "\<exists>msg w'. fetch_loop get keep factory to_block cursor out w = Some (Err msg, w')"
proof -
  let ?e = "chunk_end cursor (log_chunk_size_or_default factory) to_block"
  from assms(3)[OF oversized_chunk_inverted[OF assms(2)], of to_block w] obtain msg w' where
    "get cursor ?e w = (Err msg, w')" by blast
  with assms(1) show ?thesis by (subst fetch_loop.simps) (simp add: Let_def)
qed

lemma fetch_loop_complete:
  assumes serve: "\<And>lo hi w. lo \<le> hi \<Longrightarrow> unat hi < unat lo + unat (log_chunk_size_or_default factory) \<Longrightarrow>
      \<exists>w'. get lo hi w = (Ok (concat (map blocks [unat lo..<Suc (unat hi)])), w')"
    and room: "unat to_block + unat (log_chunk_size_or_default factory) < 2 ^ 64"
  shows "\<exists>w'. fetch_loop get keep factory to_block cursor out w =
    Some (Ok (out @ List.map_filter keep (concat (map blocks [unat cursor..<Suc (unat to_block)]))), w')"
proof (induction "2 ^ 64 - unat cursor" arbitrary: cursor out w rule: less_induct)
  case less
  let ?chunk = "log_chunk_size_or_default factory"
  show ?case
  proof (cases "cursor \<le> to_block")
    case False
    then show ?thesis by (simp add: fetch_loop.simps word_le_nat_alt)
  next
    case True
    then have le: "unat cursor \<le> unat to_block" by (simp add: word_le_nat_alt)
    define n where "n = min (unat cursor + unat ?chunk - 1) (unat to_block)"
    define e where "e = (word_of_nat n :: u64)"
    have chunk: "1 \<le> unat ?chunk" using log_chunk_positive[of factory] by (simp add: word_le_nat_alt)
    have n: "n \<le> unat to_block" "unat cursor \<le> n" "n < unat cursor + unat ?chunk"
      using le chunk by (auto simp: n_def)
    have "n < 2 ^ 64" using n(1) room by simp
    then have e: "unat e = n" by (simp add: e_def unat_of_nat_fits)
    have c: "chunk_end cursor ?chunk to_block = e"
      using le room by (simp add: word_eq_iff_unat chunk_end_fits[OF log_chunk_positive] e n_def)
    have nxt: "unat (saturating_add e (1 :: u64)) = Suc n"
      using n(1) room chunk by (simp add: unat_saturating_add e)
    obtain w' where g: "get cursor e w = (Ok (concat (map blocks [unat cursor..<Suc n])), w')"
      using serve[of cursor e w] n by (auto simp: e word_le_nat_alt)
    have "2 ^ 64 - unat (saturating_add e (1 :: u64)) < 2 ^ 64 - unat cursor"
      using n(2) nxt room le by simp
    from less.hyps[OF this, of "out @ List.map_filter keep (concat (map blocks [unat cursor..<Suc n]))" w']
    obtain w'' where "fetch_loop get keep factory to_block (saturating_add e 1)
        (out @ List.map_filter keep (concat (map blocks [unat cursor..<Suc n]))) w' =
      Some (Ok (out @ List.map_filter keep (concat (map blocks [unat cursor..<Suc n])) @
         List.map_filter keep (concat (map blocks [Suc n..<Suc (unat to_block)]))), w'')"
      using nxt by auto
    moreover have "[unat cursor..<Suc (unat to_block)] = [unat cursor..<Suc n] @ [Suc n..<Suc (unat to_block)]"
      using n upt_add_eq_append[of "unat cursor" "Suc n" "unat to_block - n"] by (simp del: upt_Suc)
    ultimately show ?thesis
      by (simp add: fetch_loop.simps[of _ _ _ _ cursor] Let_def True c g List.map_filter_def)
  qed
qed

lemma served_scan_complete:
  assumes "serves ch a (unat (log_chunk_size_or_default factory)) blocks"
    and "unat to_block + unat (log_chunk_size_or_default factory) < 2 ^ 64"
  shows "\<exists>w'. fetch_loop (\<lambda>cursor e. act_err (msg cursor e) (ch_get_logs ch a topic cursor e)) keep factory to_block
      from_block [] w =
    Some (Ok (List.map_filter keep (concat (map (blocks topic) [unat from_block..<Suc (unat to_block)]))), w')"
proof -
  have "\<exists>w'. act_err (msg lo hi) (ch_get_logs ch a topic lo hi) w =
      (Ok (concat (map (blocks topic) [unat lo..<Suc (unat hi)])), w')"
    if "lo \<le> hi" "unat hi < unat lo + unat (log_chunk_size_or_default factory)" for lo hi w
    using assms(1) that by (fastforce simp: serves_def act_err_eq_Ok simp del: upt_Suc)
  from fetch_loop_complete[OF this assms(2), where out = "[]"] show ?thesis by (simp del: upt_Suc)
qed

text \<open>C28: the scan of a factory is complete for every chunk size that, added to the last block, stays
  below \<open>2 ^ 64\<close>.  If the node serves ranges of up to the configured chunk, both scans then
  return, with the decoded creation events of every block from the first to the last,
  each once and in order, as one request over the whole range would.\<close>

theorem chunked_scan_complete:
  assumes "al_address (af_alloy rd) (trim (fa_address factory)) = Some a"
    and "serves (af_chain rd) a (unat (log_chunk_size_or_default factory)) blocks"
    and "unat to_block + unat (log_chunk_size_or_default factory) < 2 ^ 64"
  shows "(\<exists>w'. fetch_v2_pair_created rd factory from_block to_block w =
      (Ok (List.map_filter (decode_v2_pair_created (af_sol rd) factory)
        (concat (map (blocks (so_pair_created_topic (af_sol rd))) [unat from_block..<Suc (unat to_block)]))), w')) \<and>
    (\<exists>w'. fetch_v3_pool_created rd factory from_block to_block w =
      (Ok (List.map_filter (decode_v3_pool_created (af_sol rd))
        (concat (map (blocks (so_pool_created_topic (af_sol rd))) [unat from_block..<Suc (unat to_block)]))), w'))"
proof -
  note scan = served_scan_complete[OF assms(2,3)]
  have "\<exists>w'. scanned (fetch_loop (\<lambda>cursor e. act_err (msg cursor e) (ch_get_logs (af_chain rd) a topic cursor e)) keep
      factory to_block from_block []) w =
    (Ok (List.map_filter keep (concat (map (blocks topic) [unat from_block..<Suc (unat to_block)]))), w')"
    for msg topic and keep :: "RpcLog \<Rightarrow> 'p option"
    using scan[of msg topic keep from_block w] by (auto simp: scanned_def simp del: upt_Suc)
  note scan' = this
  show ?thesis
    using assms(1) by (simp add: fetch_v2_pair_created_def fetch_v3_pool_created_def reader_parse_address_def
        scan' del: upt_Suc append.simps)
qed

text \<open>A node with one creation event in every even block, serving any range.\<close>

definition sample_sol :: sol where
  "sample_sol =
    \<lparr>so_pair_created_topic = [1], so_pool_created_topic = [2],
     so_pair_created = (\<lambda>lg. if rl_topics lg = [[1]] then Some \<lparr>pc_token0 = [10], pc_token1 = [11], pc_pair = rl_data lg\<rparr> else None),
     so_pool_created = (\<lambda>_. None), so_get_reserves = [3], so_slot0 = [4], so_liquidity = [5],
     so_reserves_returns = (\<lambda>_. Some (1000, 2000)), so_slot0_returns = (\<lambda>_. None), so_liquidity_returns = (\<lambda>_. None),
     so_aggregate3 = (\<lambda>calls. replicate (length calls) 0), so_aggregate3_returns = (\<lambda>raw. Some (replicate (min 1 (length raw)) (True, [])))\<rparr>"

definition sample_blocks :: "bytes \<Rightarrow> nat \<Rightarrow> RpcLog list" where
  "sample_blocks topic n = (if even n then [\<lparr>rl_address = [9], rl_topics = [topic], rl_data = [word_of_nat n]\<rparr>] else [])"

definition sample_reader :: "nat AlloyFactoryReader" where
  "sample_reader =
    \<lparr>af_chain = \<lparr>ch_block_number = ret 12,
       ch_get_logs = (\<lambda>a topic lo hi w. (Ok (concat (map (sample_blocks topic) [unat lo..<Suc (unat hi)])), w + 1)),
       ch_call = (\<lambda>to input. ret input)\<rparr>,
     af_sol = sample_sol, af_alloy = sample_alloy\<lparr>al_address := (\<lambda>_. Some [9])\<rparr>\<rparr>"

definition sample_factory :: FactoryConfig where
  "sample_factory = uniswap_v2\<lparr>fa_deployment_block := 10, fa_log_chunk_size := Some 2\<rparr>"

lemma sample_reader_serves: "serves (af_chain sample_reader) a limit sample_blocks"
  by (simp add: serves_def sample_reader_def)

lemma sample_chunk: "unat (log_chunk_size_or_default sample_factory) = 2"
  by (simp add: log_chunk_size_or_default_def sample_factory_def max_def word_eval)

theorem chunked_scan_complete_witness:
  "unat (12 :: u64) + unat (log_chunk_size_or_default sample_factory) < 2 ^ 64 \<and>
    (\<exists>w'. fetch_v2_pair_created sample_reader sample_factory 10 12 0 =
      (Ok (List.map_filter (decode_v2_pair_created sample_sol sample_factory)
        (concat (map (sample_blocks [1]) [10, 11, 12]))), w'))"
proof -
  have a: "al_address (af_alloy sample_reader) (trim (fa_address sample_factory)) = Some [9]"
    by (simp add: sample_reader_def)
  have room: "unat (12 :: u64) + unat (log_chunk_size_or_default sample_factory) < 2 ^ 64"
    by (simp add: sample_chunk)
  have "[unat (10 :: u64)..<Suc (unat (12 :: u64))] = [10, 11, 12]" by (simp add: upt_rec)
  with chunked_scan_complete[OF a sample_reader_serves room, of 10 0] room show ?thesis
    by (simp add: sample_reader_def sample_sol_def del: upt_Suc)
qed

section \<open>Hydration\<close>

text \<open>A pool keeps its identity through hydration.\<close>

definition v2_identity :: "DiscoveredV2Pool \<Rightarrow> string \<times> string \<times> string \<times> u32" where
  "v2_identity p = (d2_address p, d2_token0 p, d2_token1 p, d2_fee_bps p)"

definition v3_identity :: "DiscoveredV3Pool \<Rightarrow> string \<times> string \<times> string \<times> u32 \<times> i32" where
  "v3_identity p = (d3_address p, d3_token0 p, d3_token1 p, d3_fee_pips p, d3_tick_spacing p)"

text \<open>What \<open>FactoryReader\<close> promises of hydration: the answer is aligned with the question.\<close>

locale hydrating_reader =
  fixes reader :: "'w FactoryReader"
  assumes v2_aligned: "rd_hydrate_v2 reader m ps w = (Ok qs, w') \<Longrightarrow> map v2_identity qs = map v2_identity ps"
    and v3_aligned: "rd_hydrate_v3 reader m ps3 w = (Ok qs3, w') \<Longrightarrow> map v3_identity qs3 = map v3_identity ps3"
begin

lemma v2_length: "rd_hydrate_v2 reader m ps w = (Ok qs, w') \<Longrightarrow> length qs = length ps"
  using v2_aligned map_eq_imp_length_eq by blast

lemma v3_length: "rd_hydrate_v3 reader m ps w = (Ok qs, w') \<Longrightarrow> length qs = length ps"
  using v3_aligned map_eq_imp_length_eq by blast

lemma v2_addresses: "rd_hydrate_v2 reader m ps w = (Ok qs, w') \<Longrightarrow> map d2_address qs = map d2_address ps"
  by (drule v2_aligned, drule arg_cong[where f = "map fst"]) (simp add: comp_def v2_identity_def)

lemma v3_addresses: "rd_hydrate_v3 reader m ps w = (Ok qs, w') \<Longrightarrow> map d3_address qs = map d3_address ps"
  by (drule v3_aligned, drule arg_cong[where f = "map fst"]) (simp add: comp_def v3_identity_def)

end

lemma zip_update_keeps: "(\<And>p r. g (f p r) = g p) \<Longrightarrow> map g (zip_update f ps rs) = map g ps"
  by (induction f ps rs rule: zip_update.induct) auto

lemma pair_update_keeps: "(\<And>p r s. g (f p r s) = g p) \<Longrightarrow> pair_update f ps rs = Ok qs \<Longrightarrow> map g qs = map g ps"
  by (induction f ps rs arbitrary: qs rule: pair_update.induct) (auto simp: res_simps)

lemma pair_update_Panic: "pair_update f ps rs = Panic \<longleftrightarrow> length rs < 2 * length ps"
  by (induction f ps rs rule: pair_update.induct) (auto simp: attempt_eq_Panic)

lemma pair_update_not_Err: "pair_update f ps rs \<noteq> Err e"
  by (induction f ps rs rule: pair_update.induct) (auto simp: attempt_eq_Err)

lemma set_reserves_identity: "v2_identity (set_reserves so p r) = v2_identity p"
  by (simp add: set_reserves_def v2_identity_def split: option.splits prod.splits)

lemma set_v3_state_identity: "v3_identity (set_v3_state so p r s) = v3_identity p"
  by (simp add: set_v3_state_def v3_identity_def Let_def split: option.splits prod.splits)

interpretation scanner: hydrating_reader "alloy_factory_reader rd" for rd
proof
  fix m ps w qs w'
  assume "rd_hydrate_v2 (alloy_factory_reader rd) m ps w = (Ok qs, w')"
  then show "map v2_identity qs = map v2_identity ps"
    by (auto simp: alloy_factory_reader_def hydrate_v2_reserves_def act_simps zip_update_keeps[where g = v2_identity and f = "set_reserves so" for so, OF set_reserves_identity]
        split: if_splits)
next
  fix m ps w qs w'
  assume "rd_hydrate_v3 (alloy_factory_reader rd) m ps w = (Ok qs, w')"
  then show "map v3_identity qs = map v3_identity ps"
    by (auto simp: alloy_factory_reader_def hydrate_v3_state_def act_simps
        dest: pair_update_keeps[where g = v3_identity and f = "set_v3_state so" for so, OF set_v3_state_identity] split: if_splits)
qed

text \<open>A reply with too few results stops hydration of concentrated-liquidity pools with a panic
  (the code indexes it), while hydration of constant-product pools takes the results it got
  and leaves the remaining pools as they were.\<close>

theorem short_multicall_reply:
  assumes "multicall_aggregate3 rd m (concat (map (\<lambda>p.
      [\<lparr>c3_target = call_target (af_alloy rd) (d3_address p), c3_allow_failure = True, c3_call_data = so_slot0 (af_sol rd)\<rparr>,
       \<lparr>c3_target = call_target (af_alloy rd) (d3_address p), c3_allow_failure = True,
        c3_call_data = so_liquidity (af_sol rd)\<rparr>]) pools3)) w = (Ok rs, w1)"
    and "length rs < 2 * length pools3"
    and "multicall_aggregate3 rd m (map (\<lambda>p. \<lparr>c3_target = call_target (af_alloy rd) (d2_address p),
      c3_allow_failure = True, c3_call_data = so_get_reserves (af_sol rd)\<rparr>) pools2) w = (Ok ss, w2)"
    and "length ss < length pools2"
  shows "hydrate_v3_state rd m pools3 w = (Panic, w1) \<and>
    (\<exists>qs. hydrate_v2_reserves rd m pools2 w = (Ok qs, w2) \<and> length qs = length pools2 \<and>
      drop (length ss) qs = drop (length ss) pools2)"
proof -
  have "drop (length ss) (zip_update f ps ss) = drop (length ss) ps" for f :: "DiscoveredV2Pool \<Rightarrow> bool \<times> bytes \<Rightarrow> DiscoveredV2Pool" and ps
    by (induction f ps ss rule: zip_update.induct) auto
  moreover have "length (zip_update f ps ss) = length ps" for f :: "DiscoveredV2Pool \<Rightarrow> bool \<times> bytes \<Rightarrow> DiscoveredV2Pool" and ps
    by (induction f ps ss rule: zip_update.induct) auto
  moreover have "pair_update (set_v3_state (af_sol rd)) pools3 rs = Panic"
    using assms(2) by (simp add: pair_update_Panic)
  ultimately show ?thesis
    using assms by (auto simp: hydrate_v3_state_def hydrate_v2_reserves_def act_bind_def act_err_def lift_def ret_def)
qed

definition sample_v3_pool :: DiscoveredV3Pool where
  "sample_v3_pool =
    \<lparr>d3_address = ''0x01'', d3_token0 = ''0x0a'', d3_token1 = ''0x0b'', d3_fee_pips = 500, d3_tick_spacing = 10,
     d3_sqrt_price_x96 = 0, d3_tick = 0, d3_liquidity = 0\<rparr>"

definition sample_v2_pools :: "DiscoveredV2Pool list" where
  "sample_v2_pools = map (\<lambda>a. \<lparr>d2_address = a, d2_token0 = ''0x0a'', d2_token1 = ''0x0b'', d2_reserve0 = 0,
     d2_reserve1 = 0, d2_fee_bps = 30\<rparr>) [''0x01'', ''0x02'']"

theorem short_multicall_reply_witness:
  "hydrate_v3_state sample_reader [] [sample_v3_pool] 0 = (Panic, 0) \<and>
    (\<exists>qs. hydrate_v2_reserves sample_reader [] sample_v2_pools 0 = (Ok qs, 0) \<and> length qs = 2)"
proof -
  have reply: "multicall_aggregate3 sample_reader [] calls 0 = (Ok (replicate (min 1 (length calls)) (True, [])), 0)" for calls
    by (simp add: multicall_aggregate3_def sample_reader_def sample_sol_def act_bind_def act_err_def ret_def lift_def)
  have len: "length sample_v2_pools = 2" by (simp add: sample_v2_pools_def)
  show ?thesis
    using short_multicall_reply[OF reply _ reply, of "[sample_v3_pool]" sample_v2_pools] len by auto
qed

section \<open>What a pass does to the book\<close>

lemma ingest_v2_reach: "book_reach pu book \<Longrightarrow> book_reach pu (snd (ingest_v2 factory pools book))"
  by (induction factory pools book rule: ingest_v2.induct)
    (auto split: res.splits prod.splits dest: book_reach.add_v2)

lemma ingest_v3_reach: "book_reach pu book \<Longrightarrow> book_reach pu (snd (ingest_v3 factory pools book))"
  by (induction factory pools book rule: ingest_v3.induct)
    (auto split: res.splits prod.splits dest: book_reach.add_v3)

lemma v2_new_address: "v2_new a pr ex t0 t1 r0 r1 fee = Ok p \<Longrightarrow> v2_address p = a"
  by (auto simp: v2_new_def Let_def attempt_eq_Ok)

lemma v3_new_address: "v3_new a pr ex t0 t1 fee ts sp li tk = Ok p \<Longrightarrow> v3_address p = a"
  by (auto simp: v3_new_def Let_def attempt_eq_Ok)

lemma ingest_v2_counts: "fst (ingest_v2 factory pools book) \<le> length pools"
  by (induction factory pools book rule: ingest_v2.induct) (auto split: res.splits prod.splits)

lemma ingest_v3_counts: "fst (ingest_v3 factory pools book) \<le> length pools"
  by (induction factory pools book rule: ingest_v3.induct) (auto split: res.splits prod.splits)

lemma ingest_v2_touches:
  "k \<notin> normalize_address_key ` set (map d2_address pools) \<Longrightarrow>
    hm_get (pb_pools (snd (ingest_v2 factory pools book))) k = hm_get (pb_pools book) k"
  by (induction pools arbitrary: book)
    (auto split: res.splits simp: case_prod_beta insert_v2_pool_def hm.get_insert dest!: v2_new_address)

lemma ingest_v3_touches:
  "k \<notin> normalize_address_key ` set (map d3_address pools) \<Longrightarrow>
    hm_get (pb_pools (snd (ingest_v3 factory pools book))) k = hm_get (pb_pools book) k"
  by (induction pools arbitrary: book)
    (auto split: res.splits simp: case_prod_beta insert_v3_pool_def hm.get_insert dest!: v3_new_address)


text \<open>The addresses a factory's events announced during a scan.\<close>

definition announced :: "'w DiscoveryService \<Rightarrow> FactoryConfig \<Rightarrow> u64 \<Rightarrow> u64 \<Rightarrow> 'w \<Rightarrow> string set" where
  "announced s factory from_block to_block w =
    (case fa_kind factory of
       Factory_UniswapV2 \<Rightarrow>
         (case rd_fetch_v2 (dv_reader s) factory from_block to_block w of
            (Ok pools, _) \<Rightarrow> normalize_address_key ` set (map d2_address pools) | _ \<Rightarrow> {})
     | Factory_UniswapV3 \<Rightarrow>
         (case rd_fetch_v3 (dv_reader s) factory from_block to_block w of
            (Ok pools, _) \<Rightarrow> normalize_address_key ` set (map d3_address pools) | _ \<Rightarrow> {}))"

lemma reading_eq: "reading m (b, n) = (r, bn) \<longleftrightarrow> (\<exists>v n'. m n = (v, n') \<and> r = map_err Disc_Transport v \<and> bn = (b, n'))"
  by (auto simp: reading_def act_err_def act_zoom_def split: prod.splits)

lemma into_book_eq: "into_book f (b, n) = (r, bn) \<longleftrightarrow> (\<exists>x b'. f b = (x, b') \<and> r = Ok x \<and> bn = (b', n))"
  by (auto simp: into_book_def split: prod.splits)

lemma scan_and_insert_sound:
  assumes "hydrating_reader (dv_reader s)" "scan_and_insert s factory lo hi (book, n) = (r, (book', n'))"
  shows "(book_reach pu book \<longrightarrow> book_reach pu book') \<and> (\<not> is_ok r \<longrightarrow> book' = book) \<and>
    (\<forall>sc ins. r = Ok (sc, ins) \<longrightarrow> ins \<le> sc) \<and>
    (\<forall>k. k \<notin> announced s factory lo hi n \<longrightarrow> hm_get (pb_pools book') k = hm_get (pb_pools book) k)"
proof (cases "fa_kind factory")
  case Factory_UniswapV2
  obtain v n1 where v: "rd_fetch_v2 (dv_reader s) factory lo hi n = (v, n1)" by fastforce
  show ?thesis
  proof (cases v)
    case (Ok pools)
    obtain h n2 where h: "rd_hydrate_v2 (dv_reader s) (dv_multicall3 s) pools n1 = (h, n2)" by fastforce
    show ?thesis
    proof (cases h)
      case hyd: (Ok hydrated)
      obtain ins b where b: "ingest_v2 factory hydrated book = (ins, b)" by fastforce
      note aligned = hydrating_reader.v2_length[OF assms(1) h[unfolded hyd]]
        hydrating_reader.v2_addresses[OF assms(1) h[unfolded hyd]]
      have "r = Ok (length pools, ins)" "book' = b"
        using assms(2) v h b Ok hyd Factory_UniswapV2
        by (auto simp: scan_and_insert_def act_bind_def ret_def reading_def act_err_def act_zoom_def into_book_def)
      moreover have "announced s factory lo hi n = normalize_address_key ` set (map d2_address hydrated)"
        unfolding aligned(2) using v Ok Factory_UniswapV2 by (simp add: announced_def)
      ultimately show ?thesis
        using ingest_v2_reach[of pu book factory hydrated] ingest_v2_counts[of factory hydrated book]
          ingest_v2_touches[of _ hydrated factory book] b aligned(1) by auto
    qed (use assms(2) v h Ok Factory_UniswapV2 in
      \<open>auto simp: scan_and_insert_def act_bind_def ret_def reading_def act_err_def act_zoom_def\<close>)
  qed (use assms(2) v Factory_UniswapV2 in
    \<open>auto simp: scan_and_insert_def act_bind_def ret_def reading_def act_err_def act_zoom_def\<close>)
next
  case Factory_UniswapV3
  obtain v n1 where v: "rd_fetch_v3 (dv_reader s) factory lo hi n = (v, n1)" by fastforce
  show ?thesis
  proof (cases v)
    case (Ok pools)
    obtain h n2 where h: "rd_hydrate_v3 (dv_reader s) (dv_multicall3 s) pools n1 = (h, n2)" by fastforce
    show ?thesis
    proof (cases h)
      case hyd: (Ok hydrated)
      obtain ins b where b: "ingest_v3 factory hydrated book = (ins, b)" by fastforce
      note aligned = hydrating_reader.v3_length[OF assms(1) h[unfolded hyd]]
        hydrating_reader.v3_addresses[OF assms(1) h[unfolded hyd]]
      have "r = Ok (length pools, ins)" "book' = b"
        using assms(2) v h b Ok hyd Factory_UniswapV3
        by (auto simp: scan_and_insert_def act_bind_def ret_def reading_def act_err_def act_zoom_def into_book_def)
      moreover have "announced s factory lo hi n = normalize_address_key ` set (map d3_address hydrated)"
        unfolding aligned(2) using v Ok Factory_UniswapV3 by (simp add: announced_def)
      ultimately show ?thesis
        using ingest_v3_reach[of pu book factory hydrated] ingest_v3_counts[of factory hydrated book]
          ingest_v3_touches[of _ hydrated factory book] b aligned(1) by auto
    qed (use assms(2) v h Ok Factory_UniswapV3 in
      \<open>auto simp: scan_and_insert_def act_bind_def ret_def reading_def act_err_def act_zoom_def\<close>)
  qed (use assms(2) v Factory_UniswapV3 in
    \<open>auto simp: scan_and_insert_def act_bind_def ret_def reading_def act_err_def act_zoom_def\<close>)
qed

lemma run_factory_cases:
  assumes "run_factory s factory (book, n) = (r, (book', n'))"
  obtains (early) "book' = book" "\<forall>rep. r = Ok rep \<longrightarrow> dp_pools_inserted rep = 0"
  | (scanned) head n1 v where "scan_and_insert s factory (fa_deployment_block factory) head (book, n1) = (v, (book', n'))"
      "fa_deployment_block factory \<le> head" "is_ok r = is_ok v"
      "\<forall>rep. r = Ok rep \<longrightarrow> v = Ok (dp_pools_scanned rep, dp_pools_inserted rep)"
proof -
  obtain hv n1 where hv: "(case dv_pinned_head s of Some h \<Rightarrow> ret h | None \<Rightarrow> reading (rd_latest_block (dv_reader s))) (book, n) = (hv, (book, n1))"
    by (cases "dv_pinned_head s"; cases "rd_latest_block (dv_reader s) n") (auto simp: ret_def reading_def act_err_def act_zoom_def)
  show thesis
  proof (cases "factory_validate factory")
    case (Ok u)
    show ?thesis
    proof (cases hv)
      case head: (Ok head)
      obtain v b where v: "scan_and_insert s factory (fa_deployment_block factory) head (book, n1) = (v, b)"
        by (cases "scan_and_insert s factory (fa_deployment_block factory) head (book, n1)")
      show ?thesis
      proof (cases "head < fa_deployment_block factory")
        case True
        with assms hv Ok head show ?thesis
          by (intro early) (auto simp: run_factory_def act_bind_def lift_def ret_def Let_def)
      next
        case False
        with assms hv Ok head v show ?thesis
          by (intro scanned[of head n1 v])
            (cases v; auto simp: run_factory_def act_bind_def lift_def ret_def Let_def)+
      qed
    qed (use assms hv Ok in \<open>intro early; auto simp: run_factory_def act_bind_def lift_def\<close>)+
  qed (use assms in \<open>intro early; auto simp: run_factory_def act_bind_def lift_def\<close>)+
qed

text \<open>C30: a discovery pass only adds, and only what it was told of.  Running a factory against the
  node keeps every guarantee of a reachable book, inserts at most as many pools as it scanned,
  changes no entry whose address the factory's events did not announce, and leaves the book
  exactly as it was when it fails, on any error.\<close>

theorem discovery_pass_sound:
  assumes "run_factory s factory (book, n) = (r, (book', n'))" "dv_reader s = alloy_factory_reader rd"
  shows "(book_reach pu book \<longrightarrow> book_reach pu book') \<and> (\<not> is_ok r \<longrightarrow> book' = book) \<and>
    (\<forall>rep. r = Ok rep \<longrightarrow> book' = book \<and> dp_pools_inserted rep = 0 \<or>
      dp_pools_inserted rep \<le> dp_pools_scanned rep \<and>
      (\<exists>head n1. fa_deployment_block factory \<le> head \<and>
        (\<forall>k. hm_get (pb_pools book') k \<noteq> hm_get (pb_pools book) k \<longrightarrow>
          k \<in> announced s factory (fa_deployment_block factory) head n1)))"
  using assms(1)
proof (cases rule: run_factory_cases)
  case early
  then show ?thesis by simp
next
  case (scanned head n1 v)
  have "hydrating_reader (dv_reader s)" unfolding assms(2) by (rule scanner.hydrating_reader_axioms)
  from scan_and_insert_sound[OF this scanned(1), of pu] scanned(2,3,4) show ?thesis by (metis (no_types, lifting))
qed

definition sample_service :: "nat DiscoveryService" where
  "sample_service = \<lparr>dv_reader = alloy_factory_reader sample_reader, dv_multicall3 = [9], dv_pinned_head = None\<rparr>"

theorem discovery_pass_sound_witness:
  "\<exists>r book' n'. run_factory sample_service sample_factory (book_new, 0) = (r, (book', n')) \<and>
    book_reach (\<lambda>_. None) book'"
proof -
  obtain r book' n' where run: "run_factory sample_service sample_factory (book_new, 0) = (r, (book', n'))"
    by (cases "run_factory sample_service sample_factory (book_new, 0)") auto
  from discovery_pass_sound[OF run, of sample_reader "\<lambda>_. None"] run show ?thesis
    by (auto simp: sample_service_def intro: book_reach.start)
qed

end
