(* ===== verification/Metrics.thy ===== *)
theory Metrics
  imports Config
begin

text \<open>
  Observability (\<open>src/crates/observability/src\<close>): the metrics of \<open>metrics.rs\<close> as the list of
  emissions each helper hands to the recorder, with \<open>f64\<close> values as dyadic numbers and the
  conversion of integers to them rounded to nearest, ties to even; and the runtime of \<open>lib.rs\<close>:
  tracing, the exporter, the descriptions and the health endpoint.  The log filter syntax, the
  recorder and the sockets are parameters.
\<close>

section \<open>Floating-point numbers\<close>

text \<open>\<open>Finite m e\<close> is \<open>m * 2 ^ e\<close>.\<close>

datatype f64 = NaN | Infinity bool | Finite int int

fun is_finite :: "f64 \<Rightarrow> bool" where
  "is_finite (Finite _ _) = True"
| "is_finite _ = False"

fun is_negative :: "f64 \<Rightarrow> bool" where
  "is_negative (Finite m _) = (m < 0)"
| "is_negative (Infinity negative) = negative"
| "is_negative NaN = False"

fun bit_length :: "nat \<Rightarrow> nat" where
  "bit_length n = (if n = 0 then 0 else Suc (bit_length (n div 2)))"

declare bit_length.simps [simp del]

definition round_even :: "nat \<Rightarrow> nat \<Rightarrow> nat" where
  "round_even n k =
    (let q = n div 2 ^ k; r = n mod 2 ^ k in
     if 2 ^ k < 2 * r \<or> 2 ^ k = 2 * r \<and> odd q then Suc q else q)"

text \<open>\<open>as f64\<close>: a significand of 53 bits.\<close>

definition f64_of_int :: "int \<Rightarrow> f64" where
  "f64_of_int n =
    (let a = nat \<bar>n\<bar>; k = bit_length a - 53 in Finite (sgn n * int (round_even a k)) (int k))"

section \<open>Metrics\<close>

datatype metric_kind = Counter | Histogram | Gauge
datatype metric_unit = Seconds | Count

record description =
  dx_kind :: metric_kind
  dx_name :: string
  dx_unit :: "metric_unit option"
  dx_help :: string

datatype reading = Increment u64 | Observe f64 | Adjust f64

record emission =
  em_name :: string
  em_labels :: "(string \<times> string) list"
  em_reading :: reading

definition INGEST_EVENTS_TOTAL where "INGEST_EVENTS_TOTAL = ''ingest_events_total''"
definition INGEST_DECISION_LAG_SECONDS where "INGEST_DECISION_LAG_SECONDS = ''ingest_decision_lag_seconds''"
definition DECISION_OPPORTUNITIES_TOTAL where "DECISION_OPPORTUNITIES_TOTAL = ''decision_opportunities_total''"
definition SIMULATOR_LOCAL_SECONDS where "SIMULATOR_LOCAL_SECONDS = ''simulator_local_seconds''"
definition SIMULATOR_ETHCALL_SECONDS where "SIMULATOR_ETHCALL_SECONDS = ''simulator_ethcall_seconds''"
definition SIMULATOR_OUTCOMES_TOTAL where "SIMULATOR_OUTCOMES_TOTAL = ''simulator_outcomes_total''"
definition EXECUTION_SUBMIT_SECONDS where "EXECUTION_SUBMIT_SECONDS = ''execution_submit_seconds''"
definition EXECUTION_RECEIPT_SECONDS where "EXECUTION_RECEIPT_SECONDS = ''execution_receipt_seconds''"
definition EXECUTION_OUTCOMES_TOTAL where "EXECUTION_OUTCOMES_TOTAL = ''execution_outcomes_total''"
definition EXECUTION_REALIZED_SURPLUS_WEI where "EXECUTION_REALIZED_SURPLUS_WEI = ''execution_realized_surplus_wei''"
definition EXECUTION_REALIZED_SURPLUS_TOTAL_WEI where
  "EXECUTION_REALIZED_SURPLUS_TOTAL_WEI = ''execution_realized_surplus_total_wei''"
definition EXECUTION_FEE_PAID_TOTAL_WEI where "EXECUTION_FEE_PAID_TOTAL_WEI = ''execution_fee_paid_total_wei''"

lemmas metric_names = INGEST_EVENTS_TOTAL_def INGEST_DECISION_LAG_SECONDS_def DECISION_OPPORTUNITIES_TOTAL_def
  SIMULATOR_LOCAL_SECONDS_def SIMULATOR_ETHCALL_SECONDS_def SIMULATOR_OUTCOMES_TOTAL_def EXECUTION_SUBMIT_SECONDS_def
  EXECUTION_RECEIPT_SECONDS_def EXECUTION_OUTCOMES_TOTAL_def EXECUTION_REALIZED_SURPLUS_WEI_def
  EXECUTION_REALIZED_SURPLUS_TOTAL_WEI_def EXECUTION_FEE_PAID_TOTAL_WEI_def

abbreviation describe :: "metric_kind \<Rightarrow> string \<Rightarrow> metric_unit option \<Rightarrow> string \<Rightarrow> description" where
  "describe kind name unit help \<equiv> \<lparr>dx_kind = kind, dx_name = name, dx_unit = unit, dx_help = help\<rparr>"

definition register_business_metrics :: "description list" where
  "register_business_metrics =
    [describe Counter INGEST_EVENTS_TOTAL None
       ''Normalised ingest events delivered to the main loop, partitioned by stream/channel/decode status.'',
     describe Histogram INGEST_DECISION_LAG_SECONDS (Some Seconds)
       ''Seconds between an event being observed at the connector and being consumed by the decision loop.'',
     describe Counter DECISION_OPPORTUNITIES_TOTAL None
       ''Two-leg arbitrage opportunities observed during the decision pipeline.'',
     describe Histogram SIMULATOR_LOCAL_SECONDS (Some Seconds)
       ''Wall-clock seconds spent in the local quote-math simulator.'',
     describe Histogram SIMULATOR_ETHCALL_SECONDS (Some Seconds)
       ''Wall-clock seconds spent in the slow-path eth_call simulation.'',
     describe Counter SIMULATOR_OUTCOMES_TOTAL None ''Simulator passes by kind and outcome.'',
     describe Histogram EXECUTION_SUBMIT_SECONDS (Some Seconds)
       ''Seconds from submit_inner start to eth_sendRawTransaction acceptance.'',
     describe Histogram EXECUTION_RECEIPT_SECONDS (Some Seconds)
       ''Seconds from submission acceptance to on-chain receipt observation.'',
     describe Counter EXECUTION_OUTCOMES_TOTAL None ''Final execution outcomes by status.'',
     describe Histogram EXECUTION_REALIZED_SURPLUS_WEI (Some Count) ''Realized surplus per settled attempt, in wei.'',
     describe Gauge EXECUTION_REALIZED_SURPLUS_TOTAL_WEI (Some Count)
       ''Cumulative realized surplus across the process lifetime, in wei.'',
     describe Counter EXECUTION_FEE_PAID_TOTAL_WEI (Some Count)
       ''Cumulative gas + L1 fee paid by execution attempts, in wei.'']"

abbreviation emitted :: "string \<Rightarrow> (string \<times> string) list \<Rightarrow> reading \<Rightarrow> emission" where
  "emitted name labels r \<equiv> \<lparr>em_name = name, em_labels = labels, em_reading = r\<rparr>"

definition record_ingest_event :: "string \<Rightarrow> string \<Rightarrow> string \<Rightarrow> emission list" where
  "record_ingest_event stream channel decode_status =
    [emitted INGEST_EVENTS_TOTAL [(''stream'', stream), (''channel'', channel), (''decode_status'', decode_status)] (Increment 1)]"

definition record_decision_lag :: "string \<Rightarrow> f64 \<Rightarrow> emission list" where
  "record_decision_lag stream lag_secs =
    (if \<not> is_finite lag_secs \<or> is_negative lag_secs then []
     else [emitted INGEST_DECISION_LAG_SECONDS [(''stream'', stream)] (Observe lag_secs)])"

definition record_opportunity_outcome :: "string \<Rightarrow> emission list" where
  "record_opportunity_outcome outcome = [emitted DECISION_OPPORTUNITIES_TOTAL [(''outcome'', outcome)] (Increment 1)]"

definition record_simulator_local :: "f64 \<Rightarrow> string \<Rightarrow> emission list" where
  "record_simulator_local duration_secs outcome =
    [emitted SIMULATOR_LOCAL_SECONDS [] (Observe duration_secs),
     emitted SIMULATOR_OUTCOMES_TOTAL [(''kind'', ''local''), (''outcome'', outcome)] (Increment 1)]"

definition record_simulator_ethcall :: "f64 \<Rightarrow> string \<Rightarrow> emission list" where
  "record_simulator_ethcall duration_secs outcome =
    [emitted SIMULATOR_ETHCALL_SECONDS [] (Observe duration_secs),
     emitted SIMULATOR_OUTCOMES_TOTAL [(''kind'', ''ethcall''), (''outcome'', outcome)] (Increment 1)]"

definition record_submit_latency :: "f64 \<Rightarrow> emission list" where
  "record_submit_latency duration_secs = [emitted EXECUTION_SUBMIT_SECONDS [] (Observe duration_secs)]"

definition record_receipt_latency :: "f64 \<Rightarrow> emission list" where
  "record_receipt_latency duration_secs = [emitted EXECUTION_RECEIPT_SECONDS [] (Observe duration_secs)]"

definition record_execution_outcome :: "string \<Rightarrow> emission list" where
  "record_execution_outcome status = [emitted EXECUTION_OUTCOMES_TOTAL [(''status'', status)] (Increment 1)]"

text \<open>\<open>surplus_wei\<close> is signed.\<close>

definition record_realized_pnl :: "128 word \<Rightarrow> u128 \<Rightarrow> emission list" where
  "record_realized_pnl surplus_wei fee_paid_wei =
    (let surplus_f64 = f64_of_int (sint surplus_wei);
         fee_u64 = (case try_narrow fee_paid_wei of Some n \<Rightarrow> n | None \<Rightarrow> uMAX) in
     [emitted EXECUTION_REALIZED_SURPLUS_WEI [] (Observe surplus_f64),
      emitted EXECUTION_REALIZED_SURPLUS_TOTAL_WEI [] (Adjust surplus_f64),
      emitted EXECUTION_FEE_PAID_TOTAL_WEI [] (Increment fee_u64)])"


section \<open>The runtime\<close>

text \<open>The process-wide state: whether tracing has been set up, the log filter in force, the address
  of the exporter and the descriptions given.\<close>

record 'sock observed =
  ob_tracing_init :: bool
  ob_filter :: "string option"
  ob_exporter :: "'sock option"
  ob_described :: "description list"

text \<open>Outside: the filter of the environment, the parser of a filter, whether a subscriber can still
  be set, and whether an exporter can be installed.\<close>

record 'sock telemetry =
  te_default_filter :: "string option"
  te_parse_filter :: "string \<Rightarrow> string option"
  te_subscriber_free :: bool
  te_install :: "'sock \<Rightarrow> bool"

definition init_tracing :: "'sock telemetry \<Rightarrow> string \<Rightarrow> 'sock observed \<Rightarrow> (string, unit) res \<times> 'sock observed" where
  "init_tracing te log_level s =
    (if ob_tracing_init s then (Ok (), s)
     else case (case te_default_filter te of Some f \<Rightarrow> Some f | None \<Rightarrow> te_parse_filter te log_level) of
         None \<Rightarrow> (Err ''failed to construct tracing filter'', s)
       | Some f \<Rightarrow> (Ok (), s\<lparr>ob_filter := (if te_subscriber_free te then Some f else ob_filter s), ob_tracing_init := True\<rparr>))"

text \<open>\<open>ObservabilityRuntime::init\<close>; the result is the address the health task is to listen on.\<close>

definition observability_init :: "'sock telemetry \<Rightarrow> 'sock MetricsConfig \<Rightarrow> 'sock observed \<Rightarrow> (string, 'sock) res \<times> 'sock observed" where
  "observability_init te config s =
    (case init_tracing te (mc_log_level config) s of
       (Ok _, s1) \<Rightarrow>
         if \<not> mc_enabled config then (Ok (mc_healthz_bind_addr config), s1)
         else
           (case mc_prometheus_bind_addr config of
              None \<Rightarrow> (Ok (mc_healthz_bind_addr config), s1\<lparr>ob_described := ob_described s1 @ register_business_metrics\<rparr>)
            | Some addr \<Rightarrow>
                if te_install te addr
                then (Ok (mc_healthz_bind_addr config),
                      s1\<lparr>ob_exporter := Some addr, ob_described := ob_described s1 @ register_business_metrics\<rparr>)
                else (Err ''failed to install prometheus recorder'', s1))
     | (Err e, s1) \<Rightarrow> (Err e, s1)
     | (Panic, s1) \<Rightarrow> (Panic, s1))"

text \<open>What the health task waits for ends with: the shutdown signal (or its sender gone), or a connection.\<close>

datatype healthz_event = Shutdown_Signal | Accepted "(string, unit) res"

definition healthz_response :: string where
  "healthz_response = ''HTTP/1.1 200 OK'' @ [CHR 0x0D, CHR 0x0A] @ ''content-type: text/plain'' @ [CHR 0x0D, CHR 0x0A] @
    ''content-length: 2'' @ [CHR 0x0D, CHR 0x0A] @ ''connection: close'' @ [CHR 0x0D, CHR 0x0A, CHR 0x0D, CHR 0x0A] @ ''ok''"

text \<open>The loop of the health task with the responses written; no result while it is still waiting.\<close>

fun healthz_loop :: "healthz_event list \<Rightarrow> (string, unit) res option \<times> string list" where
  "healthz_loop [] = (None, [])"
| "healthz_loop (Shutdown_Signal # _) = (Some (Ok ()), [])"
| "healthz_loop (Accepted (Ok _) # rest) = (let (r, out) = healthz_loop rest in (r, healthz_response # out))"
| "healthz_loop (Accepted (Err e) # _) = (Some (Err e), [])"
| "healthz_loop (Accepted Panic # _) = (Some Panic, [])"

definition run_healthz_server ::
  "('sock \<Rightarrow> (string, unit) res) \<Rightarrow> 'sock \<Rightarrow> healthz_event list \<Rightarrow> (string, unit) res option \<times> string list" where
  "run_healthz_server bind bind_addr events =
    (case bind bind_addr of Ok _ \<Rightarrow> healthz_loop events | Err e \<Rightarrow> (Some (Err e), []) | Panic \<Rightarrow> (Some Panic, []))"

text \<open>\<open>ObservabilityRuntime::shutdown\<close>: the signal is sent and the task joined; a task that
  panicked fails the join.\<close>

definition observability_shutdown ::
  "('sock \<Rightarrow> (string, unit) res) \<Rightarrow> 'sock \<Rightarrow> healthz_event list \<Rightarrow> (string, unit) res" where
  "observability_shutdown bind bind_addr before =
    (case fst (run_healthz_server bind bind_addr (before @ [Shutdown_Signal])) of
       Some (Ok _) \<Rightarrow> Ok ()
     | Some (Err _) \<Rightarrow> Err ''healthz server failed''
     | _ \<Rightarrow> Err ''healthz task join failed'')"


section \<open>Every emission is described\<close>

text \<open>The calls of the helpers.\<close>

datatype measurement =
    Ingest_Event string string string
  | Decision_Lag string f64
  | Opportunity_Outcome string
  | Simulator_Local f64 string
  | Simulator_Ethcall f64 string
  | Submit_Latency f64
  | Receipt_Latency f64
  | Execution_Outcome string
  | Realized_Pnl "128 word" u128

fun emissions :: "measurement \<Rightarrow> emission list" where
  "emissions (Ingest_Event s c d) = record_ingest_event s c d"
| "emissions (Decision_Lag s l) = record_decision_lag s l"
| "emissions (Opportunity_Outcome s) = record_opportunity_outcome s"
| "emissions (Simulator_Local d s) = record_simulator_local d s"
| "emissions (Simulator_Ethcall d s) = record_simulator_ethcall d s"
| "emissions (Submit_Latency d) = record_submit_latency d"
| "emissions (Receipt_Latency d) = record_receipt_latency d"
| "emissions (Execution_Outcome s) = record_execution_outcome s"
| "emissions (Realized_Pnl w f) = record_realized_pnl w f"

lemmas emission_defs = record_ingest_event_def record_decision_lag_def record_opportunity_outcome_def
  record_simulator_local_def record_simulator_ethcall_def record_submit_latency_def record_receipt_latency_def
  record_execution_outcome_def record_realized_pnl_def

fun reading_kind :: "reading \<Rightarrow> metric_kind" where
  "reading_kind (Increment _) = Counter"
| "reading_kind (Observe _) = Histogram"
| "reading_kind (Adjust _) = Gauge"

lemma described_once: "distinct (map dx_name register_business_metrics)"
  by (simp add: register_business_metrics_def metric_names)

lemma registered_kinds:
  "map (\<lambda>d. (dx_name d, dx_kind d)) register_business_metrics =
    [(INGEST_EVENTS_TOTAL, Counter), (INGEST_DECISION_LAG_SECONDS, Histogram), (DECISION_OPPORTUNITIES_TOTAL, Counter),
     (SIMULATOR_LOCAL_SECONDS, Histogram), (SIMULATOR_ETHCALL_SECONDS, Histogram), (SIMULATOR_OUTCOMES_TOTAL, Counter),
     (EXECUTION_SUBMIT_SECONDS, Histogram), (EXECUTION_RECEIPT_SECONDS, Histogram), (EXECUTION_OUTCOMES_TOTAL, Counter),
     (EXECUTION_REALIZED_SURPLUS_WEI, Histogram), (EXECUTION_REALIZED_SURPLUS_TOTAL_WEI, Gauge),
     (EXECUTION_FEE_PAID_TOTAL_WEI, Counter)]"
  by (simp add: register_business_metrics_def)

lemma emissions_registered:
  "list_all (\<lambda>e. (em_name e, reading_kind (em_reading e)) \<in> set (map (\<lambda>d. (dx_name d, dx_kind d)) register_business_metrics))
    (emissions m)"
  unfolding registered_kinds by (cases m) (simp_all add: emission_defs Let_def)

lemma emission_described:
  assumes "e \<in> set (emissions m)"
  shows "\<exists>d \<in> set register_business_metrics. dx_name d = em_name e \<and> dx_kind d = reading_kind (em_reading e)"
proof -
  have "(em_name e, reading_kind (em_reading e)) \<in> (\<lambda>d. (dx_name d, dx_kind d)) ` set register_business_metrics"
    using emissions_registered[of m] assms by (simp add: list_all_iff del: image_iff)
  then show ?thesis by (metis (no_types, lifting) imageE prod.inject)
qed

definition label_keys :: "string \<Rightarrow> string list" where
  "label_keys name =
    (if name = INGEST_EVENTS_TOTAL then [''stream'', ''channel'', ''decode_status'']
     else if name = INGEST_DECISION_LAG_SECONDS then [''stream'']
     else if name = DECISION_OPPORTUNITIES_TOTAL then [''outcome'']
     else if name = SIMULATOR_OUTCOMES_TOTAL then [''kind'', ''outcome'']
     else if name = EXECUTION_OUTCOMES_TOTAL then [''status'']
     else [])"

lemma emission_labels: "list_all (\<lambda>e. map fst (em_labels e) = label_keys (em_name e)) (emissions m)"
  by (cases m) (simp_all add: emission_defs label_keys_def metric_names Let_def)

lemma init_described:
  assumes "observability_init te config s = (Ok addr, s')" "mc_enabled config"
  shows "set register_business_metrics \<subseteq> set (ob_described s')"
  using assms by (auto simp: observability_init_def split: prod.splits res.splits option.splits if_splits)

text \<open>C38: after a start with metrics enabled every emission is described.  Whatever a helper emits has a
  description with its name, exactly one among the registered ones, of the kind of its reading;
  all emissions of a metric carry the same label keys; and a lag that is emitted is finite and
  not negative.\<close>

theorem emissions_well_described:
  assumes "observability_init te config s = (Ok addr, s')" "mc_enabled config" "e \<in> set (emissions m)"
  shows "(\<exists>d \<in> set (ob_described s'). dx_name d = em_name e \<and> dx_kind d = reading_kind (em_reading e)) \<and>
    (\<exists>!d. d \<in> set register_business_metrics \<and> dx_name d = em_name e) \<and>
    (\<forall>m' e'. e' \<in> set (emissions m') \<longrightarrow> em_name e' = em_name e \<longrightarrow> map fst (em_labels e') = map fst (em_labels e)) \<and>
    (\<forall>stream lag. m = Decision_Lag stream lag \<longrightarrow> is_finite lag \<and> \<not> is_negative lag)"
proof -
  obtain d where d: "d \<in> set register_business_metrics" "dx_name d = em_name e" "dx_kind d = reading_kind (em_reading e)"
    using emission_described[OF assms(3)] by blast
  have "inj_on dx_name (set register_business_metrics)" using described_once by (simp add: distinct_map)
  with d have "\<exists>!d. d \<in> set register_business_metrics \<and> dx_name d = em_name e" by (metis inj_onD)
  moreover have "\<exists>d \<in> set (ob_described s'). dx_name d = em_name e \<and> dx_kind d = reading_kind (em_reading e)"
    using d init_described[OF assms(1,2)] by blast
  moreover have "is_finite lag \<and> \<not> is_negative lag" if "m = Decision_Lag stream lag" for stream lag
    using assms(3) that by (auto simp: record_decision_lag_def split: if_splits)
  moreover have "map fst (em_labels e') = label_keys (em_name e')" if "e' \<in> set (emissions m')" for e' m'
    using emission_labels[of m'] that by (simp add: list_all_iff)
  ultimately show ?thesis using assms(3) by simp
qed

section \<open>Rounding\<close>

lemma bit_length_0 [simp]: "bit_length 0 = 0"
  by (subst bit_length.simps) simp

lemma bit_length_bounds: "0 < n \<Longrightarrow> 2 ^ (bit_length n - 1) \<le> n \<and> n < 2 ^ bit_length n"
proof (induction n rule: bit_length.induct)
  case (1 n)
  show ?case
  proof (cases "n div 2 = 0")
    case True
    with 1 show ?thesis by (simp add: bit_length.simps)
  next
    case False
    with 1 have IH: "2 ^ (bit_length (n div 2) - 1) \<le> n div 2" "n div 2 < 2 ^ bit_length (n div 2)" by auto
    obtain l where l: "bit_length (n div 2) = Suc l" using False by (subst (asm) bit_length.simps) simp
    with IH 1(2) show ?thesis by (subst (1 2) bit_length.simps) (simp, linarith)
  qed
qed

lemma nearest_error:
  fixes p q r :: nat
  assumes "r < p"
  shows "2 * \<bar>int p * int (if p < 2 * r \<or> p = 2 * r \<and> odd q then Suc q else q) - int (p * q + r)\<bar> \<le> int p"
  using assms by (auto simp: algebra_simps)

lemma round_even_error: "2 * \<bar>2 ^ k * int (round_even n k) - int n\<bar> \<le> 2 ^ k"
  using nearest_error[of "n mod 2 ^ k" "2 ^ k" "n div 2 ^ k"] by (simp add: round_even_def Let_def)

lemma double_53: "(2 :: int) ^ 53 * e = 2 ^ 52 * (2 * e)"
  by simp

lemma f64_of_int_error:
  obtains m k where "f64_of_int n = Finite m (int k)" "2 ^ 53 * \<bar>m * 2 ^ k - n\<bar> \<le> \<bar>n\<bar>"
proof -
  let ?a = "nat \<bar>n\<bar>"
  let ?k = "bit_length ?a - 53"
  let ?e = "\<bar>2 ^ ?k * int (round_even ?a ?k) - int ?a\<bar>"
  have err: "2 ^ 53 * ?e \<le> int ?a"
  proof (cases "?k = 0")
    case True
    then show ?thesis by (simp add: round_even_def)
  next
    case False
    then have "0 < ?a" by (cases "?a = 0") simp_all
    from bit_length_bounds[OF this] have "2 ^ (bit_length ?a - 1) \<le> int ?a"
      by (metis of_nat_le_iff of_nat_numeral of_nat_power)
    moreover have "bit_length ?a - 1 = 52 + ?k" using False by simp
    ultimately have "2 ^ 52 * 2 ^ ?k \<le> int ?a" by (simp only: power_add)
    moreover have "2 ^ 52 * (2 * ?e) \<le> 2 ^ 52 * (2 ^ ?k :: int)"
      using round_even_error[of ?k ?a] by (rule mult_left_mono) simp
    ultimately show ?thesis unfolding double_53 by (rule order_trans[rotated])
  qed
  consider "n = 0" | "0 < n" "int ?a = n" "sgn n = 1" | "n < 0" "int ?a = - n" "sgn n = - 1"
    by (cases n "0 :: int" rule: linorder_cases) simp_all
  then have "2 ^ 53 * \<bar>sgn n * int (round_even ?a ?k) * 2 ^ ?k - n\<bar> \<le> \<bar>n\<bar>"
  proof cases
    case 3
    have "\<bar>- (2 ^ ?k * int (round_even ?a ?k)) - n\<bar> = ?e" unfolding 3(2) by linarith
    with err 3 show ?thesis by (simp add: mult.commute)
  next
    case 2
    with err show ?thesis by (simp add: mult.commute)
  qed simp
  then show thesis by (intro that[of "sgn n * int (round_even ?a ?k)" ?k]) (simp_all add: f64_of_int_def Let_def)
qed


text \<open>The numbers recorded for a settled attempt.  The surplus goes to the histogram and the gauge as the
  same finite number, off by at most one part in \<open>2 ^ 53\<close> from the exact one (so exact below \<open>2 ^ 53\<close>
  wei); the fee goes to the counter cut at the largest 64-bit number.\<close>

theorem pnl_readings:
  "\<exists>m k fee. record_realized_pnl surplus paid =
      [emitted EXECUTION_REALIZED_SURPLUS_WEI [] (Observe (Finite m (int k))),
       emitted EXECUTION_REALIZED_SURPLUS_TOTAL_WEI [] (Adjust (Finite m (int k))),
       emitted EXECUTION_FEE_PAID_TOTAL_WEI [] (Increment fee)] \<and>
    2 ^ 53 * \<bar>m * 2 ^ k - sint surplus\<bar> \<le> \<bar>sint surplus\<bar> \<and> unat fee = min (unat paid) (2 ^ 64 - 1)"
proof -
  obtain m k where f: "f64_of_int (sint surplus) = Finite m (int k)" "2 ^ 53 * \<bar>m * 2 ^ k - sint surplus\<bar> \<le> \<bar>sint surplus\<bar>"
    by (rule f64_of_int_error)
  let ?fee = "case try_narrow paid of Some n \<Rightarrow> n | None \<Rightarrow> (uMAX :: u64)"
  have "unat ?fee = min (unat paid) (2 ^ 64 - 1)"
    by (simp add: try_narrow_def unat_uMAX unat_ucast_fits)
  with f show ?thesis by (simp add: record_realized_pnl_def Let_def del: One_nat_def)
qed

section \<open>The health endpoint\<close>

text \<open>Every connection accepted before the signal is answered, and the shutdown succeeds exactly when
  binding and all of them did.\<close>

lemma healthz_answers:
  "healthz_loop (map Accepted rs @ [Shutdown_Signal]) = (r, out) \<Longrightarrow>
    (if list_all is_ok rs then r = Some (Ok ()) \<and> out = replicate (length rs) healthz_response
     else r \<noteq> Some (Ok ()) \<and> r \<noteq> None)"
proof (induction rs arbitrary: r out)
  case (Cons a rs)
  then show ?case by (cases a) (auto split: prod.splits if_splits)
qed auto

lemma shutdown_reports:
  "observability_shutdown bind addr (map Accepted rs) = Ok () \<longleftrightarrow> is_ok (bind addr) \<and> list_all is_ok rs"
proof -
  obtain r out where "healthz_loop (map Accepted rs @ [Shutdown_Signal]) = (r, out)" by fastforce
  with healthz_answers[OF this] show ?thesis
    by (cases "bind addr") (auto simp: observability_shutdown_def run_healthz_server_def split: if_splits res.splits option.splits)
qed

section \<open>A start\<close>

definition sample_telemetry :: "nat telemetry" where
  "sample_telemetry = \<lparr>te_default_filter = None, te_parse_filter = Some, te_subscriber_free = True, te_install = (\<lambda>_. True)\<rparr>"

definition sample_metrics :: "nat MetricsConfig" where
  "sample_metrics = \<lparr>mc_enabled = True, mc_log_level = ''info'', mc_healthz_bind_addr = 9000, mc_prometheus_bind_addr = Some 9100\<rparr>"

definition fresh_observed :: "nat observed" where
  "fresh_observed = \<lparr>ob_tracing_init = False, ob_filter = None, ob_exporter = None, ob_described = []\<rparr>"

theorem emissions_well_described_witness:
  "\<exists>s'. observability_init sample_telemetry sample_metrics fresh_observed = (Ok 9000, s') \<and>
    (\<exists>d \<in> set (ob_described s'). dx_name d = INGEST_DECISION_LAG_SECONDS \<and> dx_kind d = Histogram)"
proof -
  obtain s' where s': "observability_init sample_telemetry sample_metrics fresh_observed = (Ok 9000, s')"
    by (simp add: observability_init_def init_tracing_def sample_telemetry_def sample_metrics_def fresh_observed_def)
  let ?e = "emitted INGEST_DECISION_LAG_SECONDS [(''stream'', ''log_stream'')] (Observe (Finite 1 (- 4)))"
  have "mc_enabled sample_metrics" "?e \<in> set (emissions (Decision_Lag ''log_stream'' (Finite 1 (- 4))))"
    by (simp_all add: sample_metrics_def record_decision_lag_def)
  from emissions_well_described[OF s' this] s' show ?thesis by auto
qed

end
