(* ===== verification/Startup.thy ===== *)
theory Startup
  imports Discovery Flashblocks Metrics
begin

text \<open>
  The engine from its environment to its main loop (\<open>main\<close> of \<open>src/crates/app/src/main.rs\<close>):
  configuration, observability, transport, risk policy, storage, pool book, discovery, scan and
  ingest pipeline in the order the binary sets them up, each failure ending the start; then the
  loop.  What lies outside the process is the record \<open>host\<close>.
\<close>

section \<open>Start\<close>

record ('key, 'p, 'sock, 'w) host =
  ho_env :: environment
  ho_parse_sock :: "string \<Rightarrow> 'sock option"
  ho_telemetry :: "'sock telemetry"
  ho_outside :: "('key, 'p) outside"
  ho_alloy :: alloy
  ho_amount_error :: "string \<Rightarrow> string"
  ho_open_db :: "string \<Rightarrow> (string, db) res"
  ho_migrate :: "db \<Rightarrow> (string, db) res"
  ho_read_pools :: "string \<Rightarrow> (file_error, BootstrapV2Pool list) res"
  ho_read_factories :: "string \<Rightarrow> (file_error, FactoryConfig list) res"
  ho_factory_reader :: "EngineProvider \<Rightarrow> 'w AlloyFactoryReader"
  ho_clock :: "nat \<Rightarrow> u64"

text \<open>What a start changes: the process-wide observability and the node as discovery sees it.\<close>

record ('sock, 'w) boot =
  bo_observed :: "'sock observed"
  bo_chain :: 'w

text \<open>What a start yields: the values the main loop runs on.\<close>

record ('p, 'sock) launched =
  la_config :: "'sock AppConfig"
  la_healthz :: 'sock
  la_transport :: "'p chosen_transport"
  la_policy :: RiskPolicy
  la_store :: storage
  la_book :: PoolBook
  la_scan :: "RuntimeScanConfig option"
  la_pipeline :: IngestPipeline
  la_runtime :: IngestRuntime

definition discover :: "('key, 'p, 'sock, 'w) host \<Rightarrow> 'sock AppConfig \<Rightarrow> PoolBook \<Rightarrow> (('sock, 'w) boot, string, PoolBook) act" where
  "discover h config book b =
    (if \<not> di_enabled (ac_discovery config) then (Ok book, b)
     else case run_pool_discovery (ho_read_factories h) (os_url_ok (ho_outside h)) (os_client_ok (ho_outside h))
         (os_chain_id (ho_outside h)) (ho_factory_reader h) (ho_alloy h) (ac_discovery config)
         (topology_from_config (ac_rpc config)) (book, bo_chain b) of
       (r, (book', n)) \<Rightarrow>
         (case r of Ok _ \<Rightarrow> Ok book' | Err _ \<Rightarrow> Err ''failed to run pool discovery'' | Panic \<Rightarrow> Panic, b\<lparr>bo_chain := n\<rparr>))"

definition bootstrap :: "('key, 'p, 'sock, 'w) host \<Rightarrow> (('sock, 'w) boot, string, ('p, 'sock) launched) act" where
  "bootstrap h =
    act_bind (lift (map_err (\<lambda>_. ''failed to load application config'') (app_from_env (ho_parse_sock h) (ho_env h)))) (\<lambda>config.
    act_bind (act_err (\<lambda>_. ''failed to initialize observability'')
      (act_zoom bo_observed (\<lambda>s b. b\<lparr>bo_observed := s\<rparr>) (observability_init (ho_telemetry h) (ac_metrics config)))) (\<lambda>healthz.
    act_bind (lift (map_err (\<lambda>_. ''failed to build execution transport'')
      (build_execution_transport (ho_alloy h) (ho_outside h) (topology_from_config (ac_rpc config)) (ac_execution config)
        (ac_signer config)))) (\<lambda>transport.
    act_bind (lift (map_err (\<lambda>_. ''failed to build risk policy'')
      (policy_from_config (ho_amount_error h) (ac_risk config)))) (\<lambda>policy.
    act_bind (lift (map_err (\<lambda>_. ''failed to initialize storage'')
      (storage_connect (ho_open_db h) (ho_migrate h) (ac_storage config)))) (\<lambda>store.
    act_bind (lift (map_err (\<lambda>_. ''failed to bootstrap pool book'')
      (load_pool_book (ho_read_pools h) (ac_decision config)))) (\<lambda>loaded.
    act_bind (discover h config loaded) (\<lambda>book.
    act_bind (lift (runtime_scan_config (ac_decision config))) (\<lambda>scan.
    act_bind (lift (map_err (\<lambda>_. ''failed to build ingest pipeline'') (pipeline_from_config (ac_ingest config)))) (\<lambda>pipeline.
    act_bind (lift (pipeline_spawn (ho_clock h) None None pipeline)) (\<lambda>runtime.
    ret \<lparr>la_config = config, la_healthz = healthz, la_transport = transport, la_policy = policy, la_store = store,
      la_book = book, la_scan = scan, la_pipeline = pipeline, la_runtime = runtime\<rparr>))))))))))"

text \<open>The state of the engine as the loop is entered.\<close>

definition launched_engine :: "('p, 'sock) launched \<Rightarrow> 'n \<Rightarrow> 'n engine" where
  "launched_engine la net =
    \<lparr>en_book = la_book la, en_risk = risk_state_default, en_store = la_store la, en_net = net\<rparr>"

text \<open>\<open>main\<close>: the loop on what the start yields, then the shutdown of the health endpoint.\<close>

definition run_launched ::
  "('sock \<Rightarrow> (string, unit) res) \<Rightarrow> healthz_event list \<Rightarrow> ('p, 'sock) launched \<Rightarrow> 'n runtime \<Rightarrow> wakeup list \<Rightarrow>
    ('n engine, string, unit) act" where
  "run_launched bind served la rt wakeups =
    act_bind (main_loop rt wakeups) (\<lambda>reason.
    lift (if reason = None then Ok () else observability_shutdown bind (la_healthz la) served))"

section \<open>The book of a start\<close>

lemma load_reach:
  assumes "load_pool_book read config = Ok book"
  shows "book_reach pu book"
proof -
  have "book_reach pu b \<Longrightarrow> fold_res (\<lambda>entry book. attempt (map_err market_error_text (v2_new (bp_address entry)
      (bp_protocol entry) (bp_exchange entry) (bp_token0 entry) (bp_token1 entry) (bp_reserve0 entry) (bp_reserve1 entry)
      (bp_fee_bps entry))) (\<lambda>pool. Ok (insert_v2_pool pool book))) entries b = Ok book \<Longrightarrow> book_reach pu book" for entries b
    by (induction entries arbitrary: b) (auto simp: res_simps intro: book_reach.add_v2)
  with assms show ?thesis
    by (auto simp: load_pool_book_def res_simps intro: book_reach.start split: option.splits)
qed

lemma factory_reach:
  assumes "run_factory s factory (book, n) = (r, (book', n'))" "dv_reader s = alloy_factory_reader rd" "book_reach pu book"
  shows "book_reach pu book'"
  using assms(1)
proof (cases rule: run_factory_cases)
  case (scanned head n1 v)
  have "hydrating_reader (dv_reader s)" unfolding assms(2) by (rule scanner.hydrating_reader_axioms)
  from scan_and_insert_sound[OF this scanned(1), of pu] assms(3) show ?thesis by blast
qed (use assms(3) in simp)

lemma factories_reach:
  assumes "run_factories s fs (book, n) = (r, (book', n'))" "dv_reader s = alloy_factory_reader rd" "book_reach pu book"
  shows "book_reach pu book'"
  using assms(1,3)
proof (induction fs arbitrary: book n)
  case (Cons f fs)
  obtain r1 book1 n1 where f: "run_factory s f (book, n) = (r1, (book1, n1))" by (cases "run_factory s f (book, n)") auto
  note reach = factory_reach[OF f assms(2) Cons.prems(2)]
  show ?case using Cons.prems(1) Cons.IH[OF _ reach] reach f by (cases r1) (auto simp: act_match_def)
qed (auto simp: ret_def)


lemma keeps_lift_Ok: "(\<And>x. r = Ok x \<Longrightarrow> keeps P (k x)) \<Longrightarrow> keeps P (act_bind (lift r) k)"
  by (cases r) (auto simp: keeps_def act_bind_def lift_def)

lemma discovery_reach:
  assumes "run_pool_discovery read url_ok client_ok chain_id reader_of al config topology (book, n) = (r, (book', n'))"
    and "book_reach pu book"
  shows "book_reach pu book'"
proof -
  let ?P = "\<lambda>(b, n). book_reach pu b"
  have "keeps ?P (run_factories s fs)" if "dv_reader s = alloy_factory_reader rd" for s fs and rd :: "'a AlloyFactoryReader"
    unfolding keeps_def by (clarsimp split: prod.splits) (metis factories_reach prod.collapse that)
  moreover have "dv_reader service = alloy_factory_reader rd"
    if "discovery_new al (alloy_factory_reader rd) m = Ok service" for service m and rd :: "'a AlloyFactoryReader"
    using that by (auto simp: discovery_new_def res_simps)
  ultimately have "keeps ?P (run_pool_discovery read url_ok client_ok chain_id reader_of al config topology)"
    unfolding run_pool_discovery_def
    by (intro keeps_lift_Ok) (auto simp: with_pinned_head_def res_simps split: option.splits)
  from keepsD[OF this _ assms(1)] assms(2) show ?thesis by simp
qed

lemma discover_reach:
  assumes "discover h config book b = (Ok book', b')" "book_reach pu book"
  shows "book_reach pu book'"
  using assms discovery_reach
  by (fastforce simp: discover_def split: if_splits prod.splits res.splits)

section \<open>The book of a running engine\<close>

lemma decision_keeps_book: "keeps (\<lambda>w. en_book w = book) (maybe_log_decision_output rt at_time out)"
proof -
  have store: "keeps (\<lambda>w. en_book w = book) (on_store m)" for m :: "(storage, string, 'x) act"
    by (rule keeps_on_store) simp
  have net: "keeps (\<lambda>w. en_book w = book) (on_net m)" for m :: "('a, string, 'x) act"
    by (rule keeps_on_net) simp
  have note_: "keeps (\<lambda>w. en_book w = book) (note_outcome ok)" for ok
    by (simp add: note_outcome_def keeps_def act_modify_def)
  have row: "keeps (\<lambda>w. en_book w = book) (for_row row f)" for row f
    by (auto simp: for_row_def intro!: keeps_intros store split: option.splits)
  have submitted: "keeps (\<lambda>w. en_book w = book) (drive_submitted rt q a i hash)" for q a i hash
    by (auto simp: drive_submitted_def conclude_receipt_def conclude_dropped_def Let_def
        intro!: keeps_intros store net note_ row split: option.splits)
  have drive: "keeps (\<lambda>w. en_book w = book) (validate_and_drive rt at_time q p i)" for q p i
    by (auto simp: validate_and_drive_def drive_execution_attempt_def Let_def
        intro!: keeps_intros store net note_ row submitted split: submit_answer.splits)
  have assessed: "keeps (\<lambda>w. en_book w = book) (assess_output rt at_time o')" for o'
    by (auto simp: assess_output_def keeps_def split: prod.splits)
  show ?thesis
    by (auto simp: maybe_log_decision_output_def act_on_decision_def execute_prepared_def Let_def
        intro!: keeps_intros store drive assessed split: option.splits)
qed

lemma handle_event_reach: "keeps (\<lambda>w. book_reach (ru_parse_u256 rt) (en_book w)) (handle_event rt event)"
proof (cases event)
  case (Event_Log l)
  have book: "keeps (\<lambda>w. book_reach (ru_parse_u256 rt) (en_book w)) (\<lambda>w. case book_apply_log (ru_parse_u256 rt) l (en_book w) of
      (book, r) \<Rightarrow> (map_err f r, w\<lparr>en_book := book\<rparr>))" for f :: "MarketError \<Rightarrow> string"
    by (auto simp: keeps_def intro: book_reach.event split: prod.splits)
  have scan: "keeps (\<lambda>w. book_reach (ru_parse_u256 rt) (en_book w)) (\<lambda>w. (scan_book rt l i (en_book w), w))" for i
    by (simp add: keeps_def)
  have store: "keeps (\<lambda>w. book_reach (ru_parse_u256 rt) (en_book w)) (on_store m)" for m :: "(storage, string, 'x) act"
    by (rule keeps_on_store) simp
  show ?thesis
    unfolding handle_event_def Event_Log Event.case
    by (intro keeps_intros book store) (auto intro: keeps_intros scan)
qed (simp_all add: handle_event_def keeps_ret)

lemma decision_reach: "keeps (\<lambda>w. book_reach (ru_parse_u256 rt) (en_book w)) (maybe_log_decision_output rt at_time out)"
  using decision_keeps_book[of _ rt at_time out] unfolding keeps_def by metis

lemma main_loop_reach: "keeps (\<lambda>w. book_reach (ru_parse_u256 rt) (en_book w)) (main_loop rt wakeups)"
  by (induction rt wakeups rule: main_loop.induct)
    (auto simp: engine_step_def intro!: keeps_intros handle_event_reach decision_reach)


section \<open>What a start establishes\<close>

lemma bootstrap_Ok:
  assumes "bootstrap h b = (Ok la, b')"
  obtains loaded b1 where "app_from_env (ho_parse_sock h) (ho_env h) = Ok (la_config la)"
    "observability_init (ho_telemetry h) (ac_metrics (la_config la)) (bo_observed b) = (Ok (la_healthz la), bo_observed b1)"
    "build_execution_transport (ho_alloy h) (ho_outside h) (topology_from_config (ac_rpc (la_config la)))
      (ac_execution (la_config la)) (ac_signer (la_config la)) = Ok (la_transport la)"
    "load_pool_book (ho_read_pools h) (ac_decision (la_config la)) = Ok loaded"
    "discover h (la_config la) loaded b1 = (Ok (la_book la), b')"
    "pipeline_from_config (ac_ingest (la_config la)) = Ok (la_pipeline la)"
    "pipeline_spawn (ho_clock h) None None (la_pipeline la) = (Ok (la_runtime la) :: (string, IngestRuntime) res)"
proof -
  have zoom: "observability_init te c (bo_observed b) = (Ok a, bo_observed w)"
    if "act_zoom bo_observed (\<lambda>s b. b\<lparr>bo_observed := s\<rparr>) (observability_init te c) b = (Ok a, w)" for te c a w
    using that by (auto simp: act_zoom_def split: prod.splits)
  note run = assms[unfolded bootstrap_def act_bind_eq_Ok act_err_eq_Ok ret_eq]
  then show thesis by (auto simp: lift_def map_err_eq_Ok intro!: that dest!: zoom)
qed

lemma chosen_in_shadow:
  assumes "build_execution_transport al ext topology execution signer = Ok transport"
  shows "ex_mode execution = Shadow \<longleftrightarrow> (\<exists>why. transport = Placeholder why)"
proof (cases "ex_mode execution = Shadow")
  case False
  obtain v n where "sync_from_chain (os_pending_count ext) nonce_new = (v, n)" by fastforce
  with False assms show ?thesis
    by (cases v) (auto simp: build_execution_transport_def res_simps)
qed (use assms in \<open>auto simp: build_execution_transport_def\<close>)

lemma spawned_fields:
  assumes "pipeline_spawn clock takes runtime_takes p = Ok r"
  shows "length (ir_stream_tasks r) = stream_count p" "ir_event_receiver r = []"
  using assms by (auto simp: pipeline_spawn_def stream_count_def split: if_splits)

lemma app_ingest:
  assumes "app_from_env parse_sock env = Ok config"
  shows "ingest_from_env env = Ok (ac_ingest config)"
  using assms by (auto simp: app_from_env_def res_simps Let_def)

text \<open>C29: an engine that starts runs on sound parts.  When the start succeeds, its configuration is the one of
  the environment; there is a placeholder instead of a transport exactly in shadow mode; with
  metrics enabled all of them are described; there is one task per enabled subscription, at
  least one, and nothing is in the channels; and the book, from the file and from discovery, is
  reachable, and still is after any wake-ups of the main loop, however it ends.\<close>

theorem launched_engine_sound:
  assumes "bootstrap h b = (Ok la, b')" "main_loop rt wakeups (launched_engine la net) = (r, w')"
  shows "app_from_env (ho_parse_sock h) (ho_env h) = Ok (la_config la) \<and>
    (ex_mode (ac_execution (la_config la)) = Shadow \<longleftrightarrow> (\<exists>why. la_transport la = Placeholder why)) \<and>
    (mc_enabled (ac_metrics (la_config la)) \<longrightarrow> set register_business_metrics \<subseteq> set (ob_described (bo_observed b'))) \<and>
    length (ir_stream_tasks (la_runtime la)) = enabled_streams (ac_ingest (la_config la)) \<and>
    0 < enabled_streams (ac_ingest (la_config la)) \<and> ir_event_receiver (la_runtime la) = [] \<and>
    book_reach (ru_parse_u256 rt) (en_book w')"
  using assms(1)
proof (cases rule: bootstrap_Ok)
  case (1 loaded b1)
  have "book_reach (ru_parse_u256 rt) (la_book la)" by (rule discover_reach[OF 1(5) load_reach[OF 1(4)]])
  with keepsD[OF main_loop_reach _ assms(2)] have "book_reach (ru_parse_u256 rt) (en_book w')"
    by (simp add: launched_engine_def)
  moreover have "bo_observed b' = bo_observed b1" using 1(5) by (auto simp: discover_def split: if_splits prod.splits)
  moreover obtain p endpoint where "pipeline_from_config (ac_ingest (la_config la)) = Ok p"
    "stream_count p = enabled_streams (ac_ingest (la_config la))" "0 < enabled_streams (ac_ingest (la_config la))"
    using loaded_pipeline[OF app_ingest[OF 1(1)]] by blast
  moreover have "length (ir_stream_tasks (la_runtime la)) = stream_count (la_pipeline la)" "ir_event_receiver (la_runtime la) = []"
    using spawned_fields[OF 1(7)] by simp_all
  ultimately show ?thesis using 1(1,6) chosen_in_shadow[OF 1(3)] init_described[OF 1(2)] by simp
qed


section \<open>A start in shadow mode\<close>

definition shadow_environment :: environment where
  "shadow_environment = map_of [(''BASE_TRANSPORT'', ''ws''), (''BASE_WS_URL'', ''ws://node''), (''RPC_HTTP_URL'', ''http://node'')]"

definition shadow_host :: "(nat, nat, nat, nat) host" where
  "shadow_host =
    \<lparr>ho_env = shadow_environment, ho_parse_sock = (\<lambda>_. Some 9000), ho_telemetry = sample_telemetry,
     ho_outside = \<lparr>os_url_ok = (\<lambda>_. True), os_client_ok = True, os_chain_id = Ok 8453, os_pending_count = Ok 0,
       os_from_bytes = (\<lambda>_. None), os_decrypt = (\<lambda>_ _. None), os_address = (\<lambda>_. []), os_sign = (\<lambda>_ _ _. Ok []),
       os_node = (\<lambda>_. sample_node)\<rparr>,
     ho_alloy = sample_alloy, ho_amount_error = (\<lambda>_. []), ho_open_db = (\<lambda>_. Err []), ho_migrate = Ok,
     ho_read_pools = (\<lambda>_. Err Unreadable), ho_read_factories = (\<lambda>_. Err Unreadable),
     ho_factory_reader = (\<lambda>_. sample_reader), ho_clock = (\<lambda>_. 0)\<rparr>"

lemma shadow_starts: "is_ok (fst (bootstrap shadow_host \<lparr>bo_observed = fresh_observed, bo_chain = 0\<rparr>))"
  by code_simp

theorem launched_engine_sound_witness:
  "\<exists>la b'. bootstrap shadow_host \<lparr>bo_observed = fresh_observed, bo_chain = 0\<rparr> = (Ok la, b') \<and>
    book_reach (\<lambda>_. None) (la_book la) \<and> 0 < length (ir_stream_tasks (la_runtime la))"
proof -
  obtain la b' where start: "bootstrap shadow_host \<lparr>bo_observed = fresh_observed, bo_chain = 0\<rparr> = (Ok la, b')"
    using shadow_starts by (metis is_ok.elims(2) prod.collapse)
  have "main_loop sample_runtime [] (launched_engine la 0) = (Ok None, launched_engine la 0)" by (simp add: ret_def)
  from launched_engine_sound[OF start this] have "book_reach (\<lambda>_. None) (la_book la)" "0 < length (ir_stream_tasks (la_runtime la))"
    by (simp_all add: launched_engine_def sample_runtime_def)
  with start show ?thesis by blast
qed

end
